(* ===== verification/Prelude.thy ===== *)
theory Prelude imports Main "HOL-Library.Word" begin

text \<open>
  What every component of the model shares: Go's 64-bit integers, time values, errors,
  contexts and the few functions of Go's standard library that the source calls on strings,
  together with the generic lemmas on lists that the component proofs use.

  Strings and byte slices are lists of bytes (\<open>string\<close>).  A Go \<open>int\<close>, \<open>int64\<close> or
  \<open>time.Duration\<close> is an \<open>int\<close> whose arithmetic goes through \<open>wrap64\<close> wherever the
  source's operands can leave the 64-bit range; an atomic counter is a \<open>64 word\<close>.
\<close>

named_theorems env_laws \<open>what the documented behaviour of a database or server call gives\<close>
named_theorems row_simps \<open>how the assignments of a SQL statement change a row\<close>

section \<open>Machine integers and time\<close>

text \<open>Two's complement wrap-around of Go's signed 64-bit arithmetic.\<close>

definition wrap64 :: "int \<Rightarrow> int" where
  "wrap64 n = (n + 2 ^ 63) mod 2 ^ 64 - 2 ^ 63"

definition in_int64 :: "int \<Rightarrow> bool" where
  "in_int64 n \<longleftrightarrow> - (2 ^ 63) \<le> n \<and> n < 2 ^ 63"

lemma wrap64_id [simp]: "in_int64 n \<Longrightarrow> wrap64 n = n"
  by (simp add: wrap64_def in_int64_def)

lemma in_int64_wrap64 [simp, intro]: "in_int64 (wrap64 n)"
  by (simp add: wrap64_def in_int64_def)

type_synonym counter = "64 word"

text \<open>
  A \<open>time.Time\<close> is its instant in nanoseconds since the Unix epoch (\<open>UTC()\<close> changes only
  the location and is the identity here); a \<open>time.Duration\<close> is its nanoseconds.  Go's zero
  \<open>time.Time\<close> is midnight of January 1 of year 1.
\<close>

type_synonym time = int
type_synonym duration = int

definition zero_time :: time where
  "zero_time = - 62135596800000000000"

definition Second :: duration where
  "Second = 1000000000"

lemma Second_pos [simp]: "0 < Second"
  by (simp add: Second_def)

section \<open>Errors\<close>

text \<open>
  \<open>Err m\<close> is \<open>errors.New(m)\<close>; \<open>Errorf p e q\<close> is \<open>fmt.Errorf\<close> with one \<open>%w\<close> verb, where
  \<open>p\<close> and \<open>q\<close> are the formatted text before and after it; \<open>JoinErr es\<close> is \<open>errors.Join\<close> of
  these errors; the remaining constructors are the sentinel values the source compares with
  \<open>errors.Is\<close>.
\<close>

datatype go_error =
    Err string
  | Errorf string go_error string
  | JoinErr "go_error list"
  | ErrUnsupportedOutboxAction
  | ErrRecordNotFound
  | ErrCanceled
  | ErrDeadlineExceeded

fun intersperse :: "'a \<Rightarrow> 'a list \<Rightarrow> 'a list" where
  "intersperse sep (x # y # ys) = x # sep # intersperse sep (y # ys)"
| "intersperse sep xs = xs"

fun err_text :: "go_error \<Rightarrow> string" where
  "err_text (Err m) = m"
| "err_text (Errorf p e q) = p @ err_text e @ q"
| "err_text (JoinErr es) = concat (intersperse [CHR 0x0A] (map err_text es))"
| "err_text ErrUnsupportedOutboxAction = ''unsupported outbox action''"
| "err_text ErrRecordNotFound = ''record not found''"
| "err_text ErrCanceled = ''context canceled''"
| "err_text ErrDeadlineExceeded = ''context deadline exceeded''"

fun errors_is :: "go_error \<Rightarrow> go_error \<Rightarrow> bool" where
  "errors_is (Errorf p e q) t = (Errorf p e q = t \<or> errors_is e t)"
| "errors_is (JoinErr es) t = (JoinErr es = t \<or> (\<exists>e \<in> set es. errors_is e t))"
| "errors_is e t = (e = t)"

text \<open>\<open>errors.Join\<close> leaves nil errors out and is nil where there is none.\<close>

definition errors_Join :: "go_error option list \<Rightarrow> go_error option" where
  "errors_Join errs =
     (let es = map the (filter (\<lambda>e. e \<noteq> None) errs) in if es = [] then None else Some (JoinErr es))"

lemma errors_is_refl [simp]: "errors_is e e"
  by (cases e) auto

lemma errors_is_wrap: "errors_is e t \<Longrightarrow> errors_is (Errorf p e q) t"
  by simp

section \<open>Contexts\<close>

text \<open>
  A \<open>context.Context\<close> is known by how it was built.  Whether it is cancelled at some point of
  a run is a property of the world the run goes through (\<open>rt_ctx_err\<close> in the components).
\<close>

datatype go_ctx =
    NilCtx
  | Background
  | CallerCtx nat
  | WithoutCancel go_ctx
  | WithTimeout go_ctx duration
  | WithCancel go_ctx

text \<open>\<open>flushContext\<close> of \<open>autosync_tx.go\<close>, which several components use.\<close>

definition flushContext :: "go_ctx \<Rightarrow> go_ctx" where
  "flushContext ctx = (if ctx = NilCtx then Background else WithoutCancel ctx)"

section \<open>Strings\<close>

fun show_digits :: "nat \<Rightarrow> string" where
  "show_digits n =
     (if n < 10 then [char_of (48 + n)]
      else show_digits (n div 10) @ [char_of (48 + n mod 10)])"

declare show_digits.simps [simp del]

text \<open>The verb \<open>%d\<close>.\<close>

definition show_int :: "int \<Rightarrow> string" where
  "show_int n = (if n < 0 then ''-'' @ show_digits (nat (- n)) else show_digits (nat n))"

lemma show_digits_nonempty [simp]: "show_digits n \<noteq> []"
  by (subst show_digits.simps) simp

lemma show_int_nonempty [simp]: "show_int n \<noteq> []"
  by (simp add: show_int_def)

text \<open>\<open>hex.EncodeToString\<close>: two lower-case digits for each byte.\<close>

definition hex_digit :: "nat \<Rightarrow> char" where
  "hex_digit n = ''0123456789abcdef'' ! n"

fun hex_encode :: "8 word list \<Rightarrow> string" where
  "hex_encode [] = []"
| "hex_encode (b # bs) = hex_digit (unat b div 16) # hex_digit (unat b mod 16) # hex_encode bs"

lemma length_hex_encode [simp]: "length (hex_encode bs) = 2 * length bs"
  by (induction bs) auto

text \<open>
  \<open>strings.TrimSpace\<close> on the bytes of a string: \<open>space_codes\<close> lists the UTF-8 encodings of
  the code points of \<open>unicode.IsSpace\<close>.
\<close>

definition space_codes :: "string list" where
  "space_codes =
     [[CHR 0x09], [CHR 0x0A], [CHR 0x0B], [CHR 0x0C], [CHR 0x0D], [CHR 0x20],
      [CHR 0xC2, CHR 0x85], [CHR 0xC2, CHR 0xA0], [CHR 0xE1, CHR 0x9A, CHR 0x80]]
     @ map (\<lambda>n. [CHR 0xE2, CHR 0x80, char_of (n :: nat)])
         [0x80, 0x81, 0x82, 0x83, 0x84, 0x85, 0x86, 0x87, 0x88, 0x89, 0x8A, 0xA8, 0xA9, 0xAF]
     @ [[CHR 0xE2, CHR 0x81, CHR 0x9F], [CHR 0xE3, CHR 0x80, CHR 0x80]]"

fun strip_prefix :: "string \<Rightarrow> string \<Rightarrow> string option" where
  "strip_prefix [] s = Some s"
| "strip_prefix (c # cs) [] = None"
| "strip_prefix (c # cs) (d # s) = (if c = d then strip_prefix cs s else None)"

fun strip_any :: "string list \<Rightarrow> string \<Rightarrow> string option" where
  "strip_any [] s = None"
| "strip_any (p # ps) s = (case strip_prefix p s of Some t \<Rightarrow> Some t | None \<Rightarrow> strip_any ps s)"

lemma strip_prefix_length: "strip_prefix p s = Some t \<Longrightarrow> length s = length p + length t"
  by (induction p s rule: strip_prefix.induct) (auto split: if_splits)

lemma strip_any_shorter:
  "strip_any ps s = Some t \<Longrightarrow> [] \<notin> set ps \<Longrightarrow> length t < length s"
  by (induction ps) (auto split: option.splits dest!: strip_prefix_length)

text \<open>Trims any of the non-empty codes at the front, as long as there is one.\<close>

function trim_front :: "string list \<Rightarrow> string \<Rightarrow> string" where
  "trim_front ps s =
     (if [] \<in> set ps then s
      else case strip_any ps s of Some t \<Rightarrow> trim_front ps t | None \<Rightarrow> s)"
  by pat_completeness auto
termination
  by (relation "measure (\<lambda>(ps, s). length s)") (auto dest: strip_any_shorter)

declare trim_front.simps [simp del]

definition TrimSpace :: "string \<Rightarrow> string" where
  "TrimSpace s = rev (trim_front (map rev space_codes) (rev (trim_front space_codes s)))"

lemma strip_any_trim_front: "[] \<notin> set ps \<Longrightarrow> strip_any ps (trim_front ps s) = None"
  by (induction ps s rule: trim_front.induct)
    (subst trim_front.simps, auto split: option.splits)

lemma trim_front_idem: "trim_front ps (trim_front ps s) = trim_front ps s"
proof (cases "[] \<in> set ps")
  case True
  then show ?thesis by (simp add: trim_front.simps)
next
  case False
  then show ?thesis
    by (subst trim_front.simps) (simp add: strip_any_trim_front)
qed

section \<open>Lists\<close>

lemma filter_map_commute:
  "(\<And>x. x \<in> set xs \<Longrightarrow> P (f x) = Q x) \<Longrightarrow> filter P (map f xs) = map f (filter Q xs)"
  by (induction xs) auto

lemma length_filter_map_le:
  "(\<And>x. x \<in> set xs \<Longrightarrow> P (f x) \<Longrightarrow> P x) \<Longrightarrow>
     length (filter P (map f xs)) \<le> length (filter P xs)"
  by (induction xs) auto

lemma length_filter_eq_0: "length (filter P xs) = 0 \<longleftrightarrow> (\<forall>x \<in> set xs. \<not> P x)"
  by (induction xs) auto

lemma map_if_none: "(\<And>x. x \<in> set xs \<Longrightarrow> P x \<Longrightarrow> f x = x) \<Longrightarrow> map (\<lambda>x. if P x then f x else x) xs = xs"
  by (induction xs) auto

lemma distinct_key_unique:
  "distinct (map k xs) \<Longrightarrow> x \<in> set xs \<Longrightarrow> y \<in> set xs \<Longrightarrow> k x = k y \<Longrightarrow> x = y"
  by (induction xs) (auto simp: rev_image_eqI)

lemma filter_key_at_most_one:
  "distinct (map k xs) \<Longrightarrow> length (filter (\<lambda>x. k x = a \<and> P x) xs) \<le> 1"
proof (induction xs)
  case Nil
  then show ?case by simp
next
  case (Cons x xs)
  have "filter (\<lambda>y. k y = a \<and> P y) xs = []" if "k x = a"
    using Cons.prems that by (auto simp: filter_empty_conv rev_image_eqI)
  with Cons show ?case by (cases "k x = a \<and> P x") auto
qed

end
