(* ===== verification/Failures.thy ===== *)
theory Failures imports Prelude begin

text \<open>
  The in-memory failure samples of \<open>failures.go\<close>: the event, the ring buffer
  \<open>failureRecorder\<close> with its operations, and the classification of HTTP statuses.
  A bounded newest-first log is the contract of the ring buffer (\<open>bounded_log\<close>); the
  clients of the recorder rest on that contract only.
\<close>

section \<open>Events and sources\<close>

definition failureSourceCallback :: string where "failureSourceCallback = ''callback''"
definition failureSourceFullSync :: string where "failureSourceFullSync = ''fullsync''"
definition failureSourceOps :: string where "failureSourceOps = ''ops''"
definition failureSourceRelay :: string where "failureSourceRelay = ''relay''"
definition failureSourceDead :: string where "failureSourceDead = ''relay_dead''"
definition failureSourceUnidentified :: string where
  "failureSourceUnidentified = ''unidentified_rows''"

lemmas failure_source_defs =
  failureSourceCallback_def failureSourceFullSync_def failureSourceOps_def
  failureSourceRelay_def failureSourceDead_def failureSourceUnidentified_def

record FailureEvent =
  fe_At :: time
  fe_Source :: string
  fe_Index :: string
  fe_Action :: string
  fe_DocumentID :: string
  fe_Status :: int
  fe_Error :: string
  fe_Retryable :: bool

text \<open>The zero value \<open>FailureEvent{}\<close>; a composite literal updates the fields it names.\<close>

definition zero_FailureEvent :: FailureEvent where
  "zero_FailureEvent =
     \<lparr>fe_At = zero_time, fe_Source = [], fe_Index = [], fe_Action = [], fe_DocumentID = [],
      fe_Status = 0, fe_Error = [], fe_Retryable = False\<rparr>"

definition classifyRetryable :: "int \<Rightarrow> bool" where
  "classifyRetryable status = (status = 429 \<or> status = 502 \<or> status = 503 \<or> status = 504)"

section \<open>The ring buffer\<close>

record failureRecorder =
  fr_buf :: "FailureEvent list"
  fr_next :: nat
  fr_count :: nat
  fr_last :: FailureEvent
  fr_hasLast :: bool

definition defaultFailureBufferSize :: int where
  "defaultFailureBufferSize = 128"

definition newFailureRecorder :: "int \<Rightarrow> failureRecorder" where
  "newFailureRecorder n =
     (let n = (if n \<le> 0 then defaultFailureBufferSize else n)
      in \<lparr>fr_buf = replicate (nat n) zero_FailureEvent, fr_next = 0, fr_count = 0,
          fr_last = zero_FailureEvent, fr_hasLast = False\<rparr>)"

text \<open>
  The assignment \<open>r.buf[r.next] = event\<close> panics in Go when \<open>next\<close> is out of range;
  \<open>recorder_ok\<close> below excludes it for every recorder that the constructor and \<open>record\<close>
  produce.
\<close>

definition recorder_record :: "FailureEvent \<Rightarrow> failureRecorder \<Rightarrow> failureRecorder" where
  "recorder_record event r =
     (if length (fr_buf r) = 0 then r
      else r\<lparr>fr_buf := (fr_buf r)[fr_next r := event],
             fr_next := (fr_next r + 1) mod length (fr_buf r),
             fr_count := (if fr_count r < length (fr_buf r) then fr_count r + 1 else fr_count r),
             fr_last := event,
             fr_hasLast := True\<rparr>)"

text \<open>The index of the \<open>i\<close>-th newest sample, as the loop of \<open>recent\<close> computes it.\<close>

definition recent_index :: "failureRecorder \<Rightarrow> nat \<Rightarrow> int" where
  "recent_index r i =
     (let idx = int (fr_next r) - 1 - int i
      in if idx < 0 then idx + int (length (fr_buf r)) else idx)"

definition recorder_recent :: "int \<Rightarrow> failureRecorder \<Rightarrow> FailureEvent list" where
  "recorder_recent limit r =
     (if fr_count r = 0 then []
      else let limit = (if limit \<le> 0 \<or> limit > int (fr_count r) then int (fr_count r) else limit)
           in map (\<lambda>i. fr_buf r ! nat (recent_index r i)) [0..<nat limit])"

definition recorder_summary :: "failureRecorder \<Rightarrow> FailureEvent \<times> bool \<times> nat" where
  "recorder_summary r = (fr_last r, fr_hasLast r, fr_count r)"

section \<open>The contract: a bounded newest-first log\<close>

locale bounded_log =
  fixes put :: "'e \<Rightarrow> 's \<Rightarrow> 's"
    and kept :: "'s \<Rightarrow> 'e list"
    and capacity :: "'s \<Rightarrow> nat"
    and ok :: "'s \<Rightarrow> bool"
  assumes kept_put: "ok s \<Longrightarrow> kept (put e s) = take (capacity s) (e # kept s)"
    and capacity_put: "ok s \<Longrightarrow> capacity (put e s) = capacity s"
    and ok_put: "ok s \<Longrightarrow> ok (put e s)"
    and kept_bound: "ok s \<Longrightarrow> length (kept s) \<le> capacity s"
begin

lemma ok_fold: "ok s \<Longrightarrow> ok (fold put es s)"
  by (induction es arbitrary: s) (auto simp: ok_put)

lemma capacity_fold: "ok s \<Longrightarrow> capacity (fold put es s) = capacity s"
  by (induction es arbitrary: s) (auto simp: ok_put capacity_put)

lemma kept_fold: "ok s \<Longrightarrow> kept (fold put es s) = take (capacity s) (rev es @ kept s)"
proof (induction es arbitrary: s)
  case Nil
  then show ?case by (simp add: kept_bound)
next
  case (Cons e es)
  have "kept (fold put (e # es) s) = take (capacity s) (rev es @ take (capacity s) (e # kept s))"
    using Cons by (simp add: ok_put kept_put capacity_put)
  also have "\<dots> = take (capacity s) (rev es @ e # kept s)"
    by (simp add: take_append min_def)
  finally show ?case by simp
qed

lemma kept_newest: "ok s \<Longrightarrow> 0 < capacity s \<Longrightarrow> hd (kept (put e s)) = e"
  by (cases "capacity s") (auto simp: kept_put)

end

section \<open>The ring buffer keeps the contract\<close>

definition recorder_ok :: "failureRecorder \<Rightarrow> bool" where
  "recorder_ok r \<longleftrightarrow>
     fr_count r \<le> length (fr_buf r) \<and> (fr_buf r \<noteq> [] \<longrightarrow> fr_next r < length (fr_buf r))
     \<and> (fr_hasLast r \<longleftrightarrow> 0 < fr_count r)
     \<and> (fr_count r < length (fr_buf r) \<longrightarrow> fr_next r = fr_count r)
     \<and> (0 < fr_count r \<longrightarrow> fr_last r = fr_buf r ! nat (recent_index r 0))"

definition recorder_kept :: "failureRecorder \<Rightarrow> FailureEvent list" where
  "recorder_kept r = map (\<lambda>i. fr_buf r ! nat (recent_index r i)) [0..<fr_count r]"

definition recorder_capacity :: "failureRecorder \<Rightarrow> nat" where
  "recorder_capacity r = length (fr_buf r)"

lemma recent_index_range:
  assumes "fr_next r < length (fr_buf r)" "i < length (fr_buf r)"
  shows "0 \<le> recent_index r i" "recent_index r i < int (length (fr_buf r))"
  using assms by (auto simp: recent_index_def Let_def)

lemma recent_index_record_0:
  assumes "fr_next r < length (fr_buf r)"
  shows "nat (recent_index (recorder_record e r) 0) = fr_next r"
proof (cases "Suc (fr_next r) = length (fr_buf r)")
  case True
  then show ?thesis by (auto simp: recorder_record_def recent_index_def Let_def)
next
  case False
  with assms have "Suc (fr_next r) mod length (fr_buf r) = Suc (fr_next r)" by simp
  with assms show ?thesis by (auto simp: recorder_record_def recent_index_def Let_def)
qed

lemma recent_index_record_Suc:
  assumes "fr_next r < length (fr_buf r)" "Suc i < length (fr_buf r)"
  shows "recent_index (recorder_record e r) (Suc i) = recent_index r i"
    and "nat (recent_index r i) \<noteq> fr_next r"
proof -
  show "recent_index (recorder_record e r) (Suc i) = recent_index r i"
  proof (cases "Suc (fr_next r) = length (fr_buf r)")
    case True
    with assms show ?thesis by (auto simp: recorder_record_def recent_index_def Let_def)
  next
    case False
    with assms have "Suc (fr_next r) mod length (fr_buf r) = Suc (fr_next r)" by simp
    with assms show ?thesis by (auto simp: recorder_record_def recent_index_def Let_def)
  qed
  show "nat (recent_index r i) \<noteq> fr_next r"
    using assms by (auto simp: recent_index_def Let_def)
qed

lemma recorder_kept_record:
  assumes ok: "recorder_ok r"
  shows "recorder_kept (recorder_record e r) = take (recorder_capacity r) (e # recorder_kept r)"
proof (cases "fr_buf r = []")
  case True
  with ok show ?thesis
    by (simp add: recorder_record_def recorder_kept_def recorder_capacity_def recorder_ok_def)
next
  case False
  define n where "n = length (fr_buf r)"
  define r' where "r' = recorder_record e r"
  from ok False have nx: "fr_next r < n" and count: "fr_count r \<le> n" and n: "0 < n"
    by (auto simp: recorder_ok_def n_def)
  have count': "fr_count r' = min n (Suc (fr_count r))"
    using False count by (simp add: r'_def recorder_record_def n_def)
  have buf': "fr_buf r' = (fr_buf r)[fr_next r := e]"
    using False by (simp add: r'_def recorder_record_def)
  have "map (\<lambda>i. fr_buf r' ! nat (recent_index r' i)) [0..<fr_count r'] ! i
      = take n (e # recorder_kept r) ! i" if i: "i < fr_count r'" for i
  proof (cases i)
    case 0
    have "nat (recent_index r' 0) = fr_next r"
      using nx by (simp add: r'_def n_def recent_index_record_0)
    with 0 nx n i show ?thesis by (simp add: buf' n_def)
  next
    case (Suc j)
    with i count' have j: "Suc j < n" "j < fr_count r" by simp_all
    have "recent_index r' (Suc j) = recent_index r j" "nat (recent_index r j) \<noteq> fr_next r"
      using nx j by (simp_all add: r'_def n_def recent_index_record_Suc)
    with Suc i j show ?thesis by (simp add: buf' recorder_kept_def)
  qed
  moreover have "length (take n (e # recorder_kept r)) = fr_count r'"
    using count' by (simp add: recorder_kept_def)
  ultimately have "map (\<lambda>i. fr_buf r' ! nat (recent_index r' i)) [0..<fr_count r']
      = take n (e # recorder_kept r)"
    by (intro nth_equalityI) simp_all
  then show ?thesis
    by (simp add: recorder_kept_def recorder_capacity_def r'_def n_def)
qed

lemma recorder_ok_record:
  assumes ok: "recorder_ok r"
  shows "recorder_ok (recorder_record e r)"
proof (cases "fr_buf r = []")
  case True
  with ok show ?thesis by (simp add: recorder_record_def)
next
  case False
  with ok have nx: "fr_next r < length (fr_buf r)" by (simp add: recorder_ok_def)
  have "fr_buf (recorder_record e r) ! nat (recent_index (recorder_record e r) 0) = e"
    using nx False by (simp add: recent_index_record_0) (simp add: recorder_record_def)
  moreover have "fr_last (recorder_record e r) = e"
    using False by (simp add: recorder_record_def)
  ultimately show ?thesis
    using ok False nx by (auto simp: recorder_ok_def recorder_record_def mod_Suc)
qed

interpretation ring: bounded_log recorder_record recorder_kept recorder_capacity recorder_ok
proof
  fix r e
  assume ok: "recorder_ok r"
  then show "recorder_kept (recorder_record e r) = take (recorder_capacity r) (e # recorder_kept r)"
    by (rule recorder_kept_record)
  from ok show "recorder_ok (recorder_record e r)"
    by (rule recorder_ok_record)
  show "recorder_capacity (recorder_record e r) = recorder_capacity r"
    by (simp add: recorder_capacity_def recorder_record_def)
next
  fix r
  assume "recorder_ok r"
  then show "length (recorder_kept r) \<le> recorder_capacity r"
    by (simp add: recorder_ok_def recorder_kept_def recorder_capacity_def)
qed

lemma recorder_ok_new [simp]: "recorder_ok (newFailureRecorder n)"
  by (simp add: recorder_ok_def newFailureRecorder_def defaultFailureBufferSize_def Let_def)

lemma recorder_kept_new [simp]: "recorder_kept (newFailureRecorder n) = []"
  by (simp add: recorder_kept_def newFailureRecorder_def Let_def)

lemma recorder_capacity_new [simp]:
  "recorder_capacity (newFailureRecorder n) = (if n \<le> 0 then 128 else nat n)"
  by (simp add: recorder_capacity_def newFailureRecorder_def defaultFailureBufferSize_def Let_def)

lemma recorder_recent_kept:
  "recorder_recent limit r =
     (if limit \<le> 0 then recorder_kept r else take (nat limit) (recorder_kept r))"
  by (auto simp: recorder_recent_def recorder_kept_def Let_def take_map min_def)

lemma recorder_summary_kept:
  assumes "recorder_ok r"
  shows "recorder_summary r =
     (case recorder_kept r of
        [] \<Rightarrow> (fr_last r, False, 0)
      | e # _ \<Rightarrow> (e, True, length (recorder_kept r)))"
proof (cases "fr_count r")
  case 0
  with assms show ?thesis by (simp add: recorder_ok_def recorder_summary_def recorder_kept_def)
next
  case (Suc k)
  then have "recorder_kept r = fr_buf r ! nat (recent_index r 0)
      # map (\<lambda>i. fr_buf r ! nat (recent_index r i)) [1..<fr_count r]"
    by (simp add: recorder_kept_def upt_conv_Cons del: upt_Suc)
  with assms Suc show ?thesis by (simp add: recorder_ok_def recorder_summary_def)
qed

section \<open>Properties\<close>

text \<open>
  The failure log is a bounded newest-first window: after any history of failures on a fresh
  recorder, \<open>recent\<close> returns the newest failures first, at most \<open>limit\<close> of them (all that are kept
  for a limit of zero or below) and never more than the buffer holds (128 where no size is
  configured); \<open>summary\<close> reports the latest failure and how many are kept.
\<close>

lemma recorder_window:
  "recorder_recent limit (fold recorder_record es (newFailureRecorder n)) =
     take (if limit \<le> 0 then length es else nat limit)
       (take (if n \<le> 0 then 128 else nat n) (rev es))
   \<and> (es = [] \<or> recorder_summary (fold recorder_record es (newFailureRecorder n)) =
        (last es, True, min (length es) (if n \<le> 0 then 128 else nat n)))"
proof -
  let ?r = "fold recorder_record es (newFailureRecorder n)"
  let ?c = "if n \<le> 0 then 128 else nat n"
  have kept: "recorder_kept ?r = take ?c (rev es)"
    using ring.kept_fold [of "newFailureRecorder n" es] by simp
  have ok: "recorder_ok ?r" by (simp add: ring.ok_fold)
  have pos: "0 < ?c" by simp
  have summary: "recorder_summary ?r = (last es, True, min (length es) ?c)" if "es \<noteq> []"
  proof -
    from that obtain e es' where "rev es = e # es'" by (cases "rev es") auto
    moreover from this have "last es = e" by (metis hd_rev list.sel(1))
    moreover obtain c' where "?c = Suc c'" using pos by (metis not0_implies_Suc less_numeral_extra(3))
    moreover have "length es = Suc (length es')" using calculation(1) by (metis length_Cons length_rev)
    ultimately show ?thesis
      using recorder_summary_kept [OF ok] kept by simp
  qed
  have "recorder_recent limit ?r =
      take (if limit \<le> 0 then length es else nat limit) (take ?c (rev es))"
  proof (cases "limit \<le> 0")
    case True
    have "length (take ?c (rev es)) \<le> length es" by simp
    from take_all [OF this] True show ?thesis by (simp only: recorder_recent_kept kept if_True)
  next
    case False
    then show ?thesis by (simp only: recorder_recent_kept kept if_False)
  qed
  moreover have "es = [] \<or> recorder_summary ?r = (last es, True, min (length es) ?c)"
    using summary by blast
  ultimately show ?thesis by blast
qed

end
