(* ===== verification/Metrics.thy ===== *)
theory Metrics imports Prelude begin

text \<open>
  The runtime counters of \<open>metrics.go\<close>: \<open>Metrics\<close> holds one 64-bit counter per
  \<open>atomic.Int64\<close> field, \<open>metrics_snapshot\<close> reads them together with the statistics of the
  bulk indexer, whose unsigned counters are clamped into the signed range.
\<close>

record Metrics =
  mx_DroppedTotal :: counter
  mx_FullSyncDocs :: counter
  mx_FullSyncTables :: counter
  mx_DeadLetters :: counter
  mx_OutboxEventsPersisted :: counter
  mx_RelayProcessedTotal :: counter
  mx_RelayRetriesTotal :: counter
  mx_RelayDeadTotal :: counter
  mx_SyncEventsSkippedUnidentified :: counter
  mx_FullSyncErrorsTotal :: counter

definition zero_Metrics :: Metrics where
  "zero_Metrics =
     \<lparr>mx_DroppedTotal = 0, mx_FullSyncDocs = 0, mx_FullSyncTables = 0, mx_DeadLetters = 0,
      mx_OutboxEventsPersisted = 0, mx_RelayProcessedTotal = 0, mx_RelayRetriesTotal = 0,
      mx_RelayDeadTotal = 0, mx_SyncEventsSkippedUnidentified = 0, mx_FullSyncErrorsTotal = 0\<rparr>"

text \<open>The fields of \<open>esutil.BulkIndexerStats\<close> that the snapshot reads.\<close>

record BulkIndexerStats =
  st_NumAdded :: "64 word"
  st_NumFlushed :: "64 word"
  st_NumFailed :: "64 word"
  st_NumIndexed :: "64 word"
  st_NumUpdated :: "64 word"
  st_NumDeleted :: "64 word"

definition zero_stats :: BulkIndexerStats where
  "zero_stats = \<lparr>st_NumAdded = 0, st_NumFlushed = 0, st_NumFailed = 0, st_NumIndexed = 0,
                 st_NumUpdated = 0, st_NumDeleted = 0\<rparr>"

record MetricsSnapshot =
  ms_DroppedTotal :: int
  ms_FullSyncDocs :: int
  ms_FullSyncTables :: int
  ms_DeadLetters :: int
  ms_OutboxEventsPersisted :: int
  ms_RelayProcessedTotal :: int
  ms_RelayRetriesTotal :: int
  ms_RelayDeadTotal :: int
  ms_LastErrorAtUnixMs :: int
  ms_LastErrorSource :: string
  ms_LastErrorIndex :: string
  ms_LastErrorAction :: string
  ms_LastErrorDocumentID :: string
  ms_LastErrorText :: string
  ms_SyncEventsSkippedUnidentified :: int
  ms_FullSyncErrorsTotal :: int
  ms_FailureSamplesRetained :: int
  ms_BulkNumAdded :: int
  ms_BulkNumFlushed :: int
  ms_BulkNumFailed :: int
  ms_BulkNumIndexed :: int
  ms_BulkNumUpdated :: int
  ms_BulkNumDeleted :: int

definition clampUint64ToInt64 :: "64 word \<Rightarrow> int" where
  "clampUint64ToInt64 value =
     (if value > 0x7FFFFFFFFFFFFFFF then 0x7FFFFFFFFFFFFFFF else sint value)"

definition metrics_snapshot :: "Metrics \<Rightarrow> BulkIndexerStats \<Rightarrow> MetricsSnapshot" where
  "metrics_snapshot m stats =
     \<lparr>ms_DroppedTotal = sint (mx_DroppedTotal m),
      ms_FullSyncDocs = sint (mx_FullSyncDocs m),
      ms_FullSyncTables = sint (mx_FullSyncTables m),
      ms_DeadLetters = sint (mx_DeadLetters m),
      ms_OutboxEventsPersisted = sint (mx_OutboxEventsPersisted m),
      ms_RelayProcessedTotal = sint (mx_RelayProcessedTotal m),
      ms_RelayRetriesTotal = sint (mx_RelayRetriesTotal m),
      ms_RelayDeadTotal = sint (mx_RelayDeadTotal m),
      ms_LastErrorAtUnixMs = 0,
      ms_LastErrorSource = [],
      ms_LastErrorIndex = [],
      ms_LastErrorAction = [],
      ms_LastErrorDocumentID = [],
      ms_LastErrorText = [],
      ms_SyncEventsSkippedUnidentified = sint (mx_SyncEventsSkippedUnidentified m),
      ms_FullSyncErrorsTotal = sint (mx_FullSyncErrorsTotal m),
      ms_FailureSamplesRetained = 0,
      ms_BulkNumAdded = clampUint64ToInt64 (st_NumAdded stats),
      ms_BulkNumFlushed = clampUint64ToInt64 (st_NumFlushed stats),
      ms_BulkNumFailed = clampUint64ToInt64 (st_NumFailed stats),
      ms_BulkNumIndexed = clampUint64ToInt64 (st_NumIndexed stats),
      ms_BulkNumUpdated = clampUint64ToInt64 (st_NumUpdated stats),
      ms_BulkNumDeleted = clampUint64ToInt64 (st_NumDeleted stats)\<rparr>"

text \<open>
  The clamp of an unsigned statistic is the largest int64 where it does not fit and the
  value itself where it does: never a negative number, as a plain conversion would give.
\<close>

lemma clamp_is_min: "clampUint64ToInt64 v = min (uint v) (2 ^ 63 - 1)"
proof (cases "uint v < 2 ^ 63")
  case True
  moreover have "- (2 ^ 63) \<le> uint v"
    by (rule order_trans [OF _ uint_ge_0]) simp
  ultimately have "sint v = uint v"
    by (simp add: sint_uint signed_take_bit_int_eq_self_iff)
  moreover from True have "\<not> v > 0x7FFFFFFFFFFFFFFF"
    by (simp add: word_less_def)
  ultimately show ?thesis
    using True by (simp add: clampUint64ToInt64_def)
next
  case False
  then have "v > 0x7FFFFFFFFFFFFFFF"
    by (simp add: word_less_def)
  with False show ?thesis
    by (simp add: clampUint64ToInt64_def)
qed

end
