(* ===== verification/Config.thy ===== *)
theory Config imports Prelude begin

text \<open>
  The configuration of \<open>config.go\<close>, its defaults and files, and the normalisation of the outbox
  section (\<open>normalizeOutboxConfig\<close> of \<open>syncer.go\<close>).  The file system, the YAML decoder and
  \<open>json.Valid\<close> are arguments.
\<close>

definition SoftDeleteModeUpdate :: string where "SoftDeleteModeUpdate = ''update''"
definition SoftDeleteModeDelete :: string where "SoftDeleteModeDelete = ''delete''"

record ESConfig =
  es_Addresses :: "string list"
  es_Username :: string
  es_Password :: string
  es_MaxRetries :: int
  es_RetryOnStatus :: "int list"
  es_RequestTimeout :: duration
  es_CACert :: string
  es_AllowInsecureTLS :: bool

record TableConfig =
  tc_Model :: string
  tc_IndexName :: string
  tc_MappingFile :: string
  tc_BatchSize :: int
  tc_AutoSync :: "bool option"
  tc_SoftDeleteMode :: string
  tc_FullDocUpdate :: bool

record SyncConfig =
  sc_Workers :: int
  sc_FlushBytes :: int
  sc_FlushInterval :: duration
  sc_DefaultBatchSize :: int
  sc_Tables :: "TableConfig list"

record OutboxConfig =
  oc_PollInterval :: duration
  oc_BatchSize :: int
  oc_MaxAttempts :: int
  oc_Lease :: duration

record Config =
  cfg_Elasticsearch :: ESConfig
  cfg_Sync :: SyncConfig
  cfg_Outbox :: OutboxConfig

definition IsAutoSync :: "TableConfig \<Rightarrow> bool" where
  "IsAutoSync tc = (case tc_AutoSync tc of None \<Rightarrow> True | Some b \<Rightarrow> b)"

definition DefaultConfig :: Config where
  "DefaultConfig =
     \<lparr>cfg_Elasticsearch =
        \<lparr>es_Addresses = [''http://localhost:9200''], es_Username = [], es_Password = [],
         es_MaxRetries = 3, es_RetryOnStatus = [502, 503, 504, 429],
         es_RequestTimeout = 5 * Second, es_CACert = [], es_AllowInsecureTLS = False\<rparr>,
      cfg_Sync =
        \<lparr>sc_Workers = 4, sc_FlushBytes = 5242880, sc_FlushInterval = 2 * Second,
         sc_DefaultBatchSize = 1000, sc_Tables = []\<rparr>,
      cfg_Outbox =
        \<lparr>oc_PollInterval = 2 * Second, oc_BatchSize = 100, oc_MaxAttempts = 8,
         oc_Lease = 30 * Second\<rparr>\<rparr>"

definition LoadConfig ::
  "(string \<Rightarrow> go_error + string) \<Rightarrow> (string \<Rightarrow> Config \<Rightarrow> go_error + Config) \<Rightarrow> string
     \<Rightarrow> go_error + Config" where
  "LoadConfig read_file yaml_unmarshal path =
     (case read_file path of
        Inl err \<Rightarrow> Inl (Errorf (''essyncer: read config '' @ path @ '': '') err [])
      | Inr data \<Rightarrow>
          (case yaml_unmarshal data DefaultConfig of
             Inl err \<Rightarrow> Inl (Errorf ''essyncer: parse config: '' err [])
           | Inr cfg \<Rightarrow> Inr cfg))"

definition LoadMappingFromFile ::
  "(string \<Rightarrow> go_error + string) \<Rightarrow> (string \<Rightarrow> bool) \<Rightarrow> string \<Rightarrow> go_error + string" where
  "LoadMappingFromFile read_file json_valid path =
     (case read_file path of
        Inl err \<Rightarrow> Inl (Errorf (''essyncer: read mapping '' @ path @ '': '') err [])
      | Inr data \<Rightarrow>
          if \<not> json_valid data
          then Inl (Err (''essyncer: invalid JSON in mapping '' @ path))
          else Inr data)"

definition normalizeOutboxConfig :: "Config \<Rightarrow> Config" where
  "normalizeOutboxConfig cfg =
     (let o1 = cfg_Outbox cfg;
          o2 = (if oc_PollInterval o1 \<le> 0 then o1\<lparr>oc_PollInterval := 2 * Second\<rparr> else o1);
          o3 = (if oc_BatchSize o2 \<le> 0 then o2\<lparr>oc_BatchSize := 100\<rparr> else o2);
          o4 = (if oc_MaxAttempts o3 \<le> 0 then o3\<lparr>oc_MaxAttempts := 8\<rparr> else o3);
          o5 = (if oc_Lease o4 \<le> 0 then o4\<lparr>oc_Lease := 30 * Second\<rparr> else o4)
      in cfg\<lparr>cfg_Outbox := o5\<rparr>)"

text \<open>What the relay needs of its configuration.\<close>

definition outbox_config_ok :: "OutboxConfig \<Rightarrow> bool" where
  "outbox_config_ok oc \<longleftrightarrow>
     0 < oc_PollInterval oc \<and> 0 < oc_BatchSize oc \<and> 0 < oc_MaxAttempts oc \<and> 0 < oc_Lease oc"

lemma normalize_ok [simp, intro]: "outbox_config_ok (cfg_Outbox (normalizeOutboxConfig cfg))"
  by (simp add: normalizeOutboxConfig_def outbox_config_ok_def Let_def)

lemma normalize_id: "outbox_config_ok (cfg_Outbox cfg) \<Longrightarrow> normalizeOutboxConfig cfg = cfg"
  by (simp add: normalizeOutboxConfig_def outbox_config_ok_def Let_def)

lemma normalize_frame [simp]:
  "cfg_Sync (normalizeOutboxConfig cfg) = cfg_Sync cfg"
  "cfg_Elasticsearch (normalizeOutboxConfig cfg) = cfg_Elasticsearch cfg"
  by (simp_all add: normalizeOutboxConfig_def Let_def)

lemma default_config_ok: "outbox_config_ok (cfg_Outbox DefaultConfig)"
  by (simp add: DefaultConfig_def outbox_config_ok_def)

text \<open>
  A configuration file can only override what the defaults hold: a decoder that leaves the value
  it is given untouched (an empty document) yields the defaults.
\<close>

lemma LoadConfig_empty:
  "read_file path = Inr data \<Longrightarrow> yaml data DefaultConfig = Inr DefaultConfig \<Longrightarrow>
     LoadConfig read_file yaml path = Inr DefaultConfig"
  by (simp add: LoadConfig_def)

lemma LoadMappingFromFile_Inr:
  "LoadMappingFromFile read_file json_valid path = Inr data \<longleftrightarrow>
     read_file path = Inr data \<and> json_valid data"
  by (auto simp: LoadMappingFromFile_def split: sum.splits if_splits)

end
