(* ===== verification/Model.thy ===== *)
theory Model imports Config "HOL-Library.AList" begin

text \<open>
  The model registry of \<open>model.go\<close> and the per-model options of \<open>options.go\<close>.

  The schema of a model is what gorm's \<open>Statement.Parse\<close> returns for it; parsing, the Go type
  behind a prototype and its \<open>TableName\<close> method are the operations of \<open>model_types\<close>.  A
  prototype is known by the name of its type.  The registry is a \<open>sync.Map\<close> from table names to
  entries; the model keeps it as an association list, whose order stands for the order in which
  \<open>Range\<close> happens to visit it.
\<close>

section \<open>Schemas and types\<close>

datatype kind = Kind_String | Kind_Int nat | Kind_Uint nat | Kind_Other string

record Field =
  fd_Name :: string
  fd_DBName :: string
  fd_Kind :: kind
  fd_TypeText :: string

record Schema =
  sch_Table :: string
  sch_PrimaryFields :: "Field list"
  sch_Fields :: "Field list"

text \<open>
  Go types as far as the search for \<open>gorm.DeletedAt\<close> looks at them: the fields of a struct with
  their \<open>Anonymous\<close> flag.  Types that embed a pointer to themselves have no such tree.
\<close>

datatype rtype =
    TDeletedAt
  | TStruct "(bool \<times> rtype) list"
  | TPointer rtype
  | TOther string

fun containsType :: "(bool \<times> rtype) list \<Rightarrow> bool" where
  "containsType [] = False"
| "containsType ((anonymous, t) # fs) =
     (t = TDeletedAt
      \<or> (anonymous \<and> (case t of
           TStruct gs \<Rightarrow> containsType gs
         | TPointer (TStruct gs) \<Rightarrow> containsType gs
         | _ \<Rightarrow> False))
      \<or> containsType fs)"

definition hasSoftDeleteField :: "rtype \<Rightarrow> bool" where
  "hasSoftDeleteField t =
     (case (case t of TPointer u \<Rightarrow> u | _ \<Rightarrow> t) of
        TStruct fs \<Rightarrow> containsType fs
      | _ \<Rightarrow> False)"

record model_types =
  mt_parse :: "string \<Rightarrow> go_error + Schema"
  mt_type :: "string \<Rightarrow> rtype"
  mt_TableName :: "string \<Rightarrow> string option"

section \<open>Entries\<close>

record fullSyncKey =
  fk_columnName :: string
  fk_field :: Field
  fk_unsigned :: bool

text \<open>
  The scan strategy of a model: the two strategies of \<open>fullsync_strategy.go\<close>, or one that the
  application supplies, known by a number.
\<close>

datatype FullSyncScanStrategy =
    UnsupportedScan go_error
  | IntegerPrimaryKeyScan "fullSyncKey option"
  | CustomScan nat

record modelEntry =
  me_modelType :: string
  me_schema :: "Schema option"
  me_tableName :: string
  me_indexName :: string
  me_mapping :: "string option"
  me_optionErr :: "go_error option"
  me_batchSize :: int
  me_autoSync :: bool
  me_softDeleteMode :: string
  me_fullDocUpdate :: bool
  me_hasSoftDelete :: bool
  me_fullSyncScan :: "FullSyncScanStrategy option"

type_synonym modelRegistry = "(string \<times> modelEntry) list"

definition newModelRegistry :: modelRegistry where
  "newModelRegistry = []"

text \<open>\<open>cmp.Or\<close> on strings: the first that is not empty.\<close>

definition cmp_Or :: "string \<Rightarrow> string \<Rightarrow> string" where
  "cmp_Or a b = (if a \<noteq> [] then a else b)"

definition newFullSyncKey :: "Schema \<Rightarrow> go_error + fullSyncKey" where
  "newFullSyncKey s =
     (case sch_PrimaryFields s of
        [field] \<Rightarrow>
          (case fd_Kind field of
             Kind_Int _ \<Rightarrow>
               Inr \<lparr>fk_columnName = cmp_Or (fd_DBName field) (fd_Name field), fk_field = field,
                    fk_unsigned = False\<rparr>
           | Kind_Uint _ \<Rightarrow>
               Inr \<lparr>fk_columnName = cmp_Or (fd_DBName field) (fd_Name field), fk_field = field,
                    fk_unsigned = True\<rparr>
           | _ \<Rightarrow>
               Inl (Err (''requires exactly one integer primary key, got '' @ fd_Name field
                         @ '' ('' @ fd_TypeText field @ '')'')))
      | fs \<Rightarrow>
          Inl (Err (''requires exactly one integer primary key, got ''
                    @ show_int (int (length fs)) @ '' primary key fields'')))"

definition newDefaultFullSyncScanStrategy :: "Schema \<Rightarrow> FullSyncScanStrategy" where
  "newDefaultFullSyncScanStrategy s =
     (case newFullSyncKey s of
        Inl err \<Rightarrow> UnsupportedScan err
      | Inr key \<Rightarrow> IntegerPrimaryKeyScan (Some key))"

definition newManagedIndexName :: "modelEntry \<Rightarrow> string \<Rightarrow> time \<Rightarrow> string" where
  "newManagedIndexName e kind now =
     me_indexName e @ ''__'' @ kind @ ''__'' @ show_int (wrap64 now)"

section \<open>Registering\<close>

type_synonym RegisterOption = "modelEntry \<Rightarrow> modelEntry"

definition register ::
  "model_types \<Rightarrow> string \<Rightarrow> int \<Rightarrow> RegisterOption list \<Rightarrow> modelRegistry
     \<Rightarrow> go_error option \<times> modelRegistry" where
  "register mt model defaultBatchSize opts r =
     (case mt_parse mt model of
        Inl err \<Rightarrow> (Some (Errorf ''essyncer: parse model: '' err []), r)
      | Inr sch \<Rightarrow>
          let tableName = sch_Table sch;
              entry =
                \<lparr>me_modelType = model, me_schema = Some sch, me_tableName = tableName,
                 me_indexName = tableName, me_mapping = None, me_optionErr = None,
                 me_batchSize = defaultBatchSize, me_autoSync = True,
                 me_softDeleteMode = SoftDeleteModeUpdate, me_fullDocUpdate = False,
                 me_hasSoftDelete = hasSoftDeleteField (mt_type mt model),
                 me_fullSyncScan = Some (newDefaultFullSyncScanStrategy sch)\<rparr>;
              entry = fold (\<lambda>opt e. opt e) opts entry
          in (case me_optionErr entry of
                Some err \<Rightarrow> (Some (Errorf (''essyncer: register '' @ tableName @ '': '') err []), r)
              | None \<Rightarrow> (None, AList.update tableName entry r)))"

definition unregister :: "model_types \<Rightarrow> string \<Rightarrow> modelRegistry \<Rightarrow> modelRegistry" where
  "unregister mt model r =
     (case mt_parse mt model of Inl _ \<Rightarrow> r | Inr sch \<Rightarrow> AList.delete (sch_Table sch) r)"

definition registry_get :: "modelRegistry \<Rightarrow> string \<Rightarrow> modelEntry option" where
  "registry_get r tableName = map_of r tableName"

definition getByModel :: "model_types \<Rightarrow> modelRegistry \<Rightarrow> string \<Rightarrow> modelEntry option" where
  "getByModel mt r model =
     (case mt_parse mt model of Inl _ \<Rightarrow> None | Inr sch \<Rightarrow> registry_get r (sch_Table sch))"

definition allEntries :: "modelRegistry \<Rightarrow> modelEntry list" where
  "allEntries r = map snd r"

text \<open>The callback sees every entry, until it returns false; it works on a state of its own.\<close>

fun forEach :: "(string \<Rightarrow> modelEntry \<Rightarrow> 'a \<Rightarrow> bool \<times> 'a) \<Rightarrow> modelRegistry \<Rightarrow> 'a \<Rightarrow> 'a" where
  "forEach fn [] x = x"
| "forEach fn ((tableName, entry) # r) x =
     (let (go_on, x) = fn tableName entry x in if go_on then forEach fn r x else x)"

definition getTableName :: "model_types \<Rightarrow> string \<Rightarrow> string" where
  "getTableName mt model =
     (case mt_TableName mt model of
        Some t \<Rightarrow> t
      | None \<Rightarrow> (case mt_parse mt model of Inl _ \<Rightarrow> [] | Inr sch \<Rightarrow> sch_Table sch))"

definition not_registered :: "model_types \<Rightarrow> string \<Rightarrow> go_error" where
  "not_registered mt model = Err (''essyncer: model '' @ getTableName mt model @ '' not registered'')"

definition setAutoSyncAll :: "bool \<Rightarrow> modelRegistry \<Rightarrow> modelRegistry" where
  "setAutoSyncAll enabled r = map (\<lambda>(t, e). (t, e\<lparr>me_autoSync := enabled\<rparr>)) r"

text \<open>
  The entry that \<open>getByModel\<close> finds is a pointer into the registry, so setting its flag changes
  the registered entry; models before the first unknown one keep their new flag.
\<close>

fun setAutoSyncForModels ::
  "model_types \<Rightarrow> bool \<Rightarrow> string list \<Rightarrow> modelRegistry \<Rightarrow> go_error option \<times> modelRegistry" where
  "setAutoSyncForModels mt enabled [] r = (None, r)"
| "setAutoSyncForModels mt enabled (model # models) r =
     (case mt_parse mt model of
        Inl _ \<Rightarrow> (Some (not_registered mt model), r)
      | Inr sch \<Rightarrow>
          (case registry_get r (sch_Table sch) of
             None \<Rightarrow> (Some (not_registered mt model), r)
           | Some entry \<Rightarrow>
               setAutoSyncForModels mt enabled models
                 (AList.update (sch_Table sch) (entry\<lparr>me_autoSync := enabled\<rparr>) r)))"

fun entriesForModels_loop ::
  "model_types \<Rightarrow> modelRegistry \<Rightarrow> string list \<Rightarrow> string list \<Rightarrow> modelEntry list
     \<Rightarrow> go_error + modelEntry list" where
  "entriesForModels_loop mt r [] seen entries = Inr entries"
| "entriesForModels_loop mt r (model # models) seen entries =
     (case getByModel mt r model of
        None \<Rightarrow> Inl (not_registered mt model)
      | Some entry \<Rightarrow>
          if me_tableName entry \<in> set seen
          then entriesForModels_loop mt r models seen entries
          else entriesForModels_loop mt r models (me_tableName entry # seen) (entries @ [entry]))"

definition entriesForModels ::
  "model_types \<Rightarrow> modelRegistry \<Rightarrow> string list \<Rightarrow> go_error + modelEntry list" where
  "entriesForModels mt r models =
     (if models = [] then Inr (allEntries r) else entriesForModels_loop mt r models [] [])"

section \<open>Options of a registration\<close>

definition setOptionError :: "go_error option \<Rightarrow> modelEntry \<Rightarrow> modelEntry" where
  "setOptionError err e =
     (if err = None \<or> me_optionErr e \<noteq> None then e else e\<lparr>me_optionErr := err\<rparr>)"

definition WithIndexName :: "string \<Rightarrow> RegisterOption" where
  "WithIndexName name e = e\<lparr>me_indexName := name\<rparr>"

definition WithMapping :: "string option \<Rightarrow> RegisterOption" where
  "WithMapping m e = e\<lparr>me_mapping := m\<rparr>"

definition WithBatchSize :: "int \<Rightarrow> RegisterOption" where
  "WithBatchSize sz e = (if sz > 0 then e\<lparr>me_batchSize := sz\<rparr> else e)"

definition WithAutoSync :: "bool \<Rightarrow> RegisterOption" where
  "WithAutoSync enabled e = e\<lparr>me_autoSync := enabled\<rparr>"

definition WithSoftDeleteMode :: "string \<Rightarrow> RegisterOption" where
  "WithSoftDeleteMode mode e = e\<lparr>me_softDeleteMode := mode\<rparr>"

definition WithFullDocUpdate :: "bool \<Rightarrow> RegisterOption" where
  "WithFullDocUpdate enabled e = e\<lparr>me_fullDocUpdate := enabled\<rparr>"

definition WithFullSyncScanStrategy :: "FullSyncScanStrategy option \<Rightarrow> RegisterOption" where
  "WithFullSyncScanStrategy strategy e =
     (if strategy \<noteq> None then e\<lparr>me_fullSyncScan := strategy\<rparr> else e)"

text \<open>The argument is the outcome of \<open>json.Marshal\<close> on the map.\<close>

definition WithMappingMap :: "go_error + string \<Rightarrow> RegisterOption" where
  "WithMappingMap marshalled e =
     (case marshalled of
        Inl err \<Rightarrow> setOptionError (Some err) e
      | Inr data \<Rightarrow> e\<lparr>me_mapping := Some data\<rparr>)"

definition WithMappingFile ::
  "(string \<Rightarrow> go_error + string) \<Rightarrow> (string \<Rightarrow> bool) \<Rightarrow> string \<Rightarrow> RegisterOption" where
  "WithMappingFile read_file json_valid path e =
     (case LoadMappingFromFile read_file json_valid path of
        Inl err \<Rightarrow> setOptionError (Some err) e
      | Inr data \<Rightarrow> e\<lparr>me_mapping := Some data\<rparr>)"

section \<open>The registry as a map from table names\<close>

text \<open>Every key is the table of its entry, and there is one entry for each table.\<close>

definition registry_ok :: "modelRegistry \<Rightarrow> bool" where
  "registry_ok r \<longleftrightarrow> distinct (map fst r) \<and> (\<forall>(t, e) \<in> set r. me_tableName e = t)"

text \<open>What every option of the package leaves alone.\<close>

definition keeps_table :: "RegisterOption \<Rightarrow> bool" where
  "keeps_table opt \<longleftrightarrow> (\<forall>e. me_tableName (opt e) = me_tableName e)"

lemma options_keep_table [simp]:
  "keeps_table (WithIndexName n)" "keeps_table (WithMapping m)" "keeps_table (WithBatchSize b)"
  "keeps_table (WithAutoSync a)" "keeps_table (WithSoftDeleteMode d)"
  "keeps_table (WithFullDocUpdate f)" "keeps_table (WithFullSyncScanStrategy s)"
  "keeps_table (WithMappingMap mm)" "keeps_table (WithMappingFile rf jv p)"
  by (auto simp: keeps_table_def WithIndexName_def WithMapping_def WithBatchSize_def
      WithAutoSync_def WithSoftDeleteMode_def WithFullDocUpdate_def WithFullSyncScanStrategy_def
      WithMappingMap_def WithMappingFile_def setOptionError_def split: sum.splits)

lemma fold_keeps_table:
  "\<forall>opt \<in> set opts. keeps_table opt \<Longrightarrow>
     me_tableName (fold (\<lambda>opt e. opt e) opts e) = me_tableName e"
  by (induction opts arbitrary: e) (auto simp: keeps_table_def)

lemma registry_ok_update:
  "registry_ok r \<Longrightarrow> me_tableName e = t \<Longrightarrow> registry_ok (AList.update t e r)"
proof -
  assume r: "registry_ok r" and e: "me_tableName e = t"
  have "set (AList.update t e r) \<subseteq> insert (t, e) (set r)"
    by (induction r) auto
  with r e show "registry_ok (AList.update t e r)"
    by (auto simp: registry_ok_def distinct_update)
qed

lemma registry_ok_get: "registry_ok r \<Longrightarrow> registry_get r t = Some e \<Longrightarrow> me_tableName e = t"
  by (auto simp: registry_ok_def registry_get_def dest: map_of_SomeD)

lemma registry_ok_register:
  assumes "registry_ok r" "\<forall>opt \<in> set opts. keeps_table opt"
  shows "registry_ok (snd (register mt model b opts r))"
  using assms
  by (auto simp: register_def Let_def fold_keeps_table registry_ok_update
      split: sum.splits option.splits)

lemma registry_ok_unregister: "registry_ok r \<Longrightarrow> registry_ok (unregister mt model r)"
  by (auto simp: unregister_def registry_ok_def AList.delete_eq distinct_map_filter split: sum.splits)

lemma registry_ok_setAutoSyncAll: "registry_ok r \<Longrightarrow> registry_ok (setAutoSyncAll b r)"
  by (force simp: registry_ok_def setAutoSyncAll_def split_def comp_def)

lemma registry_ok_setAutoSyncForModels:
  "registry_ok r \<Longrightarrow> registry_ok (snd (setAutoSyncForModels mt b models r))"
proof (induction models arbitrary: r)
  case Nil
  then show ?case by simp
next
  case (Cons model models)
  have "registry_ok (AList.update t (e\<lparr>me_autoSync := b\<rparr>) r)" if "registry_get r t = Some e" for t e
    using Cons.prems that by (simp add: registry_ok_update registry_ok_get)
  with Cons show ?case by (simp split: sum.splits option.splits)
qed

lemma registry_get_update:
  "registry_get (AList.update t e r) t' = (if t' = t then Some e else registry_get r t')"
  by (simp add: registry_get_def update_conv')

lemma registry_get_setAutoSyncAll:
  "registry_get (setAutoSyncAll b r) t = map_option (\<lambda>e. e\<lparr>me_autoSync := b\<rparr>) (registry_get r t)"
  by (induction r) (auto simp: registry_get_def setAutoSyncAll_def)

text \<open>Registering makes the model's entry the one found for its table and no other.\<close>

lemma register_get:
  assumes "mt_parse mt model = Inr sch" "register mt model b opts r = (None, r')"
  shows "\<exists>e. registry_get r' (sch_Table sch) = Some e
     \<and> (\<forall>t. t \<noteq> sch_Table sch \<longrightarrow> registry_get r' t = registry_get r t)"
  using assms by (auto simp: register_def Let_def registry_get_update split: option.splits)

text \<open>A failed registration leaves the registry as it was.\<close>

lemma register_error: "register mt model b opts r = (Some err, r') \<Longrightarrow> r' = r"
  by (auto simp: register_def Let_def split: sum.splits option.splits)

text \<open>The first option error wins.\<close>

lemma setOptionError_first:
  "me_optionErr e = Some err \<Longrightarrow> setOptionError (Some err') e = e"
  by (simp add: setOptionError_def)

section \<open>The models of a scope\<close>

lemma getByModel_table:
  "registry_ok r \<Longrightarrow> getByModel mt r model = Some e \<Longrightarrow>
     registry_get r (me_tableName e) = Some e"
  by (auto simp: getByModel_def registry_ok_get split: sum.splits)

lemma entriesForModels_loop_Inr:
  assumes "entriesForModels_loop mt r models seen entries = Inr es" "registry_ok r"
    "set seen = me_tableName ` set entries" "distinct (map me_tableName entries)"
    "\<forall>e \<in> set entries. registry_get r (me_tableName e) = Some e"
  shows "distinct (map me_tableName es)
     \<and> (\<forall>e \<in> set es. registry_get r (me_tableName e) = Some e)
     \<and> set es = set entries \<union> {e. \<exists>m \<in> set models. getByModel mt r m = Some e}"
  using assms
proof (induction models arbitrary: seen entries)
  case Nil
  then show ?case by simp
next
  case (Cons model models)
  from Cons.prems obtain e where e: "getByModel mt r model = Some e"
    by (auto split: option.splits)
  with Cons.prems(2) have reg: "registry_get r (me_tableName e) = Some e"
    by (rule getByModel_table)
  show ?case
  proof (cases "me_tableName e \<in> set seen")
    case True
    then obtain e' where e': "e' \<in> set entries" "me_tableName e' = me_tableName e"
      using Cons.prems(3) by auto
    with reg Cons.prems(5) have mem: "e \<in> set entries" by (metis option.inject)
    have "entriesForModels_loop mt r models seen entries = Inr es"
      using True e Cons.prems(1) by simp
    then have "distinct (map me_tableName es)
       \<and> (\<forall>x \<in> set es. registry_get r (me_tableName x) = Some x)
       \<and> set es = set entries \<union> {x. \<exists>m \<in> set models. getByModel mt r m = Some x}"
      using Cons.IH Cons.prems(2-5) by blast
    with e mem show ?thesis by auto
  next
    case False
    with e Cons.prems(1)
    have "entriesForModels_loop mt r models (me_tableName e # seen) (entries @ [e]) = Inr es"
      by simp
    moreover have "set (me_tableName e # seen) = me_tableName ` set (entries @ [e])"
      using Cons.prems(3) by simp
    moreover have "distinct (map me_tableName (entries @ [e]))"
      using Cons.prems(3,4) False by simp
    moreover have "\<forall>x \<in> set (entries @ [e]). registry_get r (me_tableName x) = Some x"
      using Cons.prems(5) reg by simp
    ultimately have "distinct (map me_tableName es)
       \<and> (\<forall>x \<in> set es. registry_get r (me_tableName x) = Some x)
       \<and> set es = set (entries @ [e]) \<union> {x. \<exists>m \<in> set models. getByModel mt r m = Some x}"
      using Cons.IH Cons.prems(2) by blast
    with e show ?thesis by auto
  qed
qed

lemma entriesForModels_loop_Inl:
  "entriesForModels_loop mt r models seen entries = Inl err \<Longrightarrow>
     \<exists>m \<in> set models. getByModel mt r m = None \<and> err = not_registered mt m"
  by (induction mt r models seen entries rule: entriesForModels_loop.induct)
    (auto split: option.splits if_splits)

lemma registry_get_set:
  "registry_ok r \<Longrightarrow> registry_get r t = Some e \<longleftrightarrow> (t, e) \<in> set r"
  by (auto simp: registry_ok_def registry_get_def)

lemma allEntries_ok:
  assumes "registry_ok r"
  shows "distinct (map me_tableName (allEntries r))"
    and "e \<in> set (allEntries r) \<longleftrightarrow> registry_get r (me_tableName e) = Some e"
proof -
  have "map me_tableName (allEntries r) = map fst r"
    using assms by (auto simp: registry_ok_def allEntries_def)
  then show "distinct (map me_tableName (allEntries r))"
    using assms by (simp add: registry_ok_def)
  show "e \<in> set (allEntries r) \<longleftrightarrow> registry_get r (me_tableName e) = Some e"
    using assms by (force simp: registry_get_set allEntries_def registry_ok_def)
qed

text \<open>
  The models of a full sync or a reconcile: without arguments every registered entry, with
  arguments exactly the entries of the given models; in both cases each table once, however often
  a model is named, and every entry is the registered one.
\<close>

lemma entriesForModels_scope:
  assumes "registry_ok r" "entriesForModels mt r models = Inr es"
  shows "distinct (map me_tableName es)
     \<and> (\<forall>e \<in> set es. registry_get r (me_tableName e) = Some e)
     \<and> (models \<noteq> [] \<longrightarrow> set es = {e. \<exists>m \<in> set models. getByModel mt r m = Some e})
     \<and> (models = [] \<longrightarrow> set es = {e. registry_get r (me_tableName e) = Some e})"
  using assms allEntries_ok [OF assms(1)]
    entriesForModels_loop_Inr [of mt r models "[]" "[]" es]
  by (auto simp: entriesForModels_def split: if_splits)

text \<open>Every model of this parser is a table of its own name without keys.\<close>

definition plain_types :: model_types where
  "plain_types =
     \<lparr>mt_parse = (\<lambda>m. Inr \<lparr>sch_Table = m, sch_PrimaryFields = [], sch_Fields = []\<rparr>),
      mt_type = TOther, mt_TableName = (\<lambda>m. None)\<rparr>"

lemma entriesForModels_scope_witness:
  "\<exists>es. entriesForModels plain_types (snd (register plain_types ''t'' 10 [] [])) [''t'', ''t''] = Inr es
     \<and> distinct (map me_tableName es)"
proof -
  let ?r = "snd (register plain_types ''t'' 10 [] newModelRegistry)"
  have "registry_ok newModelRegistry" by (simp add: registry_ok_def newModelRegistry_def)
  then have r: "registry_ok ?r" by (rule registry_ok_register) simp
  have "\<not> isl (entriesForModels plain_types ?r [''t'', ''t''])" by code_simp
  then obtain es where es: "entriesForModels plain_types ?r [''t'', ''t''] = Inr es"
    by (metis sum.collapse(2))
  from entriesForModels_scope [OF r es] es show ?thesis by (auto simp: newModelRegistry_def)
qed

end
