(* ===== verification/SyncerState.thy ===== *)
theory SyncerState imports Failures Metrics Model begin

text \<open>
  The state of a \<open>Syncer\<close> (\<open>syncer.go\<close>), its options (\<open>options.go\<close>) and its observability:
  \<open>recordFailure\<close>, \<open>RecentFailures\<close>, \<open>recordUnidentifiedRows\<close> (\<open>failures.go\<close>) and
  \<open>GetMetrics\<close>.

  The clients and goroutine handles of the struct are known by whether they are there; the logger
  is pure output and left out.  A failure hook is application code: the model keeps the events
  that it is called with.  \<open>runtime\<close> holds what the process asks of Go's runtime: the clock and
  the state of a context.
\<close>

record 'w runtime =
  rt_now :: "'w \<Rightarrow> time \<times> 'w"
  rt_ctx_err :: "go_ctx \<Rightarrow> 'w \<Rightarrow> go_error option"

record Syncer =
  sy_cfg :: Config
  sy_db :: bool
  sy_outbox :: bool
  sy_indexer :: bool
  sy_registry :: modelRegistry
  sy_metrics :: Metrics
  sy_failures :: "failureRecorder option"
  sy_failureHook :: bool
  sy_hookCalls :: "FailureEvent list"
  sy_failureBufferSize :: int
  sy_stopped :: bool
  sy_relayCancel :: bool
  sy_relayRunning :: bool
  sy_relayPanic :: "string option"

text \<open>\<open>&Syncer{cfg: cfg, db: db, registry: newModelRegistry()}\<close>\<close>

definition zero_Syncer :: "bool \<Rightarrow> Config \<Rightarrow> Syncer" where
  "zero_Syncer db cfg =
     \<lparr>sy_cfg = cfg, sy_db = db, sy_outbox = False, sy_indexer = False,
      sy_registry = newModelRegistry, sy_metrics = zero_Metrics, sy_failures = None,
      sy_failureHook = False, sy_hookCalls = [], sy_failureBufferSize = 0, sy_stopped = False,
      sy_relayCancel = False, sy_relayRunning = False, sy_relayPanic = None\<rparr>"

section \<open>Observability\<close>

text \<open>\<open>sync.Once\<close>: the recorder is made at most once.\<close>

definition initObservability :: "Syncer \<Rightarrow> Syncer" where
  "initObservability s =
     (case sy_failures s of
        None \<Rightarrow> s\<lparr>sy_failures := Some (newFailureRecorder (sy_failureBufferSize s))\<rparr>
      | Some _ \<Rightarrow> s)"

definition RecentFailures :: "int \<Rightarrow> Syncer \<Rightarrow> FailureEvent list \<times> Syncer" where
  "RecentFailures limit s =
     (let s = initObservability s in (recorder_recent limit (the (sy_failures s)), s))"

definition recordFailure ::
  "('w, 'm) runtime_scheme \<Rightarrow> FailureEvent \<Rightarrow> Syncer \<Rightarrow> 'w \<Rightarrow> Syncer \<times> 'w" where
  "recordFailure env event s w =
     (let (event, w) =
            (if fe_At event = zero_time
             then let (t, w) = rt_now env w in (event\<lparr>fe_At := t\<rparr>, w)
             else (event, w));
          s = initObservability s;
          s = s\<lparr>sy_failures := map_option (recorder_record event) (sy_failures s)\<rparr>;
          s = (if fe_Source event = failureSourceFullSync
               then s\<lparr>sy_metrics := (sy_metrics s)
                        \<lparr>mx_FullSyncErrorsTotal := mx_FullSyncErrorsTotal (sy_metrics s) + 1\<rparr>\<rparr>
               else s);
          s = (if sy_failureHook s then s\<lparr>sy_hookCalls := sy_hookCalls s @ [event]\<rparr> else s)
      in (s, w))"

definition recordUnidentifiedRows ::
  "('w, 'm) runtime_scheme \<Rightarrow> modelEntry \<Rightarrow> string \<Rightarrow> Syncer \<Rightarrow> 'w \<Rightarrow> Syncer \<times> 'w" where
  "recordUnidentifiedRows env entry action s w =
     (let s = s\<lparr>sy_metrics := (sy_metrics s)
                  \<lparr>mx_SyncEventsSkippedUnidentified :=
                     mx_SyncEventsSkippedUnidentified (sy_metrics s) + 1\<rparr>\<rparr>
      in recordFailure env
           (zero_FailureEvent
              \<lparr>fe_Source := failureSourceUnidentified,
               fe_Index := me_indexName entry,
               fe_Action := action,
               fe_Error := ''table '' @ me_tableName entry @ '': bulk '' @ action
                 @ '' without loaded primary keys; the database write succeeded but no ES sync event was produced. ''
                 @ ''Write by primary key, or run FullSyncTable / EnqueueDocumentUpdate for the affected rows.''\<rparr>)
           s w)"

text \<open>
  The statistics of the bulk indexer are an argument: \<open>None\<close> where the syncer has none.
  \<open>UnixMilli\<close> rounds towards minus infinity.
\<close>

definition GetMetrics :: "BulkIndexerStats option \<Rightarrow> Syncer \<Rightarrow> MetricsSnapshot \<times> Syncer" where
  "GetMetrics indexer_stats s =
     (let s = initObservability s;
          stats = (case indexer_stats of None \<Rightarrow> zero_stats | Some st \<Rightarrow> st);
          snapshot = metrics_snapshot (sy_metrics s) stats;
          (lastFailure, hasLastFailure, retained) = recorder_summary (the (sy_failures s));
          snapshot =
            (if hasLastFailure
             then snapshot\<lparr>ms_LastErrorAtUnixMs := fe_At lastFailure div 1000000,
                           ms_LastErrorSource := fe_Source lastFailure,
                           ms_LastErrorIndex := fe_Index lastFailure,
                           ms_LastErrorAction := fe_Action lastFailure,
                           ms_LastErrorDocumentID := fe_DocumentID lastFailure,
                           ms_LastErrorText := fe_Error lastFailure\<rparr>
             else snapshot)
      in (snapshot\<lparr>ms_FailureSamplesRetained := int retained\<rparr>, s))"

section \<open>Options and the outbox store\<close>

type_synonym Option = "Syncer \<Rightarrow> Syncer"

definition WithFailureHook :: "bool \<Rightarrow> Option" where
  "WithFailureHook fn s = s\<lparr>sy_failureHook := fn\<rparr>"

definition WithFailureBufferSize :: "int \<Rightarrow> Option" where
  "WithFailureBufferSize n s = (if n > 0 then s\<lparr>sy_failureBufferSize := n\<rparr> else s)"

definition set_sync :: "(SyncConfig \<Rightarrow> SyncConfig) \<Rightarrow> Option" where
  "set_sync f s = s\<lparr>sy_cfg := (sy_cfg s)\<lparr>cfg_Sync := f (cfg_Sync (sy_cfg s))\<rparr>\<rparr>"

definition set_outbox :: "(OutboxConfig \<Rightarrow> OutboxConfig) \<Rightarrow> Option" where
  "set_outbox f s = s\<lparr>sy_cfg := (sy_cfg s)\<lparr>cfg_Outbox := f (cfg_Outbox (sy_cfg s))\<rparr>\<rparr>"

definition WithWorkers :: "int \<Rightarrow> Option" where
  "WithWorkers n s = (if n > 0 then set_sync (\<lambda>c. c\<lparr>sc_Workers := n\<rparr>) s else s)"

definition WithFlushBytes :: "int \<Rightarrow> Option" where
  "WithFlushBytes bytes s = (if bytes > 0 then set_sync (\<lambda>c. c\<lparr>sc_FlushBytes := bytes\<rparr>) s else s)"

definition WithFlushInterval :: "duration \<Rightarrow> Option" where
  "WithFlushInterval d s = (if d > 0 then set_sync (\<lambda>c. c\<lparr>sc_FlushInterval := d\<rparr>) s else s)"

definition WithDefaultBatchSize :: "int \<Rightarrow> Option" where
  "WithDefaultBatchSize sz s =
     (if sz > 0 then set_sync (\<lambda>c. c\<lparr>sc_DefaultBatchSize := sz\<rparr>) s else s)"

definition WithOutboxPollInterval :: "duration \<Rightarrow> Option" where
  "WithOutboxPollInterval d s =
     (if d > 0 then set_outbox (\<lambda>c. c\<lparr>oc_PollInterval := d\<rparr>) s else s)"

definition WithOutboxBatchSize :: "int \<Rightarrow> Option" where
  "WithOutboxBatchSize sz s =
     (if sz > 0 then set_outbox (\<lambda>c. c\<lparr>oc_BatchSize := sz\<rparr>) s else s)"

definition WithOutboxMaxAttempts :: "int \<Rightarrow> Option" where
  "WithOutboxMaxAttempts maxAttempts s =
     (if maxAttempts > 0 then set_outbox (\<lambda>c. c\<lparr>oc_MaxAttempts := maxAttempts\<rparr>) s else s)"

definition WithOutboxLease :: "duration \<Rightarrow> Option" where
  "WithOutboxLease d s = (if d > 0 then set_outbox (\<lambda>c. c\<lparr>oc_Lease := d\<rparr>) s else s)"

definition ensureOutboxStore :: "Syncer \<Rightarrow> go_error option \<times> Syncer" where
  "ensureOutboxStore s =
     (if sy_outbox s then (None, s)
      else if \<not> sy_db s then (Some (Err ''essyncer: nil db''), s)
      else (None, s\<lparr>sy_outbox := True\<rparr>))"

section \<open>Facts\<close>

text \<open>The recorder of a syncer, made if it is not there yet.\<close>

definition recorder_of :: "Syncer \<Rightarrow> failureRecorder" where
  "recorder_of s = the (sy_failures (initObservability s))"

definition failures_ok :: "Syncer \<Rightarrow> bool" where
  "failures_ok s \<longleftrightarrow> recorder_ok (recorder_of s)"

lemma failures_ok_zero [simp]: "failures_ok (zero_Syncer db cfg)"
  by (simp add: failures_ok_def recorder_of_def initObservability_def zero_Syncer_def)

lemma initObservability_idem [simp]: "initObservability (initObservability s) = initObservability s"
  by (simp add: initObservability_def split: option.splits)

lemma initObservability_Some [simp]: "\<exists>r. sy_failures (initObservability s) = Some r"
  by (simp add: initObservability_def split: option.splits)

lemma initObservability_frame [simp]:
  "sy_cfg (initObservability s) = sy_cfg s"
  "sy_db (initObservability s) = sy_db s"
  "sy_outbox (initObservability s) = sy_outbox s"
  "sy_indexer (initObservability s) = sy_indexer s"
  "sy_registry (initObservability s) = sy_registry s"
  "sy_metrics (initObservability s) = sy_metrics s"
  "sy_failureHook (initObservability s) = sy_failureHook s"
  "sy_hookCalls (initObservability s) = sy_hookCalls s"
  "sy_failureBufferSize (initObservability s) = sy_failureBufferSize s"
  "sy_stopped (initObservability s) = sy_stopped s"
  "sy_relayCancel (initObservability s) = sy_relayCancel s"
  "sy_relayRunning (initObservability s) = sy_relayRunning s"
  "sy_relayPanic (initObservability s) = sy_relayPanic s"
  by (simp_all add: initObservability_def split: option.splits)

text \<open>The event as it is recorded: stamped with the clock where it has no time of its own.\<close>

definition stamped :: "('w, 'm) runtime_scheme \<Rightarrow> FailureEvent \<Rightarrow> 'w \<Rightarrow> FailureEvent" where
  "stamped env event w =
     (if fe_At event = zero_time then event\<lparr>fe_At := fst (rt_now env w)\<rparr> else event)"

lemma recordFailure_recorder:
  "recorder_of (fst (recordFailure env event s w)) =
     recorder_record (stamped env event w) (recorder_of s)"
proof -
  obtain r where r: "sy_failures (initObservability s) = Some r"
    using initObservability_Some by blast
  then show ?thesis
    by (simp add: recordFailure_def recorder_of_def stamped_def Let_def split_def
        initObservability_def [of "_ :: Syncer"] split: option.splits)
qed

lemma recordFailure_frame [simp]:
  "sy_cfg (fst (recordFailure env event s w)) = sy_cfg s"
  "sy_db (fst (recordFailure env event s w)) = sy_db s"
  "sy_outbox (fst (recordFailure env event s w)) = sy_outbox s"
  "sy_indexer (fst (recordFailure env event s w)) = sy_indexer s"
  "sy_registry (fst (recordFailure env event s w)) = sy_registry s"
  "sy_failureHook (fst (recordFailure env event s w)) = sy_failureHook s"
  "sy_stopped (fst (recordFailure env event s w)) = sy_stopped s"
  "sy_relayCancel (fst (recordFailure env event s w)) = sy_relayCancel s"
  "sy_relayRunning (fst (recordFailure env event s w)) = sy_relayRunning s"
  "sy_relayPanic (fst (recordFailure env event s w)) = sy_relayPanic s"
  by (simp_all add: recordFailure_def Let_def split_def)

lemma recordFailure_metrics:
  "sy_metrics (fst (recordFailure env event s w)) =
     (if fe_Source event = failureSourceFullSync
      then (sy_metrics s)\<lparr>mx_FullSyncErrorsTotal := mx_FullSyncErrorsTotal (sy_metrics s) + 1\<rparr>
      else sy_metrics s)"
  by (simp add: recordFailure_def Let_def split_def)

lemma recordFailure_hook:
  "sy_hookCalls (fst (recordFailure env event s w)) =
     (if sy_failureHook s then sy_hookCalls s @ [stamped env event w] else sy_hookCalls s)"
  by (simp add: recordFailure_def stamped_def Let_def split_def)

lemma recordFailure_world:
  "snd (recordFailure env event s w) = (if fe_At event = zero_time then snd (rt_now env w) else w)"
  by (simp add: recordFailure_def Let_def split_def)

lemma recordFailure_ok: "failures_ok s \<Longrightarrow> failures_ok (fst (recordFailure env event s w))"
  by (simp add: failures_ok_def recordFailure_recorder ring.ok_put)

lemma recordFailure_kept:
  "failures_ok s \<Longrightarrow>
     recorder_kept (recorder_of (fst (recordFailure env event s w))) =
       take (recorder_capacity (recorder_of s)) (stamped env event w # recorder_kept (recorder_of s))"
  by (simp add: failures_ok_def recordFailure_recorder ring.kept_put)

lemmas recordFailure_facts =
  recordFailure_recorder recordFailure_metrics recordFailure_hook recordFailure_world

end
