(* ===== verification/OutboxTable.thy ===== *)
theory OutboxTable imports SyncerState begin

text \<open>
  The row of the outbox (\<open>outbox_model.go\<close>) and the database as the source uses it.

  The database, gorm, the JSON encoder and the random source are not part of the repository: a
  world \<open>'w\<close> and the operations of \<open>outbox_db\<close> on it are arguments of every definition that
  uses them.  A \<open>WHERE\<close> clause is a predicate on rows and the column map of \<open>Updates\<close> is a
  function on rows, both written out in the component that issues the statement.  The locale
  \<open>outbox_table\<close> states what the statements are documented to do, in terms of the rows that a
  world's table holds.
\<close>

section \<open>Rows\<close>

definition OutboxStatusPending :: string where "OutboxStatusPending = ''pending''"
definition OutboxStatusProcessing :: string where "OutboxStatusProcessing = ''processing''"
definition OutboxStatusSent :: string where "OutboxStatusSent = ''sent''"
definition OutboxStatusDead :: string where "OutboxStatusDead = ''dead''"

lemmas status_defs =
  OutboxStatusPending_def OutboxStatusProcessing_def OutboxStatusSent_def OutboxStatusDead_def

lemma status_distinct [simp]:
  "OutboxStatusPending \<noteq> OutboxStatusProcessing" "OutboxStatusPending \<noteq> OutboxStatusSent"
  "OutboxStatusPending \<noteq> OutboxStatusDead" "OutboxStatusProcessing \<noteq> OutboxStatusPending"
  "OutboxStatusProcessing \<noteq> OutboxStatusSent" "OutboxStatusProcessing \<noteq> OutboxStatusDead"
  "OutboxStatusSent \<noteq> OutboxStatusPending" "OutboxStatusSent \<noteq> OutboxStatusProcessing"
  "OutboxStatusSent \<noteq> OutboxStatusDead" "OutboxStatusDead \<noteq> OutboxStatusPending"
  "OutboxStatusDead \<noteq> OutboxStatusProcessing" "OutboxStatusDead \<noteq> OutboxStatusSent"
  by (simp_all add: status_defs)

definition actionIndex :: string where "actionIndex = ''index''"
definition actionUpdate :: string where "actionUpdate = ''update''"
definition actionDelete :: string where "actionDelete = ''delete''"

lemmas action_defs = actionIndex_def actionUpdate_def actionDelete_def

text \<open>A \<open>*time.Time\<close> column is \<open>None\<close> where it is NULL.\<close>

record OutboxEvent =
  ev_ID :: int
  ev_TableName :: string
  ev_IndexAlias :: string
  ev_DocumentID :: string
  ev_Action :: string
  ev_Payload :: string
  ev_Status :: string
  ev_Attempts :: int
  ev_NextRetryAt :: "time option"
  ev_LastError :: string
  ev_LeasedUntil :: "time option"
  ev_LeaseToken :: string
  ev_CreatedAt :: time
  ev_SentAt :: "time option"

text \<open>The comparison \<open>column <= ?\<close> of SQL: not true where the column is NULL.\<close>

definition sql_le :: "time option \<Rightarrow> time \<Rightarrow> bool" where
  "sql_le column v = (case column of None \<Rightarrow> False | Some t \<Rightarrow> t \<le> v)"

lemma sql_le_simps [simp]: "\<not> sql_le None v" "sql_le (Some t) v \<longleftrightarrow> t \<le> v"
  by (simp_all add: sql_le_def)

lemma sql_le_mono: "sql_le column v \<Longrightarrow> v \<le> v' \<Longrightarrow> sql_le column v'"
  by (cases column) simp_all

section \<open>Values of Go's type any\<close>

text \<open>
  The documents of synchronisation events: model instances (with the Go type and the columns),
  maps, and the scalar values of columns.
\<close>

datatype go_any =
    GoNil
  | GoBool bool
  | GoInt int
  | GoUint int
  | GoString string
  | GoTime time
  | GoMap "(string \<times> go_any) list"
  | GoModel string "(string \<times> go_any) list"
  | GoOther string

section \<open>The database\<close>

datatype db_handle = RootDB | TxDB nat

datatype row_order = IdAsc | IdDesc

record 'w outbox_db = "'w runtime" +
  db_find :: "go_ctx \<Rightarrow> (OutboxEvent \<Rightarrow> bool) \<Rightarrow> row_order \<Rightarrow> int \<Rightarrow> 'w
                \<Rightarrow> (go_error + OutboxEvent list) \<times> 'w"
  db_updates :: "go_ctx \<Rightarrow> (OutboxEvent \<Rightarrow> bool) \<Rightarrow> (OutboxEvent \<Rightarrow> OutboxEvent) \<Rightarrow> 'w
                   \<Rightarrow> (go_error + int) \<times> 'w"
  db_create :: "go_ctx \<Rightarrow> db_handle \<Rightarrow> int \<Rightarrow> OutboxEvent list \<Rightarrow> 'w \<Rightarrow> go_error option \<times> 'w"
  db_delete :: "go_ctx \<Rightarrow> (OutboxEvent \<Rightarrow> bool) \<Rightarrow> 'w \<Rightarrow> (go_error + int) \<times> 'w"
  db_count :: "go_ctx \<Rightarrow> (OutboxEvent \<Rightarrow> bool) \<Rightarrow> 'w \<Rightarrow> (go_error + int) \<times> 'w"
  rt_rand :: "nat \<Rightarrow> 'w \<Rightarrow> 8 word list \<times> 'w"
  json_marshal :: "go_any \<Rightarrow> go_error + string"

section \<open>What the statements do to the rows of the table\<close>

text \<open>
  A time column stores what its precision allows: \<open>cell\<close> is that rounding (\<open>DATETIME\<close>,
  \<open>DATETIME(3)\<close>, \<open>DATETIME(6)\<close>).
\<close>

definition store_row :: "(time \<Rightarrow> time) \<Rightarrow> OutboxEvent \<Rightarrow> OutboxEvent" where
  "store_row cell r =
     r\<lparr>ev_NextRetryAt := map_option cell (ev_NextRetryAt r),
       ev_LeasedUntil := map_option cell (ev_LeasedUntil r),
       ev_CreatedAt := cell (ev_CreatedAt r),
       ev_SentAt := map_option cell (ev_SentAt r)\<rparr>"

lemma store_row_frame [simp]:
  "ev_ID (store_row cell r) = ev_ID r"
  "ev_TableName (store_row cell r) = ev_TableName r"
  "ev_IndexAlias (store_row cell r) = ev_IndexAlias r"
  "ev_DocumentID (store_row cell r) = ev_DocumentID r"
  "ev_Action (store_row cell r) = ev_Action r"
  "ev_Payload (store_row cell r) = ev_Payload r"
  "ev_Status (store_row cell r) = ev_Status r"
  "ev_Attempts (store_row cell r) = ev_Attempts r"
  "ev_LastError (store_row cell r) = ev_LastError r"
  "ev_LeaseToken (store_row cell r) = ev_LeaseToken r"
  by (simp_all add: store_row_def)

lemma store_row_times [simp]:
  "ev_NextRetryAt (store_row cell r) = map_option cell (ev_NextRetryAt r)"
  "ev_LeasedUntil (store_row cell r) = map_option cell (ev_LeasedUntil r)"
  "ev_CreatedAt (store_row cell r) = cell (ev_CreatedAt r)"
  "ev_SentAt (store_row cell r) = map_option cell (ev_SentAt r)"
  by (simp_all add: store_row_def)

definition sql_update ::
  "(time \<Rightarrow> time) \<Rightarrow> (OutboxEvent \<Rightarrow> bool) \<Rightarrow> (OutboxEvent \<Rightarrow> OutboxEvent) \<Rightarrow> OutboxEvent list
     \<Rightarrow> OutboxEvent list" where
  "sql_update cell P f rs = map (\<lambda>r. if P r then store_row cell (f r) else r) rs"

definition sql_select ::
  "(OutboxEvent \<Rightarrow> bool) \<Rightarrow> row_order \<Rightarrow> int \<Rightarrow> OutboxEvent list \<Rightarrow> OutboxEvent list" where
  "sql_select P ord limit rs =
     take (nat limit) ((case ord of IdAsc \<Rightarrow> id | IdDesc \<Rightarrow> rev) (filter P rs))"

text \<open>
  A table lists its rows by ascending primary key, which is unique and positive; its time
  columns hold what the columns can store.
\<close>

definition table_ok :: "(time \<Rightarrow> time) \<Rightarrow> OutboxEvent list \<Rightarrow> bool" where
  "table_ok cell rs \<longleftrightarrow>
     sorted_wrt (<) (map ev_ID rs) \<and> (\<forall>r \<in> set rs. 0 < ev_ID r \<and> store_row cell r = r)"

text \<open>An assignment of columns other than the primary key.\<close>

definition keeps_id :: "(OutboxEvent \<Rightarrow> OutboxEvent) \<Rightarrow> bool" where
  "keeps_id f \<longleftrightarrow> (\<forall>r. ev_ID (f r) = ev_ID r)"

text \<open>
  \<open>RowsAffected\<close> of an UPDATE counts the matched rows on some databases and the rows that
  really changed on others (MySQL without \<open>clientFoundRows\<close>): the law only says that it lies
  between the two.  A single statement is atomic: one that reports an error has either not run
  or, when the connection broke after the commit, has run in full.
\<close>

definition changed_rows ::
  "(time \<Rightarrow> time) \<Rightarrow> (OutboxEvent \<Rightarrow> bool) \<Rightarrow> (OutboxEvent \<Rightarrow> OutboxEvent) \<Rightarrow> OutboxEvent list \<Rightarrow> int"
  where
  "changed_rows cell P f rs = int (length (filter (\<lambda>r. P r \<and> store_row cell (f r) \<noteq> r) rs))"

definition matched_rows :: "(OutboxEvent \<Rightarrow> bool) \<Rightarrow> OutboxEvent list \<Rightarrow> int" where
  "matched_rows P rs = int (length (filter P rs))"

locale outbox_table =
  fixes env :: "('w, 'm) outbox_db_scheme"
    and rows :: "'w \<Rightarrow> OutboxEvent list"
    and cell :: "time \<Rightarrow> time"
  assumes cell_idem: "cell (cell t) = cell t"
    and rows_ok: "table_ok cell (rows w)"
    and now_rows: "rt_now env w = (t, w') \<Longrightarrow> rows w' = rows w"
    and rand_rows: "rt_rand env k w = (bs, w') \<Longrightarrow> rows w' = rows w \<and> length bs = k"
    and find_err: "db_find env ctx P ord lim w = (Inl e, w') \<Longrightarrow> rows w' = rows w"
    and find_ok: "db_find env ctx P ord lim w = (Inr rs, w') \<Longrightarrow> 0 \<le> lim \<Longrightarrow>
      rs = sql_select P ord lim (rows w) \<and> rows w' = rows w"
    and updates_err: "db_updates env ctx P f w = (Inl e, w') \<Longrightarrow> keeps_id f \<Longrightarrow>
      rows w' = rows w \<or> rows w' = sql_update cell P f (rows w)"
    and updates_ok: "db_updates env ctx P f w = (Inr n, w') \<Longrightarrow> keeps_id f \<Longrightarrow>
      rows w' = sql_update cell P f (rows w)
      \<and> changed_rows cell P f (rows w) \<le> n \<and> n \<le> matched_rows P (rows w)"
    and delete_err: "db_delete env ctx P w = (Inl e, w') \<Longrightarrow>
      rows w' = rows w \<or> rows w' = filter (\<lambda>r. \<not> P r) (rows w)"
    and delete_ok: "db_delete env ctx P w = (Inr n, w') \<Longrightarrow>
      rows w' = filter (\<lambda>r. \<not> P r) (rows w) \<and> n = matched_rows P (rows w)"
    and count_rows: "db_count env ctx P w = (res, w') \<Longrightarrow>
      rows w' = rows w \<and> (\<forall>n. res = Inr n \<longrightarrow> n = matched_rows P (rows w))"

section \<open>Lemmas on tables\<close>

lemma table_ok_distinct: "table_ok cell rs \<Longrightarrow> distinct (map ev_ID rs)"
  by (simp add: table_ok_def strict_sorted_iff)

lemma table_ok_unique:
  "table_ok cell rs \<Longrightarrow> r \<in> set rs \<Longrightarrow> r' \<in> set rs \<Longrightarrow> ev_ID r = ev_ID r' \<Longrightarrow> r = r'"
  using distinct_key_unique [OF table_ok_distinct] by blast

lemma store_row_idem:
  "(\<And>t. cell (cell t) = cell t) \<Longrightarrow> store_row cell (store_row cell r) = store_row cell r"
  by (simp add: store_row_def option.map_comp comp_def)

lemma map_ID_sql_update: "keeps_id f \<Longrightarrow> map ev_ID (sql_update cell P f rs) = map ev_ID rs"
  by (simp add: sql_update_def keeps_id_def)

lemma table_ok_update:
  assumes "table_ok cell rs" "keeps_id f" "\<And>t. cell (cell t) = cell t"
  shows "table_ok cell (sql_update cell P f rs)"
proof -
  have "sorted_wrt (<) (map ev_ID (sql_update cell P f rs))"
    using assms(1,2) by (simp only: map_ID_sql_update table_ok_def)
  moreover have "0 < ev_ID r \<and> store_row cell r = r" if "r \<in> set (sql_update cell P f rs)" for r
    using assms that by (auto simp: table_ok_def sql_update_def keeps_id_def store_row_idem)
  ultimately show ?thesis by (simp add: table_ok_def)
qed

lemma table_ok_filter: "table_ok cell rs \<Longrightarrow> table_ok cell (filter P rs)"
  by (induction rs) (auto simp: table_ok_def)

lemma sql_update_none: "(\<And>r. r \<in> set rs \<Longrightarrow> \<not> P r) \<Longrightarrow> sql_update cell P f rs = rs"
  by (induction rs) (auto simp: sql_update_def)

lemma in_sql_update:
  "r' \<in> set (sql_update cell P f rs) \<longleftrightarrow>
     (\<exists>r \<in> set rs. r' = (if P r then store_row cell (f r) else r))"
  by (auto simp: sql_update_def)

text \<open>A statement whose condition names a row by its primary key changes that row only.\<close>

lemma sql_update_id:
  assumes "table_ok cell rs" "r \<in> set rs" "P r" "\<And>x. P x \<Longrightarrow> ev_ID x = ev_ID r"
  shows "sql_update cell P f rs = map (\<lambda>x. if x = r then store_row cell (f r) else x) rs"
proof -
  have "P x \<longleftrightarrow> x = r" if "x \<in> set rs" for x
    using assms(3,4) table_ok_unique [OF assms(1) that assms(2)] by blast
  then show ?thesis by (simp add: sql_update_def)
qed

lemma matched_by_id:
  assumes "table_ok cell rs" "\<And>x. P x \<Longrightarrow> ev_ID x = i"
  shows "matched_rows P rs \<le> 1"
proof -
  have "filter P rs = filter (\<lambda>r. ev_ID r = i \<and> P r) rs"
    using assms(2) by (auto intro: filter_cong)
  then show ?thesis
    using filter_key_at_most_one [OF table_ok_distinct [OF assms(1)], of i P]
    by (simp add: matched_rows_def)
qed

lemma matched_rows_pos: "0 < matched_rows P rs \<longleftrightarrow> (\<exists>r \<in> set rs. P r)"
  by (induction rs) (auto simp: matched_rows_def)

lemma changed_rows_pos:
  "0 < changed_rows cell P f rs \<longleftrightarrow> (\<exists>r \<in> set rs. P r \<and> store_row cell (f r) \<noteq> r)"
  by (induction rs) (auto simp: changed_rows_def)

lemma changed_rows_none: "changed_rows cell P f rs \<le> 0 \<Longrightarrow> sql_update cell P f rs = rs"
  by (induction rs) (auto simp: changed_rows_def sql_update_def split: if_splits)

lemma set_sql_select:
  "r \<in> set (sql_select P ord lim rs) \<Longrightarrow> r \<in> set rs \<and> P r"
  by (cases ord) (auto simp: sql_select_def dest: in_set_takeD)

lemma sorted_sql_select:
  "table_ok cell rs \<Longrightarrow> sorted_wrt (<) (map ev_ID (sql_select P IdAsc lim rs))"
proof -
  assume ok: "table_ok cell rs"
  then have "sorted_wrt (<) (map ev_ID (filter P rs))"
    using table_ok_filter [of cell rs P] by (simp add: table_ok_def)
  then show ?thesis
    by (simp add: sql_select_def take_map [symmetric] sorted_wrt_take)
qed

end
