(* ===== verification/MemWorld.thy ===== *)
theory MemWorld imports OutboxTable begin

text \<open>
  A reference database that keeps the laws of \<open>outbox_table\<close>: the table is a list of rows, its
  time columns have the precision of MySQL's \<open>DATETIME\<close> (whole seconds, rounded half up),
  \<open>RowsAffected\<close> counts changed rows only, and every statement can be made to fail.  The
  operations work in every extension of the world and of the environment, so that the components
  above the store add their own services.  The witnesses of the development run on it.
\<close>

definition datetime_cell :: "time \<Rightarrow> time" where
  "datetime_cell t = (t + 500000000) div 1000000000 * 1000000000"

lemma datetime_cell_idem [simp]: "datetime_cell (datetime_cell t) = datetime_cell t"
  by (simp add: datetime_cell_def)

lemma datetime_cell_close: "t - 500000000 \<le> datetime_cell t" "datetime_cell t \<le> t + 500000000"
  by (simp_all add: datetime_cell_def)

record mem_world =
  mw_table :: "OutboxEvent list"
  mw_now :: time
  mw_rand :: nat
  mw_faults :: "bool list"
  mw_cancelled :: bool

text \<open>A list that is no table (unsorted keys, times of the wrong precision) stands for an empty one.\<close>

definition mem_rows :: "'x mem_world_scheme \<Rightarrow> OutboxEvent list" where
  "mem_rows w = (if table_ok datetime_cell (mw_table w) then mw_table w else [])"

lemma mem_rows_ok [simp]: "table_ok datetime_cell (mem_rows w)"
  by (simp add: mem_rows_def) (simp add: table_ok_def)

lemma mem_rows_set:
  "table_ok datetime_cell rs \<Longrightarrow> mem_rows (w\<lparr>mw_table := rs\<rparr>) = rs"
  by (simp add: mem_rows_def)

lemma mem_rows_frame [simp]:
  "mem_rows (w\<lparr>mw_now := t\<rparr>) = mem_rows w" "mem_rows (w\<lparr>mw_rand := k\<rparr>) = mem_rows w"
  "mem_rows (w\<lparr>mw_faults := bs\<rparr>) = mem_rows w" "mem_rows (w\<lparr>mw_cancelled := b\<rparr>) = mem_rows w"
  by (simp_all add: mem_rows_def)

definition mem_fault :: "'x mem_world_scheme \<Rightarrow> bool \<times> 'x mem_world_scheme" where
  "mem_fault w =
     (case mw_faults w of [] \<Rightarrow> (False, w) | b # bs \<Rightarrow> (b, w\<lparr>mw_faults := bs\<rparr>))"

lemma mem_rows_fault [simp]: "mem_rows (snd (mem_fault w)) = mem_rows w"
  by (simp add: mem_fault_def mem_rows_def split: list.splits)

fun mem_ctx_err :: "go_ctx \<Rightarrow> 'x mem_world_scheme \<Rightarrow> go_error option" where
  "mem_ctx_err (CallerCtx n) w = (if mw_cancelled w then Some ErrCanceled else None)"
| "mem_ctx_err (WithTimeout c d) w = mem_ctx_err c w"
| "mem_ctx_err (WithCancel c) w = mem_ctx_err c w"
| "mem_ctx_err _ w = None"

definition mem_stmt ::
  "go_ctx \<Rightarrow> 'x mem_world_scheme \<Rightarrow> ('x mem_world_scheme \<Rightarrow> 'a \<times> 'x mem_world_scheme)
     \<Rightarrow> (go_error + 'a) \<times> 'x mem_world_scheme" where
  "mem_stmt ctx w run =
     (case mem_ctx_err ctx w of
        Some e \<Rightarrow> (Inl e, w)
      | None \<Rightarrow>
          let (fault, w) = mem_fault w
          in if fault then (Inl (Err ''driver: bad connection''), w)
             else let (a, w) = run w in (Inr a, w))"

definition mem_create_rows :: "time \<Rightarrow> OutboxEvent list \<Rightarrow> OutboxEvent list \<Rightarrow> OutboxEvent list" where
  "mem_create_rows now new rs =
     rs @ map (\<lambda>(i, r). store_row datetime_cell (r\<lparr>ev_ID := i, ev_CreatedAt := now\<rparr>))
            (zip (map (\<lambda>k. (if rs = [] then 0 else ev_ID (last rs)) + 1 + int k) [0..<length new]) new)"

text \<open>An UPDATE cannot touch the primary key here.\<close>

definition keep_id :: "(OutboxEvent \<Rightarrow> OutboxEvent) \<Rightarrow> OutboxEvent \<Rightarrow> OutboxEvent" where
  "keep_id f r = (f r)\<lparr>ev_ID := ev_ID r\<rparr>"

lemma keep_id_id [simp]: "keeps_id f \<Longrightarrow> keep_id f = f"
  by (simp add: keep_id_def keeps_id_def fun_eq_iff)

definition mem_db :: "'m \<Rightarrow> ('x mem_world_scheme, 'm) outbox_db_scheme" where
  "mem_db ext =
     \<lparr>rt_now = (\<lambda>w. (mw_now w, w)),
      rt_ctx_err = mem_ctx_err,
      db_find = (\<lambda>ctx P ord lim w. mem_stmt ctx w (\<lambda>w. (sql_select P ord lim (mem_rows w), w))),
      db_updates = (\<lambda>ctx P f w. mem_stmt ctx w (\<lambda>w.
         (changed_rows datetime_cell P (keep_id f) (mem_rows w),
          w\<lparr>mw_table := sql_update datetime_cell P (keep_id f) (mem_rows w)\<rparr>))),
      db_create = (\<lambda>ctx handle size new w.
         case mem_stmt ctx w (\<lambda>w. ((), w\<lparr>mw_table := mem_create_rows (mw_now w) new (mem_rows w)\<rparr>)) of
           (Inl e, w) \<Rightarrow> (Some e, w) | (Inr _, w) \<Rightarrow> (None, w)),
      db_delete = (\<lambda>ctx P w. mem_stmt ctx w (\<lambda>w.
         (matched_rows P (mem_rows w), w\<lparr>mw_table := filter (\<lambda>r. \<not> P r) (mem_rows w)\<rparr>))),
      db_count = (\<lambda>ctx P w. mem_stmt ctx w (\<lambda>w. (matched_rows P (mem_rows w), w))),
      rt_rand = (\<lambda>k w. (replicate k (of_nat (mw_rand w)), w\<lparr>mw_rand := mw_rand w + 1\<rparr>)),
      json_marshal = (\<lambda>v. Inr ''{}''),
      \<dots> = ext\<rparr>"

lemma mem_stmt_Inl: "mem_stmt ctx w run = (Inl e, w') \<Longrightarrow> mem_rows w' = mem_rows w"
  by (auto simp: mem_stmt_def split_def Let_def split: option.splits if_splits)

lemma mem_stmt_Inr:
  "mem_stmt ctx w run = (Inr a, w') \<Longrightarrow>
     \<exists>w0. mem_rows w0 = mem_rows w \<and> run w0 = (a, w')"
  by (auto simp: mem_stmt_def split_def Let_def prod_eq_iff split: option.splits if_splits
      intro!: exI [of _ "snd (mem_fault w)"])

interpretation mem: outbox_table "mem_db ext" mem_rows datetime_cell
proof
  fix w w' :: "'x mem_world_scheme" and P f ctx e n
  show "db_updates (mem_db ext) ctx P f w = (Inr n, w') \<Longrightarrow> keeps_id f \<Longrightarrow>
      mem_rows w' = sql_update datetime_cell P f (mem_rows w)
      \<and> changed_rows datetime_cell P f (mem_rows w) \<le> n \<and> n \<le> matched_rows P (mem_rows w)"
  proof -
    assume upd: "db_updates (mem_db ext) ctx P f w = (Inr n, w')" and f: "keeps_id f"
    then obtain w0 where w0: "mem_rows w0 = mem_rows w"
      "n = changed_rows datetime_cell P f (mem_rows w0)"
      "w' = w0\<lparr>mw_table := sql_update datetime_cell P f (mem_rows w0)\<rparr>"
      by (auto simp: mem_db_def dest!: mem_stmt_Inr)
    have "changed_rows datetime_cell P f rs \<le> matched_rows P rs" for rs
      by (induction rs) (auto simp: changed_rows_def matched_rows_def)
    with w0 f show ?thesis
      by (simp add: mem_rows_set table_ok_update)
  qed
next
  fix w w' :: "'x mem_world_scheme" and P ctx and res :: "go_error + int"
  assume "db_count (mem_db ext) ctx P w = (res, w')"
  then show "mem_rows w' = mem_rows w \<and> (\<forall>n. res = Inr n \<longrightarrow> n = matched_rows P (mem_rows w))"
    by (cases res) (auto simp: mem_db_def dest!: mem_stmt_Inr mem_stmt_Inl)
qed (auto simp: mem_db_def mem_rows_set table_ok_filter split: prod.splits
      dest!: mem_stmt_Inr mem_stmt_Inl)

section \<open>Sample worlds\<close>

text \<open>A pending row for document \<open>d\<close> of the alias \<open>a\<close>, and a world at the epoch.\<close>

definition sample_row :: "int \<Rightarrow> OutboxEvent" where
  "sample_row i =
     \<lparr>ev_ID = i, ev_TableName = ''t'', ev_IndexAlias = ''a'', ev_DocumentID = ''d'',
      ev_Action = actionIndex, ev_Payload = ''{}'', ev_Status = OutboxStatusPending,
      ev_Attempts = 0, ev_NextRetryAt = None, ev_LastError = [], ev_LeasedUntil = None,
      ev_LeaseToken = [], ev_CreatedAt = 0, ev_SentAt = None\<rparr>"

definition sample_world :: "OutboxEvent list \<Rightarrow> mem_world" where
  "sample_world rs =
     \<lparr>mw_table = rs, mw_now = 0, mw_rand = 7, mw_faults = [], mw_cancelled = False\<rparr>"

end
