(* ===== verification/OutboxStore.thy ===== *)
theory OutboxStore imports MemWorld "HOL-Library.Sublist" begin

text \<open>
  The outbox store of \<open>outbox_store.go\<close>: inserting rows for synchronisation events, claiming
  pending rows under a lease, and writing the outcome of a delivery back under the lease token.
  The lemmas of the context \<open>outbox_table\<close> say what each operation does to the table, for every
  database that keeps the laws.
\<close>

section \<open>Inserting\<close>

record outboxWriteEvent =
  we_TableName :: string
  we_IndexAlias :: string
  we_DocumentID :: string
  we_Action :: string
  we_Doc :: go_any

definition marshalOutboxPayload ::
  "('w, 'm) outbox_db_scheme \<Rightarrow> string \<Rightarrow> go_any \<Rightarrow> go_error + string" where
  "marshalOutboxPayload env action doc =
     (if doc = GoNil then Inr ''{}''
      else if action = actionUpdate
      then (case json_marshal env (GoMap [(''doc'', doc)]) of
              Inl err \<Rightarrow> Inl (Errorf ''marshal update payload: '' err [])
            | Inr payload \<Rightarrow> Inr payload)
      else (case json_marshal env doc of
              Inl err \<Rightarrow> Inl (Errorf ''marshal payload: '' err [])
            | Inr payload \<Rightarrow> Inr payload))"

definition pending_row :: "outboxWriteEvent \<Rightarrow> string \<Rightarrow> OutboxEvent" where
  "pending_row event payload =
     \<lparr>ev_ID = 0,
      ev_TableName = we_TableName event,
      ev_IndexAlias = we_IndexAlias event,
      ev_DocumentID = we_DocumentID event,
      ev_Action = we_Action event,
      ev_Payload = payload,
      ev_Status = OutboxStatusPending,
      ev_Attempts = 0,
      ev_NextRetryAt = None, ev_LastError = [], ev_LeasedUntil = None, ev_LeaseToken = [],
      ev_CreatedAt = zero_time, ev_SentAt = None\<rparr>"

fun outbox_rows ::
  "('w, 'm) outbox_db_scheme \<Rightarrow> outboxWriteEvent list \<Rightarrow> OutboxEvent list
     \<Rightarrow> go_error + OutboxEvent list" where
  "outbox_rows env [] rws = Inr rws"
| "outbox_rows env (event # events) rws =
     (if we_TableName event = [] then Inl (Err ''insert outbox events: empty table name'')
      else if we_IndexAlias event = [] then Inl (Err ''insert outbox events: empty index alias'')
      else if we_DocumentID event = [] then Inl (Err ''insert outbox events: empty document id'')
      else case marshalOutboxPayload env (we_Action event) (we_Doc event) of
             Inl err \<Rightarrow> Inl (Errorf ''insert outbox events: marshal payload: '' err [])
           | Inr payload \<Rightarrow> outbox_rows env events (rws @ [pending_row event payload]))"

definition insertFromEvents ::
  "('w, 'm) outbox_db_scheme \<Rightarrow> go_ctx \<Rightarrow> db_handle option \<Rightarrow> outboxWriteEvent list \<Rightarrow> 'w
     \<Rightarrow> go_error option \<times> 'w" where
  "insertFromEvents env ctx tx events w =
     (if events = [] then (None, w)
      else case tx of
        None \<Rightarrow> (Some (Err ''insert outbox events: nil transaction db''), w)
      | Some handle \<Rightarrow>
          (case outbox_rows env events [] of
             Inl err \<Rightarrow> (Some err, w)
           | Inr rws \<Rightarrow>
               (case db_create env ctx handle 100 rws w of
                  (Some err, w) \<Rightarrow> (Some (Errorf ''insert outbox events: create rows: '' err []), w)
                | (None, w) \<Rightarrow> (None, w))))"

section \<open>Claiming\<close>

text \<open>The condition of both claim statements, on the status, the lease and the retry time.\<close>

definition claimable :: "time \<Rightarrow> OutboxEvent \<Rightarrow> bool" where
  "claimable now r \<longleftrightarrow>
     ((ev_Status r = OutboxStatusPending \<and> (ev_LeasedUntil r = None \<or> sql_le (ev_LeasedUntil r) now))
      \<or> (ev_Status r = OutboxStatusProcessing \<and> sql_le (ev_LeasedUntil r) now))
     \<and> (ev_NextRetryAt r = None \<or> sql_le (ev_NextRetryAt r) now)"

definition claim_set :: "time \<Rightarrow> string \<Rightarrow> OutboxEvent \<Rightarrow> OutboxEvent" where
  "claim_set leaseUntil token r =
     r\<lparr>ev_Status := OutboxStatusProcessing,
       ev_LeasedUntil := Some leaseUntil,
       ev_LeaseToken := token\<rparr>"

definition newLeaseToken :: "('w, 'm) outbox_db_scheme \<Rightarrow> 'w \<Rightarrow> string \<times> 'w" where
  "newLeaseToken env w = (let (buf, w) = rt_rand env 16 w in (hex_encode buf, w))"

definition tryClaimRow ::
  "('w, 'm) outbox_db_scheme \<Rightarrow> go_ctx \<Rightarrow> int \<Rightarrow> time \<Rightarrow> time \<Rightarrow> string \<Rightarrow> 'w
     \<Rightarrow> (go_error + bool) \<times> 'w" where
  "tryClaimRow env ctx i now leaseUntil token w =
     (case db_updates env ctx (\<lambda>r. ev_ID r = i \<and> claimable now r) (claim_set leaseUntil token) w of
        (Inl err, w) \<Rightarrow> (Inl (Errorf ''try claim row: '' err []), w)
      | (Inr rowsAffected, w) \<Rightarrow> (Inr (rowsAffected = 1), w))"

fun claim_loop ::
  "('w, 'm) outbox_db_scheme \<Rightarrow> go_ctx \<Rightarrow> int \<Rightarrow> time \<Rightarrow> time \<Rightarrow> OutboxEvent list
     \<Rightarrow> OutboxEvent list \<Rightarrow> 'w \<Rightarrow> (go_error + OutboxEvent list) \<times> 'w" where
  "claim_loop env ctx batchSize now leaseUntil claimed [] w = (Inr claimed, w)"
| "claim_loop env ctx batchSize now leaseUntil claimed (candidate # candidates) w =
     (if int (length claimed) \<ge> batchSize then (Inr claimed, w)
      else let (token, w) = newLeaseToken env w
           in case tryClaimRow env ctx (ev_ID candidate) now leaseUntil token w of
                (Inl err, w) \<Rightarrow>
                  (Inl (Errorf (''claim pending outbox rows: claim id ''
                                @ show_int (ev_ID candidate) @ '': '') err []), w)
              | (Inr False, w) \<Rightarrow>
                  claim_loop env ctx batchSize now leaseUntil claimed candidates w
              | (Inr True, w) \<Rightarrow>
                  claim_loop env ctx batchSize now leaseUntil
                    (claimed @ [candidate\<lparr>ev_Status := OutboxStatusProcessing,
                                          ev_LeasedUntil := Some leaseUntil,
                                          ev_LeaseToken := token\<rparr>]) candidates w)"

definition candidateLimit :: "int \<Rightarrow> int" where
  "candidateLimit batchSize = max (wrap64 (batchSize * 4)) batchSize"

definition claimPending ::
  "('w, 'm) outbox_db_scheme \<Rightarrow> go_ctx \<Rightarrow> int \<Rightarrow> duration \<Rightarrow> 'w
     \<Rightarrow> (go_error + OutboxEvent list) \<times> 'w" where
  "claimPending env ctx batchSize leaseDuration w =
     (if batchSize \<le> 0 then (Inr [], w)
      else if leaseDuration \<le> 0
      then (Inl (Err ''claim pending outbox rows: invalid lease duration''), w)
      else
        let (now, w) = rt_now env w;
            leaseUntil = now + leaseDuration
        in case db_find env ctx (claimable now) IdAsc (candidateLimit batchSize) w of
             (Inl err, w) \<Rightarrow>
               (Inl (Errorf ''claim pending outbox rows: query candidates: '' err []), w)
           | (Inr candidates, w) \<Rightarrow> claim_loop env ctx batchSize now leaseUntil [] candidates w)"

section \<open>Writing back under the lease\<close>

definition rowLeaseToken :: "OutboxEvent \<Rightarrow> go_error + string" where
  "rowLeaseToken row =
     (if ev_ID row \<le> 0 then Inl (Err ''invalid row id'')
      else if ev_LeaseToken row = [] then Inl (Err ''missing lease token'')
      else Inr (ev_LeaseToken row))"

text \<open>The fencing condition of every write-back.\<close>

definition fenced :: "int \<Rightarrow> string \<Rightarrow> OutboxEvent \<Rightarrow> bool" where
  "fenced i token r \<longleftrightarrow>
     ev_ID r = i \<and> ev_Status r = OutboxStatusProcessing \<and> ev_LeaseToken r = token"

definition updateClaimedRow ::
  "('w, 'm) outbox_db_scheme \<Rightarrow> go_ctx \<Rightarrow> int \<Rightarrow> string \<Rightarrow> (OutboxEvent \<Rightarrow> OutboxEvent) \<Rightarrow> 'w
     \<Rightarrow> go_error option \<times> 'w" where
  "updateClaimedRow env ctx i token updates w =
     (case db_updates env ctx (fenced i token) updates w of
        (Inl err, w) \<Rightarrow> (Some (Errorf ''update claimed row: '' err []), w)
      | (Inr rowsAffected, w) \<Rightarrow>
          if rowsAffected = 0 then (Some (Err ''lease mismatch or row not claimed''), w)
          else (None, w))"

definition sent_set :: "time \<Rightarrow> OutboxEvent \<Rightarrow> OutboxEvent" where
  "sent_set now r =
     r\<lparr>ev_Status := OutboxStatusSent,
       ev_SentAt := Some now,
       ev_LeasedUntil := None,
       ev_LeaseToken := [],
       ev_LastError := [],
       ev_NextRetryAt := None\<rparr>"

definition retry_set :: "int \<Rightarrow> time \<Rightarrow> string \<Rightarrow> OutboxEvent \<Rightarrow> OutboxEvent" where
  "retry_set nextAttempts retryAt errText r =
     r\<lparr>ev_Status := OutboxStatusPending,
       ev_Attempts := nextAttempts,
       ev_NextRetryAt := Some retryAt,
       ev_LastError := errText,
       ev_LeasedUntil := None,
       ev_LeaseToken := []\<rparr>"

definition dead_set :: "int \<Rightarrow> string \<Rightarrow> OutboxEvent \<Rightarrow> OutboxEvent" where
  "dead_set nextAttempts errText r =
     r\<lparr>ev_Status := OutboxStatusDead,
       ev_Attempts := nextAttempts,
       ev_LastError := errText,
       ev_LeasedUntil := None,
       ev_LeaseToken := [],
       ev_NextRetryAt := None\<rparr>"

definition reason_text :: "go_error option \<Rightarrow> string" where
  "reason_text reason = (case reason of None \<Rightarrow> [] | Some e \<Rightarrow> err_text e)"

definition markSent ::
  "('w, 'm) outbox_db_scheme \<Rightarrow> go_ctx \<Rightarrow> OutboxEvent \<Rightarrow> 'w \<Rightarrow> go_error option \<times> 'w" where
  "markSent env ctx row w =
     (case rowLeaseToken row of
        Inl err \<Rightarrow> (Some (Errorf ''mark outbox row sent: '' err []), w)
      | Inr token \<Rightarrow>
          let (now, w) = rt_now env w
          in case updateClaimedRow env ctx (ev_ID row) token (sent_set now) w of
               (Some err, w) \<Rightarrow> (Some (Errorf ''mark outbox row sent: '' err []), w)
             | (None, w) \<Rightarrow> (None, w))"

definition markRetry ::
  "('w, 'm) outbox_db_scheme \<Rightarrow> go_ctx \<Rightarrow> OutboxEvent \<Rightarrow> time \<Rightarrow> go_error option \<Rightarrow> 'w
     \<Rightarrow> go_error option \<times> 'w" where
  "markRetry env ctx row retryAt reason w =
     (case rowLeaseToken row of
        Inl err \<Rightarrow> (Some (Errorf ''mark outbox row retry: '' err []), w)
      | Inr token \<Rightarrow>
          let nextAttempts = wrap64 (ev_Attempts row + 1);
              errText = reason_text reason
          in case updateClaimedRow env ctx (ev_ID row) token
                    (retry_set nextAttempts retryAt errText) w of
               (Some err, w) \<Rightarrow> (Some (Errorf ''mark outbox row retry: '' err []), w)
             | (None, w) \<Rightarrow> (None, w))"

definition markDead ::
  "('w, 'm) outbox_db_scheme \<Rightarrow> go_ctx \<Rightarrow> OutboxEvent \<Rightarrow> go_error option \<Rightarrow> 'w
     \<Rightarrow> go_error option \<times> 'w" where
  "markDead env ctx row reason w =
     (case rowLeaseToken row of
        Inl err \<Rightarrow> (Some (Errorf ''mark outbox row dead: '' err []), w)
      | Inr token \<Rightarrow>
          let nextAttempts = wrap64 (ev_Attempts row + 1);
              errText = reason_text reason
          in case updateClaimedRow env ctx (ev_ID row) token (dead_set nextAttempts errText) w of
               (Some err, w) \<Rightarrow> (Some (Errorf ''mark outbox row dead: '' err []), w)
             | (None, w) \<Rightarrow> (None, w))"

lemmas row_set_defs = claim_set_def sent_set_def retry_set_def dead_set_def

section \<open>Facts about the assignments\<close>

lemma set_keeps_id [simp, intro]:
  "keeps_id (claim_set u tok)" "keeps_id (sent_set t)" "keeps_id (retry_set n t e)"
  "keeps_id (dead_set n e)"
  by (simp_all add: keeps_id_def row_set_defs)

lemma claim_set_fields [simp, row_simps]:
  "ev_ID (claim_set u tok r) = ev_ID r"
  "ev_Status (claim_set u tok r) = OutboxStatusProcessing"
  "ev_LeasedUntil (claim_set u tok r) = Some u"
  "ev_LeaseToken (claim_set u tok r) = tok"
  "ev_NextRetryAt (claim_set u tok r) = ev_NextRetryAt r"
  "ev_Attempts (claim_set u tok r) = ev_Attempts r"
  "ev_Action (claim_set u tok r) = ev_Action r"
  "ev_IndexAlias (claim_set u tok r) = ev_IndexAlias r"
  "ev_DocumentID (claim_set u tok r) = ev_DocumentID r"
  "ev_Payload (claim_set u tok r) = ev_Payload r"
  by (simp_all add: claim_set_def)

lemma mark_set_fields [simp, row_simps]:
  "ev_ID (sent_set t r) = ev_ID r" "ev_Status (sent_set t r) = OutboxStatusSent"
  "ev_LeaseToken (sent_set t r) = []" "ev_Attempts (sent_set t r) = ev_Attempts r"
  "ev_ID (retry_set n u e r) = ev_ID r" "ev_Status (retry_set n u e r) = OutboxStatusPending"
  "ev_LeaseToken (retry_set n u e r) = []" "ev_Attempts (retry_set n u e r) = n"
  "ev_NextRetryAt (retry_set n u e r) = Some u" "ev_LeasedUntil (retry_set n u e r) = None"
  "ev_ID (dead_set n e r) = ev_ID r" "ev_Status (dead_set n e r) = OutboxStatusDead"
  "ev_LeaseToken (dead_set n e r) = []" "ev_Attempts (dead_set n e r) = n"
  by (simp_all add: row_set_defs)

text \<open>A stored claim cannot be claimed again before the stored end of its lease.\<close>

lemma claimed_not_claimable:
  "now' < cell leaseUntil \<Longrightarrow> \<not> claimable now' (store_row cell (claim_set leaseUntil token r))"
  by (simp add: claimable_def)

text \<open>The final statuses are never claimable.\<close>

lemma final_not_claimable:
  "ev_Status r = OutboxStatusSent \<or> ev_Status r = OutboxStatusDead \<Longrightarrow> \<not> claimable now r"
  by (auto simp: claimable_def)

lemma claimable_mono: "claimable now r \<Longrightarrow> now \<le> now' \<Longrightarrow> claimable now' r"
  unfolding claimable_def using sql_le_mono by blast

text \<open>The number of candidates survives the overflow of the multiplication by four.\<close>

lemma candidateLimit_ge: "batchSize \<le> candidateLimit batchSize"
  by (simp add: candidateLimit_def)

lemma rowLeaseToken_Inr:
  "rowLeaseToken row = Inr token \<longleftrightarrow> 0 < ev_ID row \<and> token \<noteq> [] \<and> token = ev_LeaseToken row"
  by (auto simp: rowLeaseToken_def)

lemma set_subseq: "subseq xs ys \<Longrightarrow> set xs \<subseteq> set ys"
  by (induction rule: list_emb.induct) auto

text \<open>The three write-backs have one shape.\<close>

definition writeback ::
  "('w, 'm) outbox_db_scheme \<Rightarrow> go_ctx \<Rightarrow> OutboxEvent \<Rightarrow> string \<Rightarrow> (OutboxEvent \<Rightarrow> OutboxEvent) \<Rightarrow> 'w
     \<Rightarrow> go_error option \<times> 'w" where
  "writeback env ctx row what f w =
     (case rowLeaseToken row of
        Inl err \<Rightarrow> (Some (Errorf what err []), w)
      | Inr token \<Rightarrow>
          map_prod (map_option (\<lambda>err. Errorf what err [])) id
            (updateClaimedRow env ctx (ev_ID row) token f w))"

lemma markSent_writeback:
  "markSent env ctx row w =
     writeback env ctx row ''mark outbox row sent: '' (sent_set (fst (rt_now env w)))
       (if isl (rowLeaseToken row) then w else snd (rt_now env w))"
  by (auto simp: markSent_def writeback_def split_def Let_def map_prod_def
      split: sum.splits option.splits)

lemma markRetry_writeback:
  "markRetry env ctx row retryAt reason w =
     writeback env ctx row ''mark outbox row retry: ''
       (retry_set (wrap64 (ev_Attempts row + 1)) retryAt (reason_text reason)) w"
  by (auto simp: markRetry_def writeback_def split_def Let_def map_prod_def
      split: sum.splits option.splits)

lemma markDead_writeback:
  "markDead env ctx row reason w =
     writeback env ctx row ''mark outbox row dead: ''
       (dead_set (wrap64 (ev_Attempts row + 1)) (reason_text reason)) w"
  by (auto simp: markDead_def writeback_def split_def Let_def map_prod_def
      split: sum.splits option.splits)

lemmas mark_writeback = markSent_writeback markRetry_writeback markDead_writeback

section \<open>What the operations do to the table\<close>

context outbox_table begin

lemma distinct_rows: "distinct (map ev_ID (rows w))"
  using rows_ok table_ok_distinct by blast

lemma newLeaseToken_facts:
  "newLeaseToken env w = (token, w') \<Longrightarrow> rows w' = rows w \<and> length token = 32"
  by (auto simp: newLeaseToken_def Let_def split: prod.splits dest!: rand_rows)

text \<open>One statement whose condition fixes the primary key.\<close>

lemma updates_by_id:
  assumes upd: "db_updates env ctx P f w = (Inr n, w')" and f: "keeps_id f"
    and P: "\<And>x. P x \<Longrightarrow> ev_ID x = i"
  shows "n \<le> 1"
    and "n \<le> 0 \<Longrightarrow> rows w' = rows w"
    and "0 < n \<Longrightarrow> \<exists>r \<in> set (rows w). P r
           \<and> rows w' = map (\<lambda>x. if x = r then store_row cell (f r) else x) (rows w)"
proof -
  note law = updates_ok [OF upd f]
  have "matched_rows P (rows w) \<le> 1"
    using matched_by_id [OF rows_ok P] .
  with law show "n \<le> 1" by simp
  show "rows w' = rows w" if "n \<le> 0"
  proof -
    from law that have "changed_rows cell P f (rows w) \<le> 0" by simp
    with law show ?thesis by (simp add: changed_rows_none)
  qed
  show "\<exists>r \<in> set (rows w). P r
      \<and> rows w' = map (\<lambda>x. if x = r then store_row cell (f r) else x) (rows w)" if "0 < n"
  proof -
    from law that have "0 < matched_rows P (rows w)" by linarith
    then obtain r where r: "r \<in> set (rows w)" "P r"
      by (auto simp: matched_rows_pos)
    from r P have "\<And>x. P x \<Longrightarrow> ev_ID x = ev_ID r" by simp
    then have "sql_update cell P f (rows w)
        = map (\<lambda>x. if x = r then store_row cell (f r) else x) (rows w)"
      by (rule sql_update_id [where P = P, OF rows_ok r])
    with law have "rows w' = map (\<lambda>x. if x = r then store_row cell (f r) else x) (rows w)" by simp
    with r show ?thesis by blast
  qed
qed

lemma updates_no_match:
  assumes upd: "db_updates env ctx P f w = (res, w')" and f: "keeps_id f"
    and none: "\<And>x. x \<in> set (rows w) \<Longrightarrow> \<not> P x"
  shows "rows w' = rows w" and "\<And>n. res = Inr n \<Longrightarrow> n \<le> 0"
proof -
  have same: "sql_update cell P f (rows w) = rows w"
    using none by (rule sql_update_none)
  show "rows w' = rows w"
    using upd f updates_err updates_ok same by (cases res) fastforce+
  show "n \<le> 0" if "res = Inr n" for n
  proof -
    have "matched_rows P (rows w) = 0"
      using none by (auto simp: matched_rows_def)
    with upd f that show ?thesis using updates_ok by fastforce
  qed
qed

lemma tryClaimRow_True:
  assumes "tryClaimRow env ctx i now u token w = (Inr True, w')"
  shows "\<exists>r \<in> set (rows w). ev_ID r = i \<and> claimable now r
     \<and> rows w' = map (\<lambda>x. if x = r then store_row cell (claim_set u token r) else x) (rows w)"
proof -
  from assms obtain n where "db_updates env ctx (\<lambda>r. ev_ID r = i \<and> claimable now r)
      (claim_set u token) w = (Inr n, w')" "n = 1"
    by (auto simp: tryClaimRow_def split: prod.splits sum.splits)
  then show ?thesis
    using updates_by_id(3) [of ctx "\<lambda>r. ev_ID r = i \<and> claimable now r" "claim_set u token" w n w' i]
    by auto
qed

text \<open>After a successful claim the only row with that key is the claimed one.\<close>

lemma tryClaimRow_row:
  assumes claim: "tryClaimRow env ctx i now u token w = (Inr True, w')"
    and x: "x \<in> set (rows w')" "ev_ID x = i"
  shows "\<exists>r \<in> set (rows w). ev_ID r = i \<and> claimable now r \<and> x = store_row cell (claim_set u token r)"
proof -
  from tryClaimRow_True [OF claim] obtain r where r: "r \<in> set (rows w)" "ev_ID r = i"
    "claimable now r"
    "rows w' = map (\<lambda>x. if x = r then store_row cell (claim_set u token r) else x) (rows w)" by blast
  from x(1) r(4) obtain y where y: "y \<in> set (rows w)"
    "x = (if y = r then store_row cell (claim_set u token r) else y)" by auto
  have "y = r"
  proof (rule ccontr)
    assume "y \<noteq> r"
    with y(2) x(2) have "ev_ID y = ev_ID r" using r(2) by simp
    with \<open>y \<noteq> r\<close> table_ok_unique [OF rows_ok y(1) r(1)] show False by simp
  qed
  with y(2) r show ?thesis by auto
qed

lemma tryClaimRow_False:
  assumes "tryClaimRow env ctx i now u token w = (Inr False, w')"
  shows "rows w' = rows w"
proof -
  from assms obtain n where n: "db_updates env ctx (\<lambda>r. ev_ID r = i \<and> claimable now r)
      (claim_set u token) w = (Inr n, w')" "n \<noteq> 1"
    by (auto simp: tryClaimRow_def split: prod.splits sum.splits)
  note by_id = updates_by_id [OF n(1), of i]
  from by_id(1) n(2) have "n \<le> 0" by simp
  with by_id(2) show ?thesis by simp
qed

lemma tryClaimRow_not_claimable:
  assumes "tryClaimRow env ctx i now u token w = (res, w')"
    "\<And>r. r \<in> set (rows w) \<Longrightarrow> ev_ID r = i \<Longrightarrow> \<not> claimable now r"
  shows "res \<noteq> Inr True" and "rows w' = rows w"
proof -
  obtain q where q: "db_updates env ctx (\<lambda>r. ev_ID r = i \<and> claimable now r) (claim_set u token) w
      = (q, w')"
    using assms(1) by (auto simp: tryClaimRow_def split: prod.splits sum.splits)
  have none: "\<And>x. x \<in> set (rows w) \<Longrightarrow> \<not> (ev_ID x = i \<and> claimable now x)"
    using assms(2) by blast
  show "rows w' = rows w"
    by (rule updates_no_match(1) [OF q set_keeps_id(1) none])
  show "res \<noteq> Inr True"
    using assms(1) q updates_no_match(2) [OF q set_keeps_id(1) none]
    by (auto simp: tryClaimRow_def split: sum.splits)
qed

text \<open>The write-backs.\<close>

lemma updateClaimedRow_None:
  assumes "updateClaimedRow env ctx i token f w = (None, w')" "keeps_id f"
  shows "\<exists>r \<in> set (rows w). fenced i token r
     \<and> rows w' = map (\<lambda>x. if x = r then store_row cell (f r) else x) (rows w)"
proof -
  from assms(1) obtain n where n: "db_updates env ctx (fenced i token) f w = (Inr n, w')" "n \<noteq> 0"
    by (auto simp: updateClaimedRow_def split: prod.splits sum.splits if_splits)
  note by_id = updates_by_id [OF n(1) assms(2), of i]
  have id: "\<And>x. fenced i token x \<Longrightarrow> ev_ID x = i" by (simp add: fenced_def)
  have "0 \<le> n"
    using updates_ok [OF n(1) assms(2)] by (simp add: changed_rows_def)
  with n(2) by_id(3) id show ?thesis by simp
qed

lemma updateClaimedRow_stale:
  assumes upd: "updateClaimedRow env ctx i token f w = (res, w')" and f: "keeps_id f"
    and none: "\<And>r. r \<in> set (rows w) \<Longrightarrow> \<not> fenced i token r"
  shows "res \<noteq> None" and "rows w' = rows w"
proof -
  obtain q where q: "db_updates env ctx (fenced i token) f w = (q, w')"
    using upd by (auto simp: updateClaimedRow_def split: prod.splits sum.splits if_splits)
  show "rows w' = rows w"
    by (rule updates_no_match(1) [OF q f none])
  show "res \<noteq> None"
  proof
    assume "res = None"
    with upd updateClaimedRow_None [of ctx i token f w w'] f none show False by blast
  qed
qed

lemma updateClaimedRow_success:
  assumes upd: "updateClaimedRow env ctx i token f w = (res, w')" and f: "keeps_id f"
    and r: "r \<in> set (rows w)" "fenced i token r"
    and changes: "ev_Status (f r) \<noteq> OutboxStatusProcessing"
    and up: "\<And>e. db_updates env ctx (fenced i token) f w \<noteq> (Inl e, w')"
  shows "res = None"
proof -
  obtain n where n: "db_updates env ctx (fenced i token) f w = (Inr n, w')"
    "res = (if n = 0 then Some (Err ''lease mismatch or row not claimed'') else None)"
    using upd up by (auto simp: updateClaimedRow_def split: prod.splits sum.splits if_splits)
  have "store_row cell (f r) \<noteq> r"
    using changes r(2) by (metis fenced_def store_row_frame(7))
  with r have "0 < changed_rows cell (fenced i token) f (rows w)"
    by (auto simp: changed_rows_pos)
  with updates_ok [OF n(1) f] have "n \<noteq> 0" by linarith
  with n(2) show ?thesis by simp
qed

text \<open>
  The same for the write-backs: a row that does not hold the lease any more is refused; a
  write-back that reports success has changed the row that holds the lease and nothing else; and
  one whose lease is good can only fail on the database.
\<close>

lemma writeback_stale:
  assumes "\<And>r. r \<in> set (rows w) \<Longrightarrow> \<not> fenced (ev_ID row) (ev_LeaseToken row) r" "keeps_id f"
  shows "fst (writeback env ctx row what f w) \<noteq> None
    \<and> rows (snd (writeback env ctx row what f w)) = rows w"
proof (cases "rowLeaseToken row")
  case (Inl err)
  then show ?thesis by (simp add: writeback_def)
next
  case (Inr token)
  obtain res w' where upd: "updateClaimedRow env ctx (ev_ID row) token f w = (res, w')" by fastforce
  from Inr have "token = ev_LeaseToken row" by (simp add: rowLeaseToken_Inr)
  with assms have "res \<noteq> None" "rows w' = rows w"
    using updateClaimedRow_stale [OF upd assms(2)] by auto
  with Inr upd show ?thesis by (simp add: writeback_def)
qed

lemma writeback_None:
  assumes "writeback env ctx row what f w = (None, w')" "keeps_id f"
  shows "ev_LeaseToken row \<noteq> [] \<and> (\<exists>r \<in> set (rows w). fenced (ev_ID row) (ev_LeaseToken row) r
     \<and> rows w' = map (\<lambda>x. if x = r then store_row cell (f r) else x) (rows w))"
proof -
  from assms(1) have tok: "rowLeaseToken row = Inr (ev_LeaseToken row)" "ev_LeaseToken row \<noteq> []"
    by (auto simp: writeback_def rowLeaseToken_def split: if_splits)
  with assms(1) have "updateClaimedRow env ctx (ev_ID row) (ev_LeaseToken row) f w = (None, w')"
    by (auto simp: writeback_def map_prod_def split_def prod_eq_iff)
  with tok(2) updateClaimedRow_None assms(2) show ?thesis by blast
qed

lemma writeback_held:
  assumes wb: "writeback env ctx row what f w = (res, w')" and f: "keeps_id f"
    and r: "r \<in> set (rows w)" "fenced (ev_ID row) (ev_LeaseToken row) r"
    and row: "0 < ev_ID row" "ev_LeaseToken row \<noteq> []"
    and changes: "ev_Status (f r) \<noteq> OutboxStatusProcessing"
  shows "res = None \<or> (\<exists>e. res = Some (Errorf what (Errorf ''update claimed row: '' e []) []))"
proof -
  obtain res0 where upd: "updateClaimedRow env ctx (ev_ID row) (ev_LeaseToken row) f w = (res0, w')"
    and res: "res = map_option (\<lambda>err. Errorf what err []) res0"
    using wb row by (auto simp: writeback_def rowLeaseToken_def map_prod_def split_def prod_eq_iff)
  show ?thesis
  proof (cases "\<exists>e. db_updates env ctx (fenced (ev_ID row) (ev_LeaseToken row)) f w = (Inl e, w')")
    case True
    then obtain e where "res0 = Some (Errorf ''update claimed row: '' e [])"
      using upd by (auto simp: updateClaimedRow_def)
    with res show ?thesis by simp
  next
    case False
    then have "res0 = None"
      using updateClaimedRow_success [OF upd f r changes] by simp
    with res show ?thesis by simp
  qed
qed

lemma writeback_effect:
  assumes "writeback env ctx row what f w = (res, w')" "keeps_id f"
  shows "rows w' = rows w
     \<or> rows w' = sql_update cell (fenced (ev_ID row) (ev_LeaseToken row)) f (rows w)"
proof (cases "rowLeaseToken row")
  case (Inl err)
  with assms(1) show ?thesis by (simp add: writeback_def)
next
  case (Inr token)
  then have tok: "token = ev_LeaseToken row" by (simp add: rowLeaseToken_Inr)
  obtain q w2 where q: "db_updates env ctx (fenced (ev_ID row) token) f w = (q, w2)" by fastforce
  with assms(1) Inr have "w' = w2"
    by (auto simp: writeback_def updateClaimedRow_def split: sum.splits if_splits)
  with q tok assms(2) updates_err updates_ok show ?thesis by (cases q) blast+
qed

lemma writeback_success:
  assumes "writeback env ctx row what f w = (None, w')" "keeps_id f"
  shows "rows w' = sql_update cell (fenced (ev_ID row) (ev_LeaseToken row)) f (rows w)
     \<and> (\<exists>r \<in> set (rows w). fenced (ev_ID row) (ev_LeaseToken row) r)"
proof -
  from writeback_None [OF assms] obtain r where r: "r \<in> set (rows w)"
    "fenced (ev_ID row) (ev_LeaseToken row) r"
    "rows w' = map (\<lambda>x. if x = r then store_row cell (f r) else x) (rows w)" by blast
  have "\<And>x. fenced (ev_ID row) (ev_LeaseToken row) x \<Longrightarrow> ev_ID x = ev_ID r"
    using r(2) by (simp add: fenced_def)
  from sql_update_id [where P = "fenced (ev_ID row) (ev_LeaseToken row)", OF rows_ok r(1,2) this] r
  show ?thesis by auto
qed

text \<open>What a completed claim has done to the table, row by row.\<close>

lemma claim_loop_effect:
  assumes "claim_loop env ctx k now u claimed cands w = (Inr cs, w')"
    and "distinct (map ev_ID cands)" "set cands \<subseteq> set (rows w)"
  shows "\<exists>pairs. cs = claimed @ map (\<lambda>(c, tok). claim_set u tok c) pairs
     \<and> subseq (map fst pairs) cands
     \<and> (\<forall>(c, tok) \<in> set pairs. claimable now c \<and> length tok = 32)
     \<and> rows w' = map (\<lambda>r. case map_of pairs r of
                          Some tok \<Rightarrow> store_row cell (claim_set u tok r) | None \<Rightarrow> r) (rows w)
     \<and> int (length cs) \<le> max k (int (length claimed))"
  using assms
proof (induction cands arbitrary: claimed w)
  case Nil
  then show ?case by (intro exI [of _ "[]"]) simp
next
  case (Cons c cands)
  show ?case
  proof (cases "k \<le> int (length claimed)")
    case True
    with Cons.prems(1) show ?thesis by (intro exI [of _ "[]"]) simp
  next
    case False
    obtain tok w1 where tok: "newLeaseToken env w = (tok, w1)" by fastforce
    then have w1: "rows w1 = rows w" "length tok = 32" using newLeaseToken_facts by auto
    from Cons.prems(1) False tok obtain b w2
      where claim: "tryClaimRow env ctx (ev_ID c) now u tok w1 = (Inr b, w2)"
        and rest: "claim_loop env ctx k now u
          (if b then claimed @ [claim_set u tok c] else claimed) cands w2 = (Inr cs, w')"
      by (auto simp: claim_set_def split: prod.splits sum.splits bool.splits)
    have c: "c \<in> set (rows w)" using Cons.prems(3) by simp
    have "ev_ID c \<notin> ev_ID ` set cands" using Cons.prems(2) by simp
    then have other: "ev_ID x \<noteq> ev_ID c" if "x \<in> set cands" for x
      using that by (metis imageI)
    show ?thesis
    proof (cases b)
      case False
      with claim have "rows w2 = rows w" using tryClaimRow_False w1(1) by simp
      with Cons.IH [of claimed w2] Cons.prems rest False
      obtain pairs where "cs = claimed @ map (\<lambda>(c, tok). claim_set u tok c) pairs"
        "subseq (map fst pairs) cands"
        "\<forall>(c, tok) \<in> set pairs. claimable now c \<and> length tok = 32"
        "rows w' = map (\<lambda>r. case map_of pairs r of
            Some tok \<Rightarrow> store_row cell (claim_set u tok r) | None \<Rightarrow> r) (rows w)"
        "int (length cs) \<le> max k (int (length claimed))"
        by auto
      then show ?thesis by (intro exI [of _ pairs]) auto
    next
      case True
      with claim tryClaimRow_True [of ctx "ev_ID c" now u tok w1 w2] w1(1)
      obtain r where r: "r \<in> set (rows w)" "ev_ID r = ev_ID c" "claimable now r"
        "rows w2 = map (\<lambda>x. if x = r then store_row cell (claim_set u tok r) else x) (rows w)"
        by auto
      then have rc: "r = c" using table_ok_unique [OF rows_ok r(1) c] by simp
      have "set cands \<subseteq> set (rows w2)"
        using Cons.prems(3) other r(4) rc by (auto simp: image_iff)
      with Cons.IH [of "claimed @ [claim_set u tok c]" w2] Cons.prems(2) rest True
      obtain pairs where pairs:
        "cs = (claimed @ [claim_set u tok c]) @ map (\<lambda>(c, tok). claim_set u tok c) pairs"
        "subseq (map fst pairs) cands"
        "\<forall>(c, tok) \<in> set pairs. claimable now c \<and> length tok = 32"
        "rows w' = map (\<lambda>r. case map_of pairs r of
            Some tok \<Rightarrow> store_row cell (claim_set u tok r) | None \<Rightarrow> r) (rows w2)"
        "int (length cs) \<le> max k (int (length (claimed @ [claim_set u tok c])))"
        by auto
      have untouched: "map_of pairs x = None" if "ev_ID x = ev_ID c" for x
      proof -
        have "fst ` set pairs \<subseteq> set cands"
          using set_subseq [OF pairs(2)] by simp
        with other that show ?thesis by (auto simp: map_of_eq_None_iff)
      qed
      have "rows w' = map (\<lambda>r. case map_of ((c, tok) # pairs) r of
            Some tok \<Rightarrow> store_row cell (claim_set u tok r) | None \<Rightarrow> r) (rows w)"
        unfolding pairs(4) r(4) rc by (auto simp: untouched)
      with pairs r(3) rc w1(2) \<open>\<not> k \<le> int (length claimed)\<close> show ?thesis
        by (intro exI [of _ "(c, tok) # pairs"]) auto
    qed
  qed
qed

lemma claimPending_effect:
  assumes "claimPending env ctx k lease w = (Inr cs, w')" "0 < k"
  shows "\<exists>pairs. cs = map (\<lambda>(c, tok). claim_set (fst (rt_now env w) + lease) tok c) pairs
     \<and> subseq (map fst pairs) (rows w)
     \<and> (\<forall>(c, tok) \<in> set pairs. claimable (fst (rt_now env w)) c \<and> length tok = 32)
     \<and> rows w' = map (\<lambda>r. case map_of pairs r of
                          Some tok \<Rightarrow> store_row cell (claim_set (fst (rt_now env w) + lease) tok r)
                        | None \<Rightarrow> r) (rows w)
     \<and> int (length cs) \<le> k"
proof -
  obtain now w1 where now: "rt_now env w = (now, w1)" by fastforce
  from assms now obtain cands w2
    where find: "db_find env ctx (claimable now) IdAsc (candidateLimit k) w1 = (Inr cands, w2)"
      and loop: "claim_loop env ctx k now (now + lease) [] cands w2 = (Inr cs, w')"
    by (auto simp: claimPending_def split: if_splits prod.splits sum.splits)
  have "0 \<le> candidateLimit k" using candidateLimit_ge [of k] assms(2) by linarith
  from find_ok [OF find this] now_rows [OF now]
  have cands: "cands = sql_select (claimable now) IdAsc (candidateLimit k) (rows w)"
    and w2: "rows w2 = rows w" by simp_all
  have sub: "subseq cands (rows w)"
    by (simp add: cands sql_select_def)
      (rule subseq_order.trans [OF prefix_imp_subseq [OF take_is_prefix] subseq_filter_left])
  have "distinct (map ev_ID cands)"
    using sorted_sql_select [OF rows_ok] cands by (simp add: strict_sorted_iff)
  moreover have "set cands \<subseteq> set (rows w2)"
    using set_subseq [OF sub] w2 by simp
  ultimately obtain pairs where
    "cs = map (\<lambda>(c, tok). claim_set (now + lease) tok c) pairs"
    "subseq (map fst pairs) cands"
    "\<forall>(c, tok) \<in> set pairs. claimable now c \<and> length tok = 32"
    "rows w' = map (\<lambda>r. case map_of pairs r of
        Some tok \<Rightarrow> store_row cell (claim_set (now + lease) tok r) | None \<Rightarrow> r) (rows w2)"
    "int (length cs) \<le> k"
    using claim_loop_effect [OF loop] assms(2) by auto
  moreover have "fst (rt_now env w) = now" by (simp add: now)
  ultimately show ?thesis
    using subseq_order.trans [OF _ sub] by (intro exI [of _ pairs]) (simp only: w2)
qed

end

section \<open>Frame conditions\<close>

definition finished :: "OutboxEvent \<Rightarrow> bool" where
  "finished r \<longleftrightarrow> ev_Status r = OutboxStatusSent \<or> ev_Status r = OutboxStatusDead"

text \<open>No row comes or goes, and the finished rows stay as they are.\<close>

definition only_open :: "OutboxEvent list \<Rightarrow> OutboxEvent list \<Rightarrow> bool" where
  "only_open rs rs' \<longleftrightarrow> map ev_ID rs' = map ev_ID rs \<and> (\<forall>r \<in> set rs. finished r \<longrightarrow> r \<in> set rs')"

lemma only_open_refl [simp]: "only_open rs rs"
  by (simp add: only_open_def)

lemma only_open_trans [trans]: "only_open rs rs' \<Longrightarrow> only_open rs' rs'' \<Longrightarrow> only_open rs rs''"
  by (simp add: only_open_def)

lemma only_open_update:
  "keeps_id f \<Longrightarrow> (\<And>r. P r \<Longrightarrow> \<not> finished r) \<Longrightarrow> only_open rs (sql_update cell P f rs)"
  by (fastforce simp: only_open_def map_ID_sql_update in_sql_update)

lemma claimable_open: "claimable now r \<Longrightarrow> \<not> finished r"
  using final_not_claimable by (auto simp: finished_def)

lemma fenced_open: "fenced i tok r \<Longrightarrow> \<not> finished r"
  by (simp add: fenced_def finished_def)

context outbox_table begin

lemma updates_only_open:
  assumes "db_updates env ctx P f w = (res, w')" "keeps_id f" "\<And>r. P r \<Longrightarrow> \<not> finished r"
  shows "only_open (rows w) (rows w')"
  using assms updates_err updates_ok only_open_update [OF assms(2,3)] by (cases res) fastforce+

lemma writeback_only_open:
  "writeback env ctx row what f w = (res, w') \<Longrightarrow> keeps_id f \<Longrightarrow> only_open (rows w) (rows w')"
  using writeback_effect [of ctx row what f w res w']
    only_open_update [of f "fenced (ev_ID row) (ev_LeaseToken row)" "rows w" cell] fenced_open
  by auto

lemma claim_loop_only_open:
  "claim_loop env ctx k now u claimed cands w = (res, w') \<Longrightarrow> only_open (rows w) (rows w')"
proof (induction cands arbitrary: claimed w)
  case Nil
  then show ?case by simp
next
  case (Cons c cands)
  obtain tok w1 where tok: "newLeaseToken env w = (tok, w1)" by fastforce
  obtain q w2 where q: "db_updates env ctx (\<lambda>r. ev_ID r = ev_ID c \<and> claimable now r)
      (claim_set u tok) w1 = (q, w2)" by fastforce
  have step: "only_open (rows w) (rows w2)"
    using updates_only_open [OF q] newLeaseToken_facts [OF tok] claimable_open by auto
  show ?case
  proof (cases "k \<le> int (length claimed)")
    case True
    with Cons.prems show ?thesis by simp
  next
    case False
    with Cons.prems tok q consider "w' = w2"
      | cl where "claim_loop env ctx k now u cl cands w2 = (res, w')"
      by (auto simp: tryClaimRow_def split: sum.splits bool.splits)
    then show ?thesis using Cons.IH step only_open_trans by cases blast+
  qed
qed

lemma claimPending_only_open:
  assumes "claimPending env ctx k lease w = (res, w')"
  shows "only_open (rows w) (rows w')"
proof -
  obtain now w1 where now: "rt_now env w = (now, w1)" by fastforce
  obtain q w2 where q: "db_find env ctx (claimable now) IdAsc (candidateLimit k) w1 = (q, w2)"
    by fastforce
  have "rows w2 = rows w" if "0 < k"
  proof -
    have "0 \<le> candidateLimit k" using candidateLimit_ge [of k] that by linarith
    with q now_rows [OF now] find_err find_ok show ?thesis by (cases q) fastforce+
  qed
  with assms now q claim_loop_only_open show ?thesis
    by (auto simp: claimPending_def split: if_splits sum.splits) fastforce
qed

end

lemma subseq_sorted_wrt: "subseq xs ys \<Longrightarrow> sorted_wrt R ys \<Longrightarrow> sorted_wrt R xs"
  by (induction rule: list_emb.induct) (auto dest: set_subseq)

lemma claimPending_facts:
  assumes "outbox_table env rows cell"
    and "claimPending env ctx batchSize lease w = (Inr cs, w')"
  shows "int (length cs) \<le> max 0 batchSize \<and> sorted_wrt (<) (map ev_ID cs)
    \<and> map ev_ID (rows w') = map ev_ID (rows w)
    \<and> (\<forall>c \<in> set cs. length (ev_LeaseToken c) = 32 \<and> store_row cell c \<in> set (rows w')
         \<and> (\<exists>r \<in> set (rows w). claimable (fst (rt_now env w)) r
              \<and> c = claim_set (fst (rt_now env w) + lease) (ev_LeaseToken c) r))
    \<and> (\<forall>r \<in> set (rows w). ev_ID r \<notin> ev_ID ` set cs \<longrightarrow> r \<in> set (rows w'))"
proof (cases "0 < batchSize")
  case False
  with assms(2) show ?thesis by (simp add: claimPending_def)
next
  case True
  let ?u = "fst (rt_now env w) + lease"
  obtain pairs where cs: "cs = map (\<lambda>(c, tok). claim_set ?u tok c) pairs"
    and sub: "subseq (map fst pairs) (rows w)"
    and pairs: "\<forall>(c, tok) \<in> set pairs. claimable (fst (rt_now env w)) c \<and> length tok = 32"
    and rows': "rows w' = map (\<lambda>r. case map_of pairs r of
        Some tok \<Rightarrow> store_row cell (claim_set ?u tok r) | None \<Rightarrow> r) (rows w)"
    and len: "int (length cs) \<le> batchSize"
    using outbox_table.claimPending_effect [OF assms True] by blast
  have ids: "map ev_ID cs = map ev_ID (map fst pairs)"
    by (simp add: cs split_def)
  have sorted: "sorted_wrt (<) (map ev_ID (rows w))"
    using outbox_table.rows_ok [OF assms(1)] by (simp add: table_ok_def)
  have "sorted_wrt (<) (map ev_ID cs)"
    unfolding ids by (rule subseq_sorted_wrt [OF subseq_map [OF sub] sorted])
  moreover have "distinct (map fst pairs)"
    using calculation unfolding ids by (metis distinct_map strict_sorted_iff)
  then have look: "map_of pairs c = Some tok" if "(c, tok) \<in> set pairs" for c tok
    using that by simp
  have mem: "c \<in> set (rows w)" if "(c, tok) \<in> set pairs" for c tok
    using set_subseq [OF sub] that by force
  have "length (ev_LeaseToken c) = 32 \<and> store_row cell c \<in> set (rows w')
      \<and> (\<exists>r \<in> set (rows w). claimable (fst (rt_now env w)) r
           \<and> c = claim_set ?u (ev_LeaseToken c) r)" if "c \<in> set cs" for c
  proof -
    from that obtain r tok where r: "(r, tok) \<in> set pairs" "c = claim_set ?u tok r"
      by (auto simp: cs)
    with pairs have "claimable (fst (rt_now env w)) r" "length tok = 32" by auto
    moreover have "store_row cell c \<in> set (rows w')"
      using mem [OF r(1)] look [OF r(1)] by (auto simp: rows' r(2) image_iff intro!: bexI [of _ r])
    ultimately show ?thesis using mem [OF r(1)] r(2) by auto
  qed
  moreover have "r \<in> set (rows w')" if "r \<in> set (rows w)" "ev_ID r \<notin> ev_ID ` set cs" for r
  proof -
    have "r \<notin> fst ` set pairs"
      using that(2) by (auto simp: cs split_def image_iff)
    then have "map_of pairs r = None"
      by (simp add: map_of_eq_None_iff)
    with that(1) show ?thesis by (auto simp: rows' image_iff intro!: bexI [of _ r])
  qed
  moreover have "map ev_ID (rows w') = map ev_ID (rows w)"
    by (simp add: rows' split: option.splits)
  ultimately show ?thesis using len by auto
qed

section \<open>Properties\<close>

text \<open>
  C16. A successful claim returns at most a batch of rows, ordered by key.  Each of them was
  claimable at the time of the claim, carries a fresh 32-character token and the new lease, and is
  what the table now stores (up to the precision of its time columns); every other row of the
  table is unchanged, and no row appears or disappears.
\<close>

theorem claimPending_claims:
  assumes "outbox_table env rows cell"
    and "claimPending env ctx batchSize lease w = (Inr cs, w')"
  shows "int (length cs) \<le> max 0 batchSize \<and> sorted_wrt (<) (map ev_ID cs)
    \<and> map ev_ID (rows w') = map ev_ID (rows w)
    \<and> (\<forall>c \<in> set cs. length (ev_LeaseToken c) = 32 \<and> store_row cell c \<in> set (rows w')
         \<and> (\<exists>r \<in> set (rows w). claimable (fst (rt_now env w)) r
              \<and> c = claim_set (fst (rt_now env w) + lease) (ev_LeaseToken c) r))
    \<and> (\<forall>r \<in> set (rows w). ev_ID r \<notin> ev_ID ` set cs \<longrightarrow> r \<in> set (rows w'))"
  using claimPending_facts [OF assms] .

theorem claimPending_claims_witness:
  "\<exists>cs w'. claimPending (mem_db ()) Background 2 30000000000
              (sample_world [sample_row 1, sample_row 2, sample_row 3]) = (Inr cs, w')
     \<and> length cs = 2 \<and> sorted_wrt (<) (map ev_ID cs)
     \<and> (\<forall>c \<in> set cs. length (ev_LeaseToken c) = 32 \<and> store_row datetime_cell c \<in> set (mem_rows w'))"
proof -
  let ?x = "claimPending (mem_db ()) Background 2 30000000000
              (sample_world [sample_row 1, sample_row 2, sample_row 3])"
  have "case fst ?x of Inr cs \<Rightarrow> length cs = 2 | Inl _ \<Rightarrow> False" by code_simp
  then obtain cs w' where x: "?x = (Inr cs, w')" "length cs = 2"
    by (cases ?x) (auto split: sum.splits)
  from claimPending_claims [OF mem.outbox_table_axioms x(1)] x show ?thesis by auto
qed



text \<open>
  C10. Fencing: once a row has been claimed under a new token, a holder of any other token can
  neither mark it sent, nor return it to the queue, nor declare it dead: the write-back reports an
  error and leaves the whole table as it is.
\<close>

theorem stale_writeback_rejected:
  assumes "outbox_table env rows cell"
    and "tryClaimRow env ctx (ev_ID row) now leaseUntil token w = (Inr True, w1)"
    and "ev_LeaseToken row \<noteq> token"
    and "out = markSent env ctx' row w1 \<or> out = markRetry env ctx' row retryAt reason w1
         \<or> out = markDead env ctx' row reason w1"
  shows "fst out \<noteq> None \<and> rows (snd out) = rows w1"
proof -
  have "\<not> fenced (ev_ID row) (ev_LeaseToken row) x" if "x \<in> set (rows w1)" for x
    using outbox_table.tryClaimRow_row [OF assms(1,2) that] assms(3) by (auto simp: fenced_def)
  then have wb: "fst (writeback env ctx' row what f w2) \<noteq> None
      \<and> rows (snd (writeback env ctx' row what f w2)) = rows w1"
    if "rows w2 = rows w1" "keeps_id f" for what f w2
    using outbox_table.writeback_stale [OF assms(1), of w2 row f] that by simp
  have "rows (snd (rt_now env w1)) = rows w1"
    using outbox_table.now_rows [OF assms(1)] by (metis prod.collapse)
  with assms(4) wb show ?thesis
    unfolding mark_writeback by (elim disjE) (simp_all only: set_keeps_id simp_thms split: if_split)
qed

theorem stale_writeback_rejected_witness:
  "\<exists>w1. tryClaimRow (mem_db ()) Background 1 0 30000000000 ''b'' (sample_world [sample_row 1])
          = (Inr True, w1)
     \<and> fst (markSent (mem_db ()) Background (claim_set 5 ''a'' (sample_row 1)) w1) \<noteq> None
     \<and> mem_rows (snd (markSent (mem_db ()) Background (claim_set 5 ''a'' (sample_row 1)) w1))
         = mem_rows w1"
proof -
  let ?row = "claim_set 5 ''a'' (sample_row 1)"
  let ?x = "tryClaimRow (mem_db ()) Background (ev_ID ?row) 0 30000000000 ''b''
              (sample_world [sample_row 1])"
  have "fst ?x = Inr True" by code_simp
  then obtain w1 where x: "?x = (Inr True, w1)" by (metis prod.collapse)
  have tok: "ev_LeaseToken ?row \<noteq> ''b''" by simp
  have out: "markSent (mem_db ()) Background ?row w1 = markSent (mem_db ()) Background ?row w1
     \<or> markSent (mem_db ()) Background ?row w1 = markRetry (mem_db ()) Background ?row 0 None w1
     \<or> markSent (mem_db ()) Background ?row w1 = markDead (mem_db ()) Background ?row None w1"
    by simp
  from stale_writeback_rejected [OF mem.outbox_table_axioms x tok out] x show ?thesis
    by (simp add: sample_row_def)
qed

text \<open>
  The lease of a claimed row is good whatever the precision of the time columns: as long as
  nobody else touches the table, writing any outcome of a claimed row back is never refused as a
  lease mismatch; it can only fail on the database, and when it succeeds the row has left
  \<open>processing\<close> for the status of that outcome, without a token, and the other rows stay.
\<close>

lemma claimed_row_writeback:
  assumes table: "outbox_table env rows cell"
    and claim: "claimPending env ctx batchSize lease w = (Inr cs, w')" "c \<in> set cs"
    and out: "(out, st) \<in> {(markSent env ctx' c w', OutboxStatusSent),
                (markRetry env ctx' c retryAt reason w', OutboxStatusPending),
                (markDead env ctx' c reason w', OutboxStatusDead)}"
  shows "(fst out = None
           \<and> (\<exists>r \<in> set (rows (snd out)). ev_ID r = ev_ID c \<and> ev_Status r = st \<and> ev_LeaseToken r = [])
           \<and> (\<forall>r \<in> set (rows w'). ev_ID r \<noteq> ev_ID c \<longrightarrow> r \<in> set (rows (snd out))))
         \<or> (\<exists>what e. fst out = Some (Errorf what (Errorf ''update claimed row: '' e []) []))"
proof -
  note facts = claimPending_facts [OF table claim(1)]
  from facts claim(2) obtain r where tok: "length (ev_LeaseToken c) = 32"
    and stored: "store_row cell c \<in> set (rows w')" and r: "r \<in> set (rows w)"
    and c: "c = claim_set (fst (rt_now env w) + lease) (ev_LeaseToken c) r" by blast
  have id: "0 < ev_ID c" "rowLeaseToken c = Inr (ev_LeaseToken c)"
    using r tok outbox_table.rows_ok [OF table, of w] arg_cong [OF c, of ev_ID]
    by (auto simp: table_ok_def rowLeaseToken_def)
  have "ev_Status c = OutboxStatusProcessing" by (subst c) simp
  then have held: "fenced (ev_ID c) (ev_LeaseToken c) (store_row cell c)" by (simp add: fenced_def)
  have now: "rows (snd (rt_now env w')) = rows w'"
    using outbox_table.now_rows [OF table] by (metis prod.collapse)
  obtain what f v where wb: "out = writeback env ctx' c what f v" "rows v = rows w'" "keeps_id f"
    and f: "\<And>x. ev_Status (f x) = st" "\<And>x. ev_LeaseToken (f x) = []"
    and st: "st \<noteq> OutboxStatusProcessing"
    using out id(2) now by (auto simp: mark_writeback split: if_splits)
  obtain res v' where res: "writeback env ctx' c what f v = (res, v')" by fastforce
  have "res = None \<or> (\<exists>e. res = Some (Errorf what (Errorf ''update claimed row: '' e []) []))"
    by (rule outbox_table.writeback_held [OF table res wb(3) _ held id(1)])
      (use stored wb(2) tok f st in auto)
  moreover have "(\<exists>r \<in> set (rows v'). ev_ID r = ev_ID c \<and> ev_Status r = st \<and> ev_LeaseToken r = [])
      \<and> (\<forall>r \<in> set (rows w'). ev_ID r \<noteq> ev_ID c \<longrightarrow> r \<in> set (rows v'))" if none: "res = None"
  proof -
    from outbox_table.writeback_None [OF table res [unfolded none] wb(3)] wb(2)
    obtain x where x: "x \<in> set (rows w')" "ev_ID x = ev_ID c"
      "rows v' = map (\<lambda>y. if y = x then store_row cell (f x) else y) (rows w')"
      by (auto simp: fenced_def)
    have "store_row cell (f x) \<in> set (rows v')" using x(1) by (auto simp: x(3))
    moreover have "ev_ID (f x) = ev_ID c" using wb(3) x(2) by (simp add: keeps_id_def)
    moreover have "r \<in> set (rows v')" if "r \<in> set (rows w')" "ev_ID r \<noteq> ev_ID c" for r
      using that x(2) by (auto simp: x(3))
    ultimately show ?thesis using f by (metis store_row_frame(1,7,10))
  qed
  ultimately show ?thesis using res wb(1) by auto
qed

lemma claimed_row_writeback_witness:
  "\<exists>c w'. claimPending (mem_db ()) Background 1 30000000001 (sample_world [sample_row 1])
            = (Inr [c], w')
     \<and> ((fst (markSent (mem_db ()) Background c w') = None
           \<and> (\<exists>r \<in> set (mem_rows (snd (markSent (mem_db ()) Background c w'))).
                 ev_ID r = ev_ID c \<and> ev_Status r = OutboxStatusSent \<and> ev_LeaseToken r = []))
        \<or> (\<exists>what e. fst (markSent (mem_db ()) Background c w')
              = Some (Errorf what (Errorf ''update claimed row: '' e []) [])))"
proof -
  let ?x = "claimPending (mem_db ()) Background 1 30000000001 (sample_world [sample_row 1])"
  have "case fst ?x of Inr [c] \<Rightarrow> True | _ \<Rightarrow> False" by code_simp
  then obtain c w' where x: "?x = (Inr [c], w')"
    by (cases ?x) (auto split: sum.splits list.splits)
  have c: "c \<in> set [c]" by simp
  from claimed_row_writeback [OF mem.outbox_table_axioms x c insertI1, of Background] x
  show ?thesis by blast
qed

definition event_ok :: "('w, 'm) outbox_db_scheme \<Rightarrow> outboxWriteEvent \<Rightarrow> bool" where
  "event_ok env event \<longleftrightarrow>
     we_TableName event \<noteq> [] \<and> we_IndexAlias event \<noteq> [] \<and> we_DocumentID event \<noteq> []
     \<and> \<not> isl (marshalOutboxPayload env (we_Action event) (we_Doc event))"

lemma outbox_rows_Inr:
  "\<forall>event \<in> set events. event_ok env event \<Longrightarrow>
     outbox_rows env events rws = Inr (rws @ map (\<lambda>event.
       pending_row event (projr (marshalOutboxPayload env (we_Action event) (we_Doc event)))) events)"
proof (induction events arbitrary: rws)
  case Nil
  then show ?case by simp
next
  case (Cons event events)
  then show ?case
    by (cases "marshalOutboxPayload env (we_Action event) (we_Doc event)") (auto simp: event_ok_def)
qed

lemma outbox_rows_Inl:
  "\<exists>event \<in> set events. \<not> event_ok env event \<Longrightarrow> \<exists>err. outbox_rows env events rws = Inl err"
proof (induction events arbitrary: rws)
  case Nil
  then show ?case by simp
next
  case (Cons event events)
  then show ?case
    by (cases "marshalOutboxPayload env (we_Action event) (we_Doc event)") (auto simp: event_ok_def)
qed

text \<open>
  C18. Inserting the rows of a batch of events is all or nothing before the database is asked: if
  any event lacks a table, an alias or a document id, or has a document that cannot be encoded,
  the call reports an error and the world is untouched; otherwise exactly one insert of one fresh
  pending row per event, in order, is issued in batches of 100 on the caller's transaction.
\<close>

theorem insertFromEvents_all_or_nothing:
  "insertFromEvents env ctx (Some handle) events w =
     (if events = [] then (None, w)
      else if \<forall>event \<in> set events. event_ok env event
      then map_prod (map_option (\<lambda>err. Errorf ''insert outbox events: create rows: '' err [])) id
             (db_create env ctx handle 100
                (map (\<lambda>event. pending_row event
                   (projr (marshalOutboxPayload env (we_Action event) (we_Doc event)))) events) w)
      else (Some (projl (outbox_rows env events [])), w))
   \<and> ((\<exists>event \<in> set events. \<not> event_ok env event) \<longrightarrow> isl (outbox_rows env events []))"
proof (cases "\<forall>event \<in> set events. event_ok env event")
  case True
  then show ?thesis
    using outbox_rows_Inr [of events env "[]"]
    by (auto simp: insertFromEvents_def map_prod_def split_def split: option.splits)
next
  case False
  then obtain err where "outbox_rows env events [] = Inl err"
    using outbox_rows_Inl [of events env "[]"] by blast
  with False show ?thesis by (auto simp: insertFromEvents_def)
qed

theorem insertFromEvents_all_or_nothing_witness:
  "\<exists>err. insertFromEvents (mem_db ()) Background (Some RootDB)
     [\<lparr>we_TableName = ''t'', we_IndexAlias = ''a'', we_DocumentID = ''1'', we_Action = actionIndex,
       we_Doc = GoNil\<rparr>,
      \<lparr>we_TableName = ''t'', we_IndexAlias = ''a'', we_DocumentID = [], we_Action = actionIndex,
       we_Doc = GoNil\<rparr>] (sample_world []) = (Some err, sample_world [])"
  by (subst insertFromEvents_all_or_nothing [THEN conjunct1]) (simp add: event_ok_def)

text \<open>
  The limit of the candidate query never cuts below a batch: multiplying the batch size by
  four wraps around for batch sizes beyond \<open>2 ^ 61\<close>, and the maximum with the batch size itself
  keeps the limit positive and large enough, for every positive Go \<open>int\<close>.
\<close>

lemma candidateLimit_bounds:
  assumes "0 < batchSize" "in_int64 batchSize"
  shows "batchSize \<le> candidateLimit batchSize \<and> in_int64 (candidateLimit batchSize)
    \<and> (in_int64 (batchSize * 4) \<longrightarrow> candidateLimit batchSize = batchSize * 4)"
  using assms in_int64_wrap64 [of "batchSize * 4"]
  by (auto simp: candidateLimit_def max_def in_int64_def)

lemma candidateLimit_bounds_witness:
  "wrap64 (2305843009213693952 * 4) < 0
   \<and> 2305843009213693952 \<le> candidateLimit 2305843009213693952"
  using candidateLimit_bounds [of 2305843009213693952]
  by (simp add: in_int64_def wrap64_def)

end
