(* ===== verification/OutboxRelay.thy ===== *)
theory OutboxRelay imports OutboxStore begin

text \<open>
  The relay of \<open>outbox_relay.go\<close>: sending a claimed row to Elasticsearch, deciding what becomes of
  it, a batch, the polling loop, and the lifecycle of the relay goroutine.

  The Elasticsearch client is an argument: \<open>es_do\<close> performs a request and gives a transport error
  or a response with its status, the client's \<open>IsError\<close> verdict and the outcome of reading the
  body.  \<open>json_error_reason\<close> is the decoded \<open>error.reason\<close> of a body (\<open>None\<close>: not decodable),
  \<open>fmt_quote\<close> the verb \<open>%q\<close>, and \<open>rt_select\<close> tells which channel the \<open>select\<close> of the polling
  loop received from.
\<close>

section \<open>The services of the relay\<close>

datatype es_request =
    IndexRequest string string string
  | UpdateRequest string string string
  | DeleteRequest string string

record es_response =
  er_StatusCode :: int
  er_IsError :: bool
  er_Body :: "go_error + string"

record 'w relay_env = "'w outbox_db" +
  es_do :: "go_ctx \<Rightarrow> es_request \<Rightarrow> 'w \<Rightarrow> (go_error + es_response) \<times> 'w"
  json_error_reason :: "string \<Rightarrow> string option"
  fmt_quote :: "string \<Rightarrow> string"
  rt_select :: "go_ctx \<Rightarrow> 'w \<Rightarrow> bool \<times> 'w"

section \<open>Sending a row\<close>

definition relayErrorReason :: "('w, 'm) relay_env_scheme \<Rightarrow> string \<Rightarrow> string" where
  "relayErrorReason env body =
     (let trimmed = TrimSpace body
      in if trimmed = [] then ''unknown''
         else case json_error_reason env body of
                Some reason \<Rightarrow> if reason \<noteq> [] then reason else trimmed
              | None \<Rightarrow> trimmed)"

text \<open>The request of a row: \<open>None\<close> where the action is not one of the three.\<close>

definition row_request :: "OutboxEvent \<Rightarrow> es_request option" where
  "row_request row =
     (if ev_Action row = actionIndex
      then Some (IndexRequest (ev_IndexAlias row) (ev_DocumentID row) (ev_Payload row))
      else if ev_Action row = actionUpdate
      then Some (UpdateRequest (ev_IndexAlias row) (ev_DocumentID row) (ev_Payload row))
      else if ev_Action row = actionDelete
      then Some (DeleteRequest (ev_IndexAlias row) (ev_DocumentID row))
      else None)"

definition sendOutboxRow ::
  "('w, 'm) relay_env_scheme \<Rightarrow> go_ctx \<Rightarrow> OutboxEvent \<Rightarrow> 'w \<Rightarrow> (int \<times> go_error option) \<times> 'w" where
  "sendOutboxRow env ctx row w =
     (case row_request row of
        None \<Rightarrow>
          ((0, Some (Errorf [] ErrUnsupportedOutboxAction ('' '' @ fmt_quote env (ev_Action row)))), w)
      | Some req \<Rightarrow>
          (case es_do env ctx req w of
             (Inl err, w) \<Rightarrow>
               ((0, Some (Errorf (''send outbox row '' @ ev_Action row @ '' '' @ ev_DocumentID row
                                  @ '': '') err [])), w)
           | (Inr res, w) \<Rightarrow>
               if \<not> er_IsError res then ((er_StatusCode res, None), w)
               else case er_Body res of
                      Inl readErr \<Rightarrow>
                        ((er_StatusCode res,
                          Some (Errorf (''es status '' @ show_int (er_StatusCode res)
                                        @ '': read body: '') readErr [])), w)
                    | Inr body \<Rightarrow>
                        ((er_StatusCode res,
                          Some (Err (''es status '' @ show_int (er_StatusCode res) @ '': ''
                                     @ relayErrorReason env body))), w)))"

section \<open>One row\<close>

definition outboxSendTimeout :: "Syncer \<Rightarrow> duration" where
  "outboxSendTimeout s =
     (if oc_Lease (cfg_Outbox (sy_cfg s)) > 0 then oc_Lease (cfg_Outbox (sy_cfg s))
      else 30 * Second)"

definition relayBackoff :: "Syncer \<Rightarrow> int \<Rightarrow> duration" where
  "relayBackoff s attempt =
     (let base = oc_PollInterval (cfg_Outbox (sy_cfg s));
          base = (if base \<le> 0 then 2 * Second else base);
          shift = min (max (wrap64 (attempt - 1)) 0) 8
      in wrap64 (base * 2 ^ nat shift))"

text \<open>The failure event of a row.\<close>

definition row_failure :: "string \<Rightarrow> OutboxEvent \<Rightarrow> int \<Rightarrow> go_error \<Rightarrow> bool \<Rightarrow> FailureEvent" where
  "row_failure source row status err retryable =
     zero_FailureEvent
       \<lparr>fe_Source := source,
        fe_Index := ev_IndexAlias row,
        fe_Action := ev_Action row,
        fe_DocumentID := ev_DocumentID row,
        fe_Status := status,
        fe_Error := err_text err,
        fe_Retryable := retryable\<rparr>"

definition bump :: "(Metrics \<Rightarrow> Metrics) \<Rightarrow> Syncer \<Rightarrow> Syncer" where
  "bump f s = s\<lparr>sy_metrics := f (sy_metrics s)\<rparr>"

definition is_transport_failure :: "int \<Rightarrow> go_error \<Rightarrow> bool" where
  "is_transport_failure status sendErr \<longleftrightarrow>
     status = 0 \<and> \<not> errors_is sendErr ErrUnsupportedOutboxAction"

definition processOutboxRow ::
  "('w, 'm) relay_env_scheme \<Rightarrow> go_ctx \<Rightarrow> OutboxEvent \<Rightarrow> Syncer \<Rightarrow> 'w
     \<Rightarrow> (go_error + string) \<times> Syncer \<times> 'w" where
  "processOutboxRow env ctx row s w =
     (let rowCtx = WithTimeout ctx (outboxSendTimeout s);
          storeCtx = flushContext ctx
      in case sendOutboxRow env rowCtx row w of
        ((status, None), w) \<Rightarrow>
          (case markSent env storeCtx row w of
             (Some err, w) \<Rightarrow>
               let (s, w) = recordFailure env (row_failure failureSourceRelay row 0 err False) s w
               in (Inl err, s, w)
           | (None, w) \<Rightarrow>
               (Inr OutboxStatusSent,
                bump (\<lambda>m. m\<lparr>mx_RelayProcessedTotal := mx_RelayProcessedTotal m + 1\<rparr>) s, w))
      | ((status, Some sendErr), w) \<Rightarrow>
          let transportFailure = is_transport_failure status sendErr;
              retryable = (transportFailure \<or> classifyRetryable status);
              (s, w) = recordFailure env (row_failure failureSourceRelay row status sendErr retryable) s w
          in if retryable
                \<and> (transportFailure \<or> ev_Attempts row < oc_MaxAttempts (cfg_Outbox (sy_cfg s)))
             then
               let (now, w) = rt_now env w;
                   retryAt = now + relayBackoff s (wrap64 (ev_Attempts row + 1))
               in case markRetry env storeCtx row retryAt (Some sendErr) w of
                    (Some err, w) \<Rightarrow>
                      let (s, w) = recordFailure env
                            (row_failure failureSourceRelay row status err False) s w
                      in (Inl err, s, w)
                  | (None, w) \<Rightarrow>
                      (Inr OutboxStatusPending,
                       bump (\<lambda>m. m\<lparr>mx_RelayRetriesTotal := mx_RelayRetriesTotal m + 1\<rparr>) s, w)
             else
               case markDead env storeCtx row (Some sendErr) w of
                 (Some err, w) \<Rightarrow>
                   let (s, w) = recordFailure env
                         (row_failure failureSourceRelay row status err False) s w
                   in (Inl err, s, w)
               | (None, w) \<Rightarrow>
                   let s = bump (\<lambda>m. m\<lparr>mx_DeadLetters := mx_DeadLetters m + 1,
                                       mx_RelayDeadTotal := mx_RelayDeadTotal m + 1\<rparr>) s;
                       (s, w) = recordFailure env
                         (row_failure failureSourceDead row status sendErr False) s w
                   in (Inr OutboxStatusDead, s, w))"

section \<open>A batch and the loop\<close>

record outboxBatchResult =
  br_Claimed :: int
  br_Processed :: int
  br_Retried :: int
  br_Dead :: int

definition zero_batch :: outboxBatchResult where
  "zero_batch = \<lparr>br_Claimed = 0, br_Processed = 0, br_Retried = 0, br_Dead = 0\<rparr>"

definition count_outcome :: "string \<Rightarrow> outboxBatchResult \<Rightarrow> outboxBatchResult" where
  "count_outcome outcome batch =
     (if outcome = OutboxStatusSent then batch\<lparr>br_Processed := br_Processed batch + 1\<rparr>
      else if outcome = OutboxStatusPending then batch\<lparr>br_Retried := br_Retried batch + 1\<rparr>
      else if outcome = OutboxStatusDead then batch\<lparr>br_Dead := br_Dead batch + 1\<rparr>
      else batch)"

fun process_rows ::
  "('w, 'm) relay_env_scheme \<Rightarrow> go_ctx \<Rightarrow> outboxBatchResult \<Rightarrow> OutboxEvent list \<Rightarrow> Syncer \<Rightarrow> 'w
     \<Rightarrow> (outboxBatchResult \<times> go_error option) \<times> Syncer \<times> 'w" where
  "process_rows env ctx batch [] s w = ((batch, None), s, w)"
| "process_rows env ctx batch (row # rws) s w =
     (case processOutboxRow env ctx row s w of
        (Inl err, s, w) \<Rightarrow> ((batch, Some err), s, w)
      | (Inr outcome, s, w) \<Rightarrow> process_rows env ctx (count_outcome outcome batch) rws s w)"

definition runOutboxBatch ::
  "('w, 'm) relay_env_scheme \<Rightarrow> go_ctx \<Rightarrow> Syncer \<Rightarrow> 'w
     \<Rightarrow> (outboxBatchResult \<times> go_error option) \<times> Syncer \<times> 'w" where
  "runOutboxBatch env ctx s w =
     (case claimPending env ctx (oc_BatchSize (cfg_Outbox (sy_cfg s)))
             (oc_Lease (cfg_Outbox (sy_cfg s))) w of
        (Inl err, w) \<Rightarrow>
          (case rt_ctx_err env ctx w of
             Some cerr \<Rightarrow> ((zero_batch, Some (Errorf ''relay claim pending: '' cerr [])), s, w)
           | None \<Rightarrow> ((zero_batch, Some (Errorf ''relay claim pending: '' err [])), s, w))
      | (Inr rws, w) \<Rightarrow>
          process_rows env ctx (zero_batch\<lparr>br_Claimed := int (length rws)\<rparr>) rws s w)"

text \<open>One round of the polling loop after the timer fired.\<close>

definition relay_round ::
  "('w, 'm) relay_env_scheme \<Rightarrow> go_ctx \<Rightarrow> Syncer \<Rightarrow> 'w \<Rightarrow> Syncer \<times> 'w" where
  "relay_round env ctx s w =
     (case runOutboxBatch env ctx s w of
        ((batch, Some err), s, w) \<Rightarrow>
          if rt_ctx_err env ctx w = None
          then recordFailure env
                 (zero_FailureEvent\<lparr>fe_Source := failureSourceRelay, fe_Error := err_text err\<rparr>) s w
          else (s, w)
      | ((batch, None), s, w) \<Rightarrow> (s, w))"

text \<open>The loop returns (nil) when it receives from \<open>ctx.Done()\<close>; \<open>None\<close>: it runs on forever.\<close>

partial_function (option) runOutboxRelay ::
  "('w, 'm) relay_env_scheme \<Rightarrow> go_ctx \<Rightarrow> Syncer \<Rightarrow> 'w \<Rightarrow> (Syncer \<times> 'w) option" where
  "runOutboxRelay env ctx s w =
     (let sel = rt_select env ctx w
      in if fst sel then Some (s, snd sel)
         else let rnd = relay_round env ctx s (snd sel)
              in runOutboxRelay env ctx (fst rnd) (snd rnd))"

declare runOutboxRelay.simps [code]

section \<open>The life of the relay\<close>

text \<open>
  The critical sections of \<open>relayMu\<close> are atomic.  \<open>StartOutboxRelay\<close> also gives the context of
  the goroutine that it starts, if it starts one; \<open>relay_exit\<close> is the deferred section that every
  relay runs when its loop has ended.
\<close>

definition StartOutboxRelay :: "go_ctx \<Rightarrow> Syncer \<Rightarrow> go_error option \<times> Syncer \<times> go_ctx option" where
  "StartOutboxRelay ctx s =
     (if sy_stopped s then (Some (Err ''essyncer: stopped''), s, None)
      else if sy_relayRunning s then (None, s, None)
      else if ctx = NilCtx
      then (Some (Err ''essyncer: start outbox relay: nil context''), s, None)
      else if \<not> sy_db s then (Some (Err ''essyncer: start outbox relay: nil db''), s, None)
      else case ensureOutboxStore s of
             (Some err, s) \<Rightarrow> (Some (Errorf ''essyncer: start outbox relay: '' err []), s, None)
           | (None, s) \<Rightarrow>
               (None, s\<lparr>sy_relayCancel := True, sy_relayRunning := True\<rparr>, Some (WithCancel ctx)))"

definition RunOutboxRelay_check :: "go_ctx \<Rightarrow> Syncer \<Rightarrow> go_error option \<times> Syncer" where
  "RunOutboxRelay_check ctx s =
     (if sy_stopped s then (Some (Err ''essyncer: stopped''), s)
      else if ctx = NilCtx then (Some (Err ''essyncer: run outbox relay: nil context''), s)
      else if \<not> sy_db s then (Some (Err ''essyncer: run outbox relay: nil db''), s)
      else case ensureOutboxStore s of
             (Some err, s) \<Rightarrow> (Some (Errorf ''essyncer: run outbox relay: '' err []), s)
           | (None, s) \<Rightarrow> (None, s))"

definition RunOutboxRelay_enter :: "Syncer \<Rightarrow> go_error option \<times> Syncer" where
  "RunOutboxRelay_enter s =
     (if sy_relayRunning s then (Some (Err ''essyncer: outbox relay already running''), s)
      else (None, s\<lparr>sy_relayCancel := True, sy_relayRunning := True\<rparr>))"

definition relay_exit :: "Syncer \<Rightarrow> Syncer" where
  "relay_exit s = s\<lparr>sy_relayRunning := False, sy_relayCancel := False\<rparr>"

text \<open>The argument is the text of the recovered value, \<open>None\<close> where the loop did not panic.\<close>

definition recoverRelayPanic ::
  "('w, 'm) runtime_scheme \<Rightarrow> string option \<Rightarrow> Syncer \<Rightarrow> 'w \<Rightarrow> Syncer \<times> 'w" where
  "recoverRelayPanic env recovered s w =
     (case recovered of
        None \<Rightarrow> (s, w)
      | Some v \<Rightarrow>
          let message = ''outbox relay panicked: '' @ v
          in recordFailure env
               (zero_FailureEvent\<lparr>fe_Source := failureSourceRelay, fe_Error := message\<rparr>)
               (s\<lparr>sy_relayPanic := Some message\<rparr>) w)"

text \<open>A call of \<open>RunOutboxRelay\<close> that nothing interrupts.\<close>

definition RunOutboxRelay ::
  "('w, 'm) relay_env_scheme \<Rightarrow> go_ctx \<Rightarrow> Syncer \<Rightarrow> 'w \<Rightarrow> (go_error option \<times> Syncer \<times> 'w) option" where
  "RunOutboxRelay env ctx s w =
     (case RunOutboxRelay_check ctx s of
        (Some err, s) \<Rightarrow> Some (Some err, s, w)
      | (None, s) \<Rightarrow>
          (case RunOutboxRelay_enter s of
             (Some err, s) \<Rightarrow> Some (Some err, s, w)
           | (None, s) \<Rightarrow>
               (case runOutboxRelay env (WithCancel ctx) s w of
                  None \<Rightarrow> None
                | Some (s, w) \<Rightarrow> Some (None, relay_exit s, w))))"

text \<open>Whether \<open>stopOutboxRelay\<close> finds a relay to cancel.\<close>

definition stopOutboxRelay :: "Syncer \<Rightarrow> bool" where
  "stopOutboxRelay s = sy_relayCancel s"

text \<open>\<open>relayGone\<close>: every relay has left its wait group before the context was done.\<close>

definition waitOutboxRelay :: "go_ctx \<Rightarrow> bool \<Rightarrow> go_error \<Rightarrow> go_error option" where
  "waitOutboxRelay ctx relayGone ctxErr =
     (if ctx = NilCtx then Some (Err ''essyncer: shutdown relay: nil context'')
      else if relayGone then None
      else Some (Errorf ''essyncer: shutdown relay: '' ctxErr []))"

section \<open>What the relay does to the table\<close>

locale relay_table = outbox_table env rows cell
  for env :: "('w, 'm) relay_env_scheme"
    and rows :: "'w \<Rightarrow> OutboxEvent list"
    and cell :: "time \<Rightarrow> time" +
  assumes es_rows: "es_do env ctx req w = (res, w') \<Longrightarrow> rows w' = rows w"
    and select_rows: "rt_select env ctx w = (b, w') \<Longrightarrow> rows w' = rows w"

text \<open>
  The outcome that a delivery calls for, and the assignment that records it: the specification of
  \<open>processOutboxRow\<close>.
\<close>

definition relay_decision :: "Syncer \<Rightarrow> OutboxEvent \<Rightarrow> int \<Rightarrow> go_error option \<Rightarrow> string" where
  "relay_decision s row status sendErr =
     (case sendErr of
        None \<Rightarrow> OutboxStatusSent
      | Some e \<Rightarrow>
          if is_transport_failure status e
             \<or> classifyRetryable status \<and> ev_Attempts row < oc_MaxAttempts (cfg_Outbox (sy_cfg s))
          then OutboxStatusPending else OutboxStatusDead)"

definition relay_assignment ::
  "Syncer \<Rightarrow> OutboxEvent \<Rightarrow> string \<Rightarrow> go_error option \<Rightarrow> time \<Rightarrow> OutboxEvent \<Rightarrow> OutboxEvent" where
  "relay_assignment s row outcome sendErr now =
     (if outcome = OutboxStatusSent then sent_set now
      else if outcome = OutboxStatusPending
      then retry_set (wrap64 (ev_Attempts row + 1))
             (now + relayBackoff s (wrap64 (ev_Attempts row + 1))) (reason_text sendErr)
      else dead_set (wrap64 (ev_Attempts row + 1)) (reason_text sendErr))"

lemma relay_assignment_simps [simp]:
  "relay_assignment s row OutboxStatusSent e now = sent_set now"
  "relay_assignment s row OutboxStatusPending e now =
     retry_set (wrap64 (ev_Attempts row + 1))
       (now + relayBackoff s (wrap64 (ev_Attempts row + 1))) (reason_text e)"
  "relay_assignment s row OutboxStatusDead e now =
     dead_set (wrap64 (ev_Attempts row + 1)) (reason_text e)"
  by (simp_all add: relay_assignment_def)

lemma relay_assignment_keeps_id [simp]: "keeps_id (relay_assignment s row d e now)"
  by (simp add: relay_assignment_def)

lemma relay_decision_cases:
  "relay_decision s row status sendErr = OutboxStatusSent \<and> sendErr = None
   \<or> relay_decision s row status sendErr = OutboxStatusPending \<and> sendErr \<noteq> None
   \<or> relay_decision s row status sendErr = OutboxStatusDead \<and> sendErr \<noteq> None"
  by (auto simp: relay_decision_def split: option.splits)

lemma relayBackoff_recordFailure [simp]:
  "relayBackoff (fst (recordFailure env event s w)) n = relayBackoff s n"
  by (simp add: relayBackoff_def)

lemma bump_frame [simp]:
  "sy_cfg (bump f s) = sy_cfg s" "sy_metrics (bump f s) = f (sy_metrics s)"
  "sy_outbox (bump f s) = sy_outbox s" "sy_db (bump f s) = sy_db s"
  by (simp_all add: bump_def)


definition relay_count :: "string \<Rightarrow> Metrics \<Rightarrow> Metrics" where
  "relay_count outcome m =
     (if outcome = OutboxStatusSent then m\<lparr>mx_RelayProcessedTotal := mx_RelayProcessedTotal m + 1\<rparr>
      else if outcome = OutboxStatusPending
      then m\<lparr>mx_RelayRetriesTotal := mx_RelayRetriesTotal m + 1\<rparr>
      else m\<lparr>mx_DeadLetters := mx_DeadLetters m + 1, mx_RelayDeadTotal := mx_RelayDeadTotal m + 1\<rparr>)"

lemma relay_count_simps [simp]:
  "relay_count OutboxStatusSent m = m\<lparr>mx_RelayProcessedTotal := mx_RelayProcessedTotal m + 1\<rparr>"
  "relay_count OutboxStatusPending m = m\<lparr>mx_RelayRetriesTotal := mx_RelayRetriesTotal m + 1\<rparr>"
  "relay_count OutboxStatusDead m =
     m\<lparr>mx_DeadLetters := mx_DeadLetters m + 1, mx_RelayDeadTotal := mx_RelayDeadTotal m + 1\<rparr>"
  by (simp_all add: relay_count_def)

lemma row_failure_source [simp]: "fe_Source (row_failure src row st e b) = src"
  by (simp add: row_failure_def)

lemma relay_sources [simp]:
  "failureSourceRelay \<noteq> failureSourceFullSync" "failureSourceDead \<noteq> failureSourceFullSync"
  by (simp_all add: failureSourceRelay_def failureSourceDead_def failureSourceFullSync_def)

context relay_table begin

lemma recordFailure_rows [simp]: "rows (snd (recordFailure env event s w)) = rows w"
  by (simp add: recordFailure_world) (metis now_rows prod.collapse)

lemma clock_rows [simp]: "rows (snd (rt_now env w)) = rows w"
  by (metis now_rows prod.collapse)

lemma sendOutboxRow_rows: "sendOutboxRow env ctx row w = (res, w') \<Longrightarrow> rows w' = rows w"
  by (auto simp: sendOutboxRow_def split: option.splits prod.splits sum.splits if_splits dest: es_rows)

text \<open>
  \<open>processOutboxRow\<close> is one write-back of the decided outcome, between records of failures; the
  counters move only when the write-back succeeded.
\<close>

lemma processOutboxRow_writeback:
  assumes run: "processOutboxRow env ctx row s w = (res, s', w')"
    and send: "sendOutboxRow env (WithTimeout ctx (outboxSendTimeout s)) row w = ((status, sendErr), w1)"
    and d: "d = relay_decision s row status sendErr"
  shows "\<exists>w2 what wres w3 now. rows w2 = rows w \<and> rows w' = rows w3
     \<and> writeback env (flushContext ctx) row what (relay_assignment s row d sendErr now) w2 = (wres, w3)
     \<and> res = (case wres of None \<Rightarrow> Inr d | Some err \<Rightarrow> Inl err)
     \<and> sy_cfg s' = sy_cfg s
     \<and> sy_metrics s' = (if wres = None then relay_count d (sy_metrics s) else sy_metrics s)"
proof -
  let ?ctx = "flushContext ctx"
  have w1: "rows w1 = rows w" using sendOutboxRow_rows [OF send] .
  have run': "res = fst (processOutboxRow env ctx row s w)"
    "s' = fst (snd (processOutboxRow env ctx row s w))"
    "w' = snd (snd (processOutboxRow env ctx row s w))" using run by simp_all
  show ?thesis
  proof (cases sendErr)
    case None
    let ?w2 = "if isl (rowLeaseToken row) then w1 else snd (rt_now env w1)"
    obtain wres w3 where wb: "markSent env ?ctx row w1 = (wres, w3)" by fastforce
    have w2: "rows ?w2 = rows w" using w1 by simp
    from None d have "d = OutboxStatusSent" by (simp add: relay_decision_def)
    with send None wb w2 wb [unfolded markSent_writeback] show ?thesis unfolding run'
      by (intro exI [of _ ?w2] exI [of _ "''mark outbox row sent: ''"] exI [of _ wres] exI [of _ w3]
          exI [of _ "fst (rt_now env w1)"])
        (simp add: processOutboxRow_def Let_def split_def recordFailure_metrics split: option.split)
  next
    case (Some e)
    let ?rt = "is_transport_failure status e \<or> classifyRetryable status"
    let ?r = "recordFailure env (row_failure failureSourceRelay row status e ?rt) s w1"
    show ?thesis
    proof (cases "d = OutboxStatusPending")
      case True
      let ?now = "fst (rt_now env (snd ?r))" and ?w2 = "snd (rt_now env (snd ?r))"
      let ?at = "?now + relayBackoff s (wrap64 (ev_Attempts row + 1))"
      obtain wres w3 where wb: "markRetry env ?ctx row ?at (Some e) ?w2 = (wres, w3)" by fastforce
      from True d Some have "?rt \<and> (is_transport_failure status e
          \<or> ev_Attempts row < oc_MaxAttempts (cfg_Outbox (sy_cfg s)))"
        by (auto simp: relay_decision_def split: if_splits)
      with send Some wb w1 True wb [unfolded markRetry_writeback] show ?thesis unfolding run'
        by (intro exI [of _ ?w2] exI [of _ "''mark outbox row retry: ''"] exI [of _ wres]
            exI [of _ w3] exI [of _ ?now])
          (simp add: processOutboxRow_def Let_def split_def recordFailure_metrics split: option.split)
    next
      case False
      obtain wres w3 where wb: "markDead env ?ctx row (Some e) (snd ?r) = (wres, w3)" by fastforce
      from False d Some have dead: "d = OutboxStatusDead" "\<not> is_transport_failure status e"
          "classifyRetryable status \<Longrightarrow> \<not> ev_Attempts row < oc_MaxAttempts (cfg_Outbox (sy_cfg s))"
        by (auto simp: relay_decision_def split: if_splits)
      with send Some wb w1 wb [unfolded markDead_writeback] show ?thesis unfolding run'
        by (cases "classifyRetryable status", (intro exI [of _ "snd ?r"] exI [of _ "''mark outbox row dead: ''"] exI [of _ wres]
            exI [of _ w3] exI [of _ 0],
            simp add: processOutboxRow_def Let_def split_def recordFailure_metrics split: option.split)+)
    qed
  qed
qed

end

text \<open>A given number of rounds of the loop.\<close>

primrec relay_rounds ::
  "('w, 'm) relay_env_scheme \<Rightarrow> go_ctx \<Rightarrow> nat \<Rightarrow> Syncer \<Rightarrow> 'w \<Rightarrow> Syncer \<times> 'w" where
  "relay_rounds env ctx 0 s w = (s, w)"
| "relay_rounds env ctx (Suc n) s w =
     (let rnd = relay_round env ctx s (snd (rt_select env ctx w))
      in relay_rounds env ctx n (fst rnd) (snd rnd))"

context relay_table begin

lemma processOutboxRow_only_open:
  assumes "processOutboxRow env ctx row s w = (res, s', w')"
  shows "only_open (rows w) (rows w') \<and> sy_cfg s' = sy_cfg s"
proof -
  obtain status sendErr w1 where
    send: "sendOutboxRow env (WithTimeout ctx (outboxSendTimeout s)) row w = ((status, sendErr), w1)"
    by (metis prod.collapse)
  from processOutboxRow_writeback [OF assms send refl] writeback_only_open relay_assignment_keeps_id
  show ?thesis by metis
qed

lemma process_rows_only_open:
  "process_rows env ctx batch rws s w = (res, s', w') \<Longrightarrow>
     only_open (rows w) (rows w') \<and> sy_cfg s' = sy_cfg s"
proof (induction rws arbitrary: batch s w)
  case Nil
  then show ?case by simp
next
  case (Cons row rws)
  obtain q s1 w1 where q: "processOutboxRow env ctx row s w = (q, s1, w1)"
    by (metis prod.collapse)
  with Cons.prems consider "s' = s1" "w' = w1"
    | b where "process_rows env ctx b rws s1 w1 = (res, s', w')"
    by (auto split: sum.splits)
  then show ?case
    using Cons.IH processOutboxRow_only_open [OF q] only_open_trans by cases (metis, metis)
qed

lemma runOutboxBatch_only_open:
  assumes "runOutboxBatch env ctx s w = (res, s', w')"
  shows "only_open (rows w) (rows w') \<and> sy_cfg s' = sy_cfg s"
proof -
  obtain q w1 where q: "claimPending env ctx (oc_BatchSize (cfg_Outbox (sy_cfg s)))
      (oc_Lease (cfg_Outbox (sy_cfg s))) w = (q, w1)" by fastforce
  note claim = claimPending_only_open [OF q]
  show ?thesis
  proof (cases q)
    case (Inl err)
    with assms q claim show ?thesis by (auto simp: runOutboxBatch_def split: option.splits)
  next
    case (Inr rws)
    with assms q have "process_rows env ctx (zero_batch\<lparr>br_Claimed := int (length rws)\<rparr>) rws s w1
        = (res, s', w')" by (simp add: runOutboxBatch_def)
    from process_rows_only_open [OF this] claim only_open_trans show ?thesis by blast
  qed
qed

lemma relay_round_only_open:
  assumes "relay_round env ctx s w = (s', w')"
  shows "only_open (rows w) (rows w') \<and> sy_cfg s' = sy_cfg s"
proof -
  obtain b err s1 w1 where run: "runOutboxBatch env ctx s w = ((b, err), s1, w1)"
    by (metis prod.collapse)
  have "(s', w') = (s1, w1) \<or> (\<exists>ev. recordFailure env ev s1 w1 = (s', w'))"
    using assms run by (simp add: relay_round_def split: option.splits if_splits) blast
  then have "rows w' = rows w1 \<and> sy_cfg s' = sy_cfg s1"
  proof (elim disjE exE)
    fix ev assume "recordFailure env ev s1 w1 = (s', w')"
    then show ?thesis using recordFailure_rows [of ev s1 w1] recordFailure_frame(1) [of env ev s1 w1]
      by (simp only: fst_conv snd_conv simp_thms)
  qed simp
  with runOutboxBatch_only_open [OF run] show ?thesis by simp
qed

lemma relay_rounds_only_open:
  "relay_rounds env ctx n s w = (s', w') \<Longrightarrow> only_open (rows w) (rows w') \<and> sy_cfg s' = sy_cfg s"
proof (induction n arbitrary: s w)
  case 0
  then show ?case by simp
next
  case (Suc n)
  obtain b w1 where sel: "rt_select env ctx w = (b, w1)" by fastforce
  obtain s2 w2 where rnd: "relay_round env ctx s w1 = (s2, w2)" by fastforce
  with sel Suc.prems have "relay_rounds env ctx n s2 w2 = (s', w')" by (simp add: Let_def)
  from Suc.IH [OF this] relay_round_only_open [OF rnd] select_rows [OF sel] only_open_trans
  show ?case by metis
qed

end

text \<open>
  The loop returns exactly when one of its \<open>select\<close>s receives from \<open>ctx.Done()\<close>, after as many
  rounds as \<open>select\<close>s before that one.
\<close>

lemma runOutboxRelay_rounds:
  "relay_rounds env ctx n s w = (s', w') \<Longrightarrow>
     (\<And>k. k < n \<Longrightarrow> \<not> fst (rt_select env ctx (snd (relay_rounds env ctx k s w)))) \<Longrightarrow>
     fst (rt_select env ctx w') \<Longrightarrow>
     runOutboxRelay env ctx s w = Some (s', snd (rt_select env ctx w'))"
proof (induction n arbitrary: s w)
  case 0
  then show ?case by (subst runOutboxRelay.simps) (simp add: Let_def)
next
  case (Suc n)
  let ?rnd = "relay_round env ctx s (snd (rt_select env ctx w))"
  have "\<not> fst (rt_select env ctx w)" using Suc.prems(2) [of 0] by simp
  moreover have "runOutboxRelay env ctx (fst ?rnd) (snd ?rnd) = Some (s', snd (rt_select env ctx w'))"
  proof (rule Suc.IH)
    show "relay_rounds env ctx n (fst ?rnd) (snd ?rnd) = (s', w')"
      using Suc.prems(1) by (simp add: Let_def)
    show "\<not> fst (rt_select env ctx (snd (relay_rounds env ctx k (fst ?rnd) (snd ?rnd))))"
      if "k < n" for k
      using Suc.prems(2) [of "Suc k"] that by (simp add: Let_def)
  qed (rule Suc.prems(3))
  ultimately show ?case by (subst runOutboxRelay.simps) (simp add: Let_def)
qed

lemma runOutboxRelay_Some:
  "runOutboxRelay env ctx s w = Some y \<Longrightarrow>
     \<exists>n. fst (rt_select env ctx (snd (relay_rounds env ctx n s w)))
       \<and> y = (fst (relay_rounds env ctx n s w),
              snd (rt_select env ctx (snd (relay_rounds env ctx n s w))))"
proof (erule runOutboxRelay.raw_induct [rotated], goal_cases)
  case (1 rec env ctx s w y)
  let ?rnd = "relay_round env ctx s (snd (rt_select env ctx w))"
  show ?case
  proof (cases "fst (rt_select env ctx w)")
    case True
    with 1(2) show ?thesis by (intro exI [of _ 0]) (simp add: Let_def)
  next
    case False
    with 1(2) have "rec env ctx (fst ?rnd) (snd ?rnd) = Some y" by (simp add: Let_def)
    from 1(1) [OF this] obtain n where
      "fst (rt_select env ctx (snd (relay_rounds env ctx n (fst ?rnd) (snd ?rnd))))"
      "y = (fst (relay_rounds env ctx n (fst ?rnd) (snd ?rnd)),
            snd (rt_select env ctx (snd (relay_rounds env ctx n (fst ?rnd) (snd ?rnd)))))" by blast
    then show ?thesis by (intro exI [of _ "Suc n"]) (simp add: Let_def)
  qed
qed

section \<open>A batch\<close>

lemma stored_fenced:
  "ev_Status c = OutboxStatusProcessing \<Longrightarrow> fenced (ev_ID c) (ev_LeaseToken c) (store_row cell c)"
  by (simp add: fenced_def)

text \<open>What a batch has counted, in terms of the outcomes of its rows.\<close>

definition add_outcomes :: "string list \<Rightarrow> outboxBatchResult \<Rightarrow> outboxBatchResult" where
  "add_outcomes outs batch = fold count_outcome outs batch"

definition is_outcome :: "string \<Rightarrow> bool" where
  "is_outcome d \<longleftrightarrow> d = OutboxStatusSent \<or> d = OutboxStatusPending \<or> d = OutboxStatusDead"

definition count_eq :: "string \<Rightarrow> string list \<Rightarrow> int" where
  "count_eq d outs = int (length (filter (\<lambda>x. x = d) outs))"

lemma count_eq_simps [simp]:
  "count_eq d [] = 0" "count_eq d (x # outs) = (if x = d then 1 else 0) + count_eq d outs"
  by (simp_all add: count_eq_def)

lemma count_eq_nonneg [simp]: "0 \<le> count_eq d outs"
  by (simp add: count_eq_def)

lemma fold_count_outcome:
  "br_Claimed (fold count_outcome outs b) = br_Claimed b
   \<and> br_Processed (fold count_outcome outs b) = br_Processed b + count_eq OutboxStatusSent outs
   \<and> br_Retried (fold count_outcome outs b) = br_Retried b + count_eq OutboxStatusPending outs
   \<and> br_Dead (fold count_outcome outs b) = br_Dead b + count_eq OutboxStatusDead outs"
  by (induction outs arbitrary: b) (auto simp: count_outcome_def)

lemma count_outcomes_sum:
  "\<forall>d \<in> set outs. is_outcome d \<Longrightarrow>
     count_eq OutboxStatusSent outs + count_eq OutboxStatusPending outs
       + count_eq OutboxStatusDead outs = int (length outs)"
  by (induction outs) (auto simp: is_outcome_def)

lemma relay_counts:
  "\<forall>d \<in> set outs. is_outcome d \<Longrightarrow>
     mx_RelayProcessedTotal (fold relay_count outs m)
       = mx_RelayProcessedTotal m + of_int (count_eq OutboxStatusSent outs)
   \<and> mx_RelayRetriesTotal (fold relay_count outs m)
       = mx_RelayRetriesTotal m + of_int (count_eq OutboxStatusPending outs)
   \<and> mx_RelayDeadTotal (fold relay_count outs m)
       = mx_RelayDeadTotal m + of_int (count_eq OutboxStatusDead outs)
   \<and> mx_DeadLetters (fold relay_count outs m)
       = mx_DeadLetters m + of_int (count_eq OutboxStatusDead outs)"
  by (induction outs arbitrary: m) (auto simp: is_outcome_def)

context relay_table begin

lemma processOutboxRow_result:
  assumes run: "processOutboxRow env ctx row s w = (res, s', w')"
  obtains d f where "is_outcome d" "keeps_id f" "\<And>x. ev_Status (f x) = d"
    "rows w' = rows w \<or> rows w' = sql_update cell (fenced (ev_ID row) (ev_LeaseToken row)) f (rows w)"
    "\<And>d'. res = Inr d' \<Longrightarrow> d' = d
       \<and> rows w' = sql_update cell (fenced (ev_ID row) (ev_LeaseToken row)) f (rows w)
       \<and> (\<exists>r \<in> set (rows w). fenced (ev_ID row) (ev_LeaseToken row) r)
       \<and> sy_metrics s' = relay_count d (sy_metrics s)"
    "\<And>e. res = Inl e \<Longrightarrow> sy_metrics s' = sy_metrics s"
    "sy_cfg s' = sy_cfg s"
proof -
  obtain status sendErr w1 where
    send: "sendOutboxRow env (WithTimeout ctx (outboxSendTimeout s)) row w = ((status, sendErr), w1)"
    by (metis prod.collapse)
  let ?d = "relay_decision s row status sendErr"
  obtain w2 what wres w3 now where wb: "rows w2 = rows w" "rows w' = rows w3"
    "writeback env (flushContext ctx) row what (relay_assignment s row ?d sendErr now) w2 = (wres, w3)"
    "res = (case wres of None \<Rightarrow> Inr ?d | Some err \<Rightarrow> Inl err)" "sy_cfg s' = sy_cfg s"
    "sy_metrics s' = (if wres = None then relay_count ?d (sy_metrics s) else sy_metrics s)"
    using processOutboxRow_writeback [OF run send refl] by blast
  note eff = writeback_effect [OF wb(3) relay_assignment_keeps_id, unfolded wb(1) wb(2) [symmetric]]
  have suc: "wres = None \<Longrightarrow>
      rows w' = sql_update cell (fenced (ev_ID row) (ev_LeaseToken row))
        (relay_assignment s row ?d sendErr now) (rows w)
      \<and> (\<exists>r \<in> set (rows w). fenced (ev_ID row) (ev_LeaseToken row) r)"
    using writeback_success wb(1,2,3) relay_assignment_keeps_id by metis
  have d: "is_outcome ?d" "\<And>x. ev_Status (relay_assignment s row ?d sendErr now x) = ?d"
    using relay_decision_cases [of s row status sendErr]
    by (auto simp: is_outcome_def)
  have Inr: "wres = None \<and> d' = ?d" if "res = Inr d'" for d'
    using wb(4) that by (cases wres) simp_all
  have Inl: "wres \<noteq> None" if "res = Inl e" for e
    using wb(4) that by (cases wres) simp_all
  have settled: "d' = ?d
       \<and> rows w' = sql_update cell (fenced (ev_ID row) (ev_LeaseToken row))
           (relay_assignment s row ?d sendErr now) (rows w)
       \<and> (\<exists>r \<in> set (rows w). fenced (ev_ID row) (ev_LeaseToken row) r)
       \<and> sy_metrics s' = relay_count ?d (sy_metrics s)" if "res = Inr d'" for d'
    using Inr [OF that] suc wb(6) by (simp only: simp_thms if_True)
  have failed: "sy_metrics s' = sy_metrics s" if "res = Inl e" for e
    using Inl [OF that] wb(6) by (simp only: simp_thms if_False)
  show thesis
    using that [OF d(1) relay_assignment_keeps_id d(2) eff settled failed wb(5)] .
qed

text \<open>
  Processing the rows of a claim: each of them is settled, in the table and in the counters, up to
  the first failed write-back; rows outside the claim are not touched.
\<close>

lemma process_rows_effect:
  assumes "process_rows env ctx batch rws s w = ((batch', err), s', w')"
    and "distinct (map ev_ID rws)"
    and "\<forall>c \<in> set rws. store_row cell c \<in> set (rows w) \<and> ev_Status c = OutboxStatusProcessing"
  shows "\<exists>outs. batch' = fold count_outcome outs batch \<and> (\<forall>d \<in> set outs. is_outcome d)
     \<and> length outs \<le> length rws \<and> (err = None \<longleftrightarrow> length outs = length rws)
     \<and> sy_metrics s' = fold relay_count outs (sy_metrics s) \<and> sy_cfg s' = sy_cfg s
     \<and> (\<forall>(c, d) \<in> set (zip rws outs). \<exists>r \<in> set (rows w'). ev_ID r = ev_ID c \<and> ev_Status r = d)
     \<and> (\<forall>r \<in> set (rows w). ev_ID r \<notin> ev_ID ` set rws \<longrightarrow> r \<in> set (rows w'))"
  using assms
proof (induction rws arbitrary: batch s w)
  case Nil
  then show ?case by (intro exI [of _ "[]"]) auto
next
  case (Cons row rws)
  obtain q s1 w1 where q: "processOutboxRow env ctx row s w = (q, s1, w1)"
    by (metis prod.collapse)
  obtain d f where d: "is_outcome d" "keeps_id f" "\<And>x. ev_Status (f x) = d"
    "rows w1 = rows w \<or> rows w1 = sql_update cell (fenced (ev_ID row) (ev_LeaseToken row)) f (rows w)"
    "\<And>d'. q = Inr d' \<Longrightarrow> d' = d
       \<and> rows w1 = sql_update cell (fenced (ev_ID row) (ev_LeaseToken row)) f (rows w)
       \<and> (\<exists>r \<in> set (rows w). fenced (ev_ID row) (ev_LeaseToken row) r)
       \<and> sy_metrics s1 = relay_count d (sy_metrics s)"
    "\<And>e. q = Inl e \<Longrightarrow> sy_metrics s1 = sy_metrics s"
    "sy_cfg s1 = sy_cfg s"
    using processOutboxRow_result [OF q] by blast
  have frame: "r \<in> set (rows w1)" if "r \<in> set (rows w)" "ev_ID r \<noteq> ev_ID row" for r
    using d(4) that by (auto simp: in_sql_update fenced_def)
  show ?case
  proof (cases q)
    case (Inl e)
    with Cons.prems(1) q have "batch' = batch" "err = Some e" "s' = s1" "w' = w1" by auto
    with Inl d frame show ?thesis by (intro exI [of _ "[]"]) auto
  next
    case (Inr d')
    with d(5) have q': "q = Inr d"
      "rows w1 = sql_update cell (fenced (ev_ID row) (ev_LeaseToken row)) f (rows w)"
      "sy_metrics s1 = relay_count d (sy_metrics s)" by auto
    with Cons.prems(1) q have rest:
      "process_rows env ctx (count_outcome d batch) rws s1 w1 = ((batch', err), s', w')" by simp
    have other: "ev_ID c \<noteq> ev_ID row" if "c \<in> set rws" for c
      using Cons.prems(2) that by (metis distinct.simps(2) image_eqI list.set_map list.simps(9))
    have "\<forall>c \<in> set rws. store_row cell c \<in> set (rows w1) \<and> ev_Status c = OutboxStatusProcessing"
      using Cons.prems(3) frame other by auto
    from Cons.IH [OF rest _ this] Cons.prems(2) obtain outs where outs:
      "batch' = fold count_outcome outs (count_outcome d batch)" "\<forall>d \<in> set outs. is_outcome d"
      "length outs \<le> length rws" "err = None \<longleftrightarrow> length outs = length rws"
      "sy_metrics s' = fold relay_count outs (sy_metrics s1)" "sy_cfg s' = sy_cfg s1"
      "\<forall>(c, d) \<in> set (zip rws outs). \<exists>r \<in> set (rows w'). ev_ID r = ev_ID c \<and> ev_Status r = d"
      "\<forall>r \<in> set (rows w1). ev_ID r \<notin> ev_ID ` set rws \<longrightarrow> r \<in> set (rows w')"
      by auto
    have stored: "store_row cell row \<in> set (rows w)" "ev_Status row = OutboxStatusProcessing"
      using Cons.prems(3) by auto
    then have "store_row cell (f (store_row cell row)) \<in> set (rows w1)"
      using stored_fenced [of row cell] q'(2) by (auto simp: in_sql_update intro!: bexI)
    moreover have "ev_ID (f (store_row cell row)) = ev_ID row" using d(2) by (simp add: keeps_id_def)
    ultimately have "\<exists>r \<in> set (rows w'). ev_ID r = ev_ID row \<and> ev_Status r = d"
      using outs(8) other d(3) by (metis imageE store_row_frame(1,7))
    with outs d(1,7) q'(3) frame show ?thesis
      by (intro exI [of _ "d # outs"]) auto
  qed
qed

end

section \<open>A reference world with an Elasticsearch server\<close>

text \<open>
  The server answers from a list of prepared replies and keeps the requests it got; the \<open>select\<close>
  of the loop fires its timer a given number of times.
\<close>

record relay_world = mem_world +
  rw_replies :: "(go_error + es_response) list"
  rw_requests :: "es_request list"
  rw_ticks :: nat

definition es_ok :: es_response where
  "es_ok = \<lparr>er_StatusCode = 200, er_IsError = False, er_Body = Inr ''{}''\<rparr>"

definition es_status :: "int \<Rightarrow> es_response" where
  "es_status n = \<lparr>er_StatusCode = n, er_IsError = n > 299, er_Body = Inr ''{}''\<rparr>"

definition mem_es_do ::
  "go_ctx \<Rightarrow> es_request \<Rightarrow> 'x relay_world_scheme \<Rightarrow> (go_error + es_response) \<times> 'x relay_world_scheme"
  where
  "mem_es_do ctx req w =
     (let w = w\<lparr>rw_requests := rw_requests w @ [req]\<rparr>
      in case rw_replies w of
           [] \<Rightarrow> (Inr es_ok, w)
         | reply # replies \<Rightarrow> (reply, w\<lparr>rw_replies := replies\<rparr>))"

definition mem_select :: "go_ctx \<Rightarrow> 'x relay_world_scheme \<Rightarrow> bool \<times> 'x relay_world_scheme" where
  "mem_select ctx w =
     (case rw_ticks w of 0 \<Rightarrow> (True, w) | Suc n \<Rightarrow> (False, w\<lparr>rw_ticks := n\<rparr>))"

definition mem_relay :: "'m \<Rightarrow> ('x relay_world_scheme, 'm) relay_env_scheme" where
  "mem_relay m = mem_db (relay_env_ext mem_es_do (\<lambda>body. None) (\<lambda>s. s) mem_select m)"

lemma mem_relay_fields [simp]:
  "es_do (mem_relay m) = mem_es_do" "rt_select (mem_relay m) = mem_select"
  "json_error_reason (mem_relay m) = (\<lambda>body. None)" "fmt_quote (mem_relay m) = (\<lambda>s. s)"
  by (simp_all add: mem_relay_def mem_db_def)

lemma mem_rows_relay [simp]:
  "mem_rows (w\<lparr>rw_replies := a\<rparr>) = mem_rows w" "mem_rows (w\<lparr>rw_requests := b\<rparr>) = mem_rows w"
  "mem_rows (w\<lparr>rw_ticks := n\<rparr>) = mem_rows w"
  by (simp_all add: mem_rows_def)

interpretation mem_relay: relay_table "mem_relay m" mem_rows datetime_cell
  by (intro_locales, unfold mem_relay_def, rule mem.outbox_table_axioms, unfold_locales)
    (auto simp: mem_db_def mem_es_do_def mem_select_def Let_def split: list.splits nat.splits)

definition relay_world :: "OutboxEvent list \<Rightarrow> (go_error + es_response) list \<Rightarrow> nat \<Rightarrow> relay_world" where
  "relay_world rs replies n =
     \<lparr>mw_table = rs, mw_now = 0, mw_rand = 7, mw_faults = [], mw_cancelled = False,
      rw_replies = replies, rw_requests = [], rw_ticks = n\<rparr>"

definition relay_syncer :: Syncer where
  "relay_syncer = zero_Syncer True (DefaultConfig)"

section \<open>Properties\<close>

lemma sendOutboxRow_acknowledged:
  "sendOutboxRow env ctx row w = ((status, None), w1) \<Longrightarrow>
     \<exists>req res. row_request row = Some req \<and> es_do env ctx req w = (Inr res, w1)
       \<and> \<not> er_IsError res \<and> status = er_StatusCode res"
  by (auto simp: sendOutboxRow_def split: option.splits prod.splits sum.splits if_splits)

lemma sendOutboxRow_transport:
  "row_request row = Some req \<Longrightarrow> es_do env ctx req w = (Inl err, w1) \<Longrightarrow>
     \<not> errors_is err ErrUnsupportedOutboxAction \<Longrightarrow>
     \<exists>e. sendOutboxRow env ctx row w = ((0, Some e), w1) \<and> is_transport_failure 0 e"
  by (simp add: sendOutboxRow_def is_transport_failure_def)

lemma sendOutboxRow_unsupported:
  "row_request row = None \<Longrightarrow>
     \<exists>e. sendOutboxRow env ctx row w = ((0, Some e), w) \<and> \<not> is_transport_failure 0 e"
  by (simp add: sendOutboxRow_def is_transport_failure_def)

lemma processOutboxRow_effect:
  assumes "relay_table env rows cell"
    and "sendOutboxRow env (WithTimeout ctx (outboxSendTimeout s)) row w = ((status, sendErr), w1)"
    and "processOutboxRow env ctx row s w = (res, s', w')"
  shows "\<exists>now. rows w' = rows w
    \<or> rows w' = sql_update cell (fenced (ev_ID row) (ev_LeaseToken row))
        (relay_assignment s row (relay_decision s row status sendErr) sendErr now) (rows w)"
proof -
  note outbox = relay_table.axioms(1) [OF assms(1)]
  obtain w2 what wres w3 now where wb: "rows w2 = rows w" "rows w' = rows w3"
    "writeback env (flushContext ctx) row what
       (relay_assignment s row (relay_decision s row status sendErr) sendErr now) w2 = (wres, w3)"
    using relay_table.processOutboxRow_writeback [OF assms(1,3,2) refl] by blast
  from outbox_table.writeback_effect [OF outbox wb(3) relay_assignment_keeps_id] wb(1,2)
  show ?thesis by auto
qed

lemma processOutboxRow_sent:
  assumes "relay_table env rows cell"
    and "processOutboxRow env ctx row s w = (res, s', w')"
    and "r \<in> set (rows w')" "ev_Status r = OutboxStatusSent" "r \<notin> set (rows w)"
  shows "ev_ID r = ev_ID row \<and> (\<exists>req resp w1. row_request row = Some req
    \<and> es_do env (WithTimeout ctx (outboxSendTimeout s)) req w = (Inr resp, w1) \<and> \<not> er_IsError resp)"
proof -
  obtain status sendErr w1 where
    send: "sendOutboxRow env (WithTimeout ctx (outboxSendTimeout s)) row w = ((status, sendErr), w1)"
    by (metis prod.collapse)
  let ?d = "relay_decision s row status sendErr"
  obtain now where "rows w' = rows w \<or> rows w' = sql_update cell (fenced (ev_ID row) (ev_LeaseToken row))
      (relay_assignment s row ?d sendErr now) (rows w)"
    using processOutboxRow_effect [OF assms(1) send assms(2)] by blast
  with assms(3,5) obtain x where x: "fenced (ev_ID row) (ev_LeaseToken row) x"
    "r = store_row cell (relay_assignment s row ?d sendErr now x)"
    by (auto simp: in_sql_update split: if_splits)
  with assms(4) relay_decision_cases [of s row status sendErr] have "sendErr = None" by auto
  with send sendOutboxRow_acknowledged have "\<exists>req resp w1. row_request row = Some req
    \<and> es_do env (WithTimeout ctx (outboxSendTimeout s)) req w = (Inr resp, w1) \<and> \<not> er_IsError resp"
    by metis
  moreover have "ev_ID r = ev_ID row"
    using x relay_assignment_keeps_id [of s row ?d sendErr now] by (simp add: keeps_id_def fenced_def)
  ultimately show ?thesis by blast
qed


text \<open>A claimed row in the reference world, held under the token \<open>''k''\<close>.\<close>

definition claimed_row :: "int \<Rightarrow> OutboxEvent" where
  "claimed_row attempts = claim_set 30000000000 ''k'' (sample_row 1)\<lparr>ev_Attempts := attempts\<rparr>"


text \<open>
  C1. At-least-once delivery: a row is marked \<open>sent\<close> only after Elasticsearch has acknowledged the
  very request of that row.
\<close>

theorem sent_only_if_acknowledged:
  assumes "relay_table env rows cell"
    and "processOutboxRow env ctx row s w = (res, s', w')"
    and "r \<in> set (rows w')" "ev_Status r = OutboxStatusSent" "r \<notin> set (rows w)"
  shows "ev_ID r = ev_ID row \<and> (\<exists>req resp w1. row_request row = Some req
    \<and> es_do env (WithTimeout ctx (outboxSendTimeout s)) req w = (Inr resp, w1) \<and> \<not> er_IsError resp)"
  by (rule processOutboxRow_sent [OF assms])

theorem sent_only_if_acknowledged_witness:
  "\<exists>s' w'. processOutboxRow (mem_relay ()) Background (claimed_row 0) relay_syncer
       (relay_world [claimed_row 0] [] 0) = (Inr OutboxStatusSent, s', w')
     \<and> (\<exists>req resp w1. row_request (claimed_row 0) = Some req
          \<and> mem_es_do (WithTimeout Background 30000000000) req (relay_world [claimed_row 0] [] 0)
              = (Inr resp, w1) \<and> \<not> er_IsError resp)"
proof -
  let ?w = "relay_world [claimed_row 0] [] 0"
  let ?x = "processOutboxRow (mem_relay ()) Background (claimed_row 0) relay_syncer ?w"
  let ?r = "store_row datetime_cell (sent_set 0 (claimed_row 0))"
  have "fst ?x = Inr OutboxStatusSent" by code_simp
  then obtain s' w' where x: "?x = (Inr OutboxStatusSent, s', w')" by (metis prod.collapse)
  have "mem_rows (snd (snd ?x)) = [?r]" by code_simp
  with x have r: "?r \<in> set (mem_rows w')" by simp
  have st: "ev_Status ?r = OutboxStatusSent" by simp
  have new: "?r \<notin> set (mem_rows ?w)" by code_simp
  have t: "outboxSendTimeout relay_syncer = 30000000000" by code_simp
  from sent_only_if_acknowledged [OF mem_relay.relay_table_axioms x r st new] x
  show ?thesis by (simp add: t)
qed

text \<open>
  C30. An unreachable Elasticsearch never kills a row: when the request of a row got no response at
  all, the row goes back to the queue however many attempts it has behind it, and no row of the
  table becomes \<open>dead\<close>.
\<close>

theorem transport_failure_never_dead:
  assumes "relay_table env rows cell"
    and "row_request row = Some req"
    and "es_do env (WithTimeout ctx (outboxSendTimeout s)) req w = (Inl err, w1)"
    and "\<not> errors_is err ErrUnsupportedOutboxAction"
    and "processOutboxRow env ctx row s w = (res, s', w')"
  shows "(res = Inr OutboxStatusPending \<or> isl res)
    \<and> (\<forall>r \<in> set (rows w'). ev_Status r = OutboxStatusDead \<longrightarrow> r \<in> set (rows w))"
proof -
  obtain e where e: "sendOutboxRow env (WithTimeout ctx (outboxSendTimeout s)) row w
      = ((0, Some e), w1)" "is_transport_failure 0 e"
    using sendOutboxRow_transport [OF assms(2-4)] by blast
  then have d: "relay_decision s row 0 (Some e) = OutboxStatusPending"
    by (simp add: relay_decision_def)
  have "res = Inr OutboxStatusPending \<or> isl res"
    using relay_table.processOutboxRow_writeback [OF assms(1,5) e(1) refl] d
    by (auto split: option.splits)
  moreover obtain now where "rows w' = rows w
      \<or> rows w' = sql_update cell (fenced (ev_ID row) (ev_LeaseToken row))
          (relay_assignment s row OutboxStatusPending (Some e) now) (rows w)"
    using processOutboxRow_effect [OF assms(1) e(1) assms(5)] d by auto
  then have "\<forall>r \<in> set (rows w'). ev_Status r = OutboxStatusDead \<longrightarrow> r \<in> set (rows w)"
    by (auto simp: in_sql_update split: if_splits)
  ultimately show ?thesis by blast
qed

theorem transport_failure_never_dead_witness:
  "\<exists>res s' w'. processOutboxRow (mem_relay ()) Background (claimed_row 50) relay_syncer
       (relay_world [claimed_row 50] [Inl ErrDeadlineExceeded] 0) = (res, s', w')
     \<and> (res = Inr OutboxStatusPending \<or> isl res)
     \<and> (\<forall>r \<in> set (mem_rows w'). ev_Status r = OutboxStatusDead \<longrightarrow> r \<in> set [claimed_row 50])"
proof -
  let ?w = "relay_world [claimed_row 50] [Inl ErrDeadlineExceeded] 0"
  let ?q = "mem_es_do (WithTimeout Background (outboxSendTimeout relay_syncer))
              (IndexRequest ''a'' ''d'' ''{}'') ?w"
  obtain res s' w' where x: "processOutboxRow (mem_relay ()) Background (claimed_row 50) relay_syncer ?w
      = (res, s', w')" by (metis prod.collapse)
  have req: "row_request (claimed_row 50) = Some (IndexRequest ''a'' ''d'' ''{}'')" by code_simp
  have "fst ?q = Inl ErrDeadlineExceeded" by code_simp
  then have es: "es_do (mem_relay ()) (WithTimeout Background (outboxSendTimeout relay_syncer))
              (IndexRequest ''a'' ''d'' ''{}'') ?w = (Inl ErrDeadlineExceeded, snd ?q)"
    by (simp add: prod_eq_iff)
  have other: "\<not> errors_is ErrDeadlineExceeded ErrUnsupportedOutboxAction" by simp
  have "mem_rows ?w = [claimed_row 50]" by code_simp
  with transport_failure_never_dead [OF mem_relay.relay_table_axioms req es other x] x
  show ?thesis by simp
qed

text \<open>
  Poison rows leave the queue: a row whose action is none of the three is never sent to
  Elasticsearch and is declared \<open>dead\<close> on its first delivery, whatever its budget of attempts.
\<close>

lemma unsupported_row_dies:
  assumes "relay_table env rows cell"
    and "row_request row = None"
    and "processOutboxRow env ctx row s w = (res, s', w')"
  shows "(res = Inr OutboxStatusDead \<or> isl res)
    \<and> fst (sendOutboxRow env ctx' row w) = (0, Some (Errorf [] ErrUnsupportedOutboxAction
         ('' '' @ fmt_quote env (ev_Action row))))
    \<and> snd (sendOutboxRow env ctx' row w) = w"
proof -
  obtain e where e: "sendOutboxRow env (WithTimeout ctx (outboxSendTimeout s)) row w
      = ((0, Some e), w)" "\<not> is_transport_failure 0 e"
    using sendOutboxRow_unsupported [OF assms(2)] by metis
  then have "relay_decision s row 0 (Some e) = OutboxStatusDead"
    by (simp add: relay_decision_def classifyRetryable_def)
  then have "res = Inr OutboxStatusDead \<or> isl res"
    using relay_table.processOutboxRow_writeback [OF assms(1,3) e(1) refl]
    by (auto split: option.splits)
  with assms(2) show ?thesis by (simp add: sendOutboxRow_def)
qed

lemma unsupported_row_dies_witness:
  "\<exists>res s' w'. processOutboxRow (mem_relay ()) Background ((claimed_row 0)\<lparr>ev_Action := ''upsert''\<rparr>)
       relay_syncer (relay_world [(claimed_row 0)\<lparr>ev_Action := ''upsert''\<rparr>] [] 0) = (res, s', w')
     \<and> (res = Inr OutboxStatusDead \<or> isl res)"
proof -
  let ?row = "(claimed_row 0)\<lparr>ev_Action := ''upsert''\<rparr>"
  obtain res s' w' where x: "processOutboxRow (mem_relay ()) Background ?row
      relay_syncer (relay_world [?row] [] 0) = (res, s', w')" by (metis prod.collapse)
  have "row_request ?row = None" by code_simp
  from unsupported_row_dies [OF mem_relay.relay_table_axioms this x] x show ?thesis by blast
qed

text \<open>
  C40. The backoff of a retry doubles with the attempts, from the poll interval (two seconds where
  none is configured) to 256 times it, never less than the attempt before, and without overflow for
  every poll interval whose 256-fold is a \<open>time.Duration\<close>.
\<close>

theorem relayBackoff_bounds:
  assumes "base = (if oc_PollInterval (cfg_Outbox (sy_cfg s)) \<le> 0 then 2 * Second
                   else oc_PollInterval (cfg_Outbox (sy_cfg s)))"
    and "in_int64 (base * 256)" "0 \<le> m" "m \<le> n" "in_int64 n"
  shows "relayBackoff s n = base * 2 ^ nat (min (max (n - 1) 0) 8)
    \<and> base \<le> relayBackoff s m \<and> relayBackoff s m \<le> relayBackoff s n
    \<and> relayBackoff s n \<le> base * 256"
proof -
  have base: "0 < base" using assms(1) by (auto simp: Second_def)
  have pow: "(2::int) ^ nat (min (max (k - 1) 0) 8) \<le> 256" for k :: int
    using power_increasing [of "nat (min (max (k - 1) 0) 8)" 8 "2::int"] by simp
  have fit: "in_int64 (base * 2 ^ nat (min (max (k - 1) 0) 8))" for k :: int
  proof -
    have "base * 2 ^ nat (min (max (k - 1) 0) 8) \<le> base * 256"
      using base pow by (intro mult_left_mono) simp_all
    moreover have "0 \<le> base * 2 ^ nat (min (max (k - 1) 0) 8)" using base by simp
    ultimately show ?thesis using assms(2) unfolding in_int64_def by linarith
  qed
  have eq: "relayBackoff s k = base * 2 ^ nat (min (max (k - 1) 0) 8)" if "0 \<le> k" "k \<le> n" for k
  proof -
    have "in_int64 (k - 1)" using assms(5) that by (simp add: in_int64_def)
    with fit [of k] show ?thesis by (simp add: relayBackoff_def Let_def assms(1) [symmetric])
  qed
  have "(2::int) ^ nat (min (max (m - 1) 0) 8) \<le> 2 ^ nat (min (max (n - 1) 0) 8)"
    using assms(4) by (intro power_increasing) auto
  with eq [of m] eq [of n] assms(3,4) base pow [of n] show ?thesis
    by (auto intro: mult_left_mono)
qed

theorem relayBackoff_bounds_witness:
  "relayBackoff relay_syncer 3 = 8 * Second \<and> relayBackoff relay_syncer 3 \<le> relayBackoff relay_syncer 20
   \<and> relayBackoff relay_syncer 20 \<le> 512 * Second"
proof -
  have b: "2 * Second = (if oc_PollInterval (cfg_Outbox (sy_cfg relay_syncer)) \<le> 0 then 2 * Second
                   else oc_PollInterval (cfg_Outbox (sy_cfg relay_syncer)))" by code_simp
  have i: "in_int64 (2 * Second * 256)" "in_int64 20" "in_int64 3" by (simp_all add: in_int64_def Second_def)
  from relayBackoff_bounds [OF b i(1), of 3 20] relayBackoff_bounds [OF b i(1), of 3 3] i
  show ?thesis by (simp add: Second_def)
qed

lemma runOutboxBatch_outcomes:
  assumes "relay_table env rows cell" "runOutboxBatch env ctx s w = ((b, err), s', w')"
    and "b \<noteq> zero_batch \<or> err = None"
  shows "\<exists>cs w1 outs. claimPending env ctx (oc_BatchSize (cfg_Outbox (sy_cfg s)))
            (oc_Lease (cfg_Outbox (sy_cfg s))) w = (Inr cs, w1)
     \<and> b = fold count_outcome outs (zero_batch\<lparr>br_Claimed := int (length cs)\<rparr>)
     \<and> (\<forall>d \<in> set outs. is_outcome d) \<and> length outs \<le> length cs
     \<and> (err = None \<longleftrightarrow> length outs = length cs)
     \<and> sy_metrics s' = fold relay_count outs (sy_metrics s)
     \<and> (\<forall>(c, d) \<in> set (zip cs outs). \<exists>r \<in> set (rows w'). ev_ID r = ev_ID c \<and> ev_Status r = d)
     \<and> (\<forall>r \<in> set (rows w). ev_ID r \<notin> ev_ID ` set cs \<longrightarrow> r \<in> set (rows w'))"
proof -
  note outbox = relay_table.axioms(1) [OF assms(1)]
  from assms(2,3) obtain cs w1 where claim: "claimPending env ctx
      (oc_BatchSize (cfg_Outbox (sy_cfg s))) (oc_Lease (cfg_Outbox (sy_cfg s))) w = (Inr cs, w1)"
    and proc: "process_rows env ctx (zero_batch\<lparr>br_Claimed := int (length cs)\<rparr>) cs s w1
      = ((b, err), s', w')"
    by (auto simp: runOutboxBatch_def split: prod.splits sum.splits option.splits)
  note facts = claimPending_facts [OF outbox claim]
  have stored: "\<forall>c \<in> set cs. store_row cell c \<in> set (rows w1) \<and> ev_Status c = OutboxStatusProcessing"
    using facts by (metis claim_set_fields(2))
  have "distinct (map ev_ID cs)" using facts by (simp add: strict_sorted_iff)
  from relay_table.process_rows_effect [OF assms(1) proc this stored] claim facts
  show ?thesis by (intro exI [of _ cs] exI [of _ w1]) auto
qed

lemma runOutboxBatch_books:
  assumes "relay_table env rows cell"
    and "runOutboxBatch env ctx s w = ((b, err), s', w')"
  shows "br_Processed b + br_Retried b + br_Dead b \<le> br_Claimed b
    \<and> (err = None \<longrightarrow> br_Processed b + br_Retried b + br_Dead b = br_Claimed b)
    \<and> 0 \<le> br_Processed b \<and> 0 \<le> br_Retried b \<and> 0 \<le> br_Dead b
    \<and> br_Claimed b \<le> max 0 (oc_BatchSize (cfg_Outbox (sy_cfg s)))
    \<and> (br_Claimed b \<noteq> 0 \<longrightarrow>
         mx_RelayProcessedTotal (sy_metrics s') =
           mx_RelayProcessedTotal (sy_metrics s) + of_int (br_Processed b)
       \<and> mx_RelayRetriesTotal (sy_metrics s') =
           mx_RelayRetriesTotal (sy_metrics s) + of_int (br_Retried b)
       \<and> mx_RelayDeadTotal (sy_metrics s') =
           mx_RelayDeadTotal (sy_metrics s) + of_int (br_Dead b)
       \<and> mx_DeadLetters (sy_metrics s') = mx_DeadLetters (sy_metrics s) + of_int (br_Dead b))"
proof (cases "b \<noteq> zero_batch \<or> err = None")
  case False
  then show ?thesis by (simp add: zero_batch_def)
next
  case True
  obtain cs w1 outs where claim: "claimPending env ctx (oc_BatchSize (cfg_Outbox (sy_cfg s)))
            (oc_Lease (cfg_Outbox (sy_cfg s))) w = (Inr cs, w1)"
    and b: "b = fold count_outcome outs (zero_batch\<lparr>br_Claimed := int (length cs)\<rparr>)"
    and outs: "\<forall>d \<in> set outs. is_outcome d" "length outs \<le> length cs"
      "err = None \<longleftrightarrow> length outs = length cs" "sy_metrics s' = fold relay_count outs (sy_metrics s)"
    using runOutboxBatch_outcomes [OF assms True] by blast
  have "int (length cs) \<le> max 0 (oc_BatchSize (cfg_Outbox (sy_cfg s)))"
    using claimPending_facts [OF relay_table.axioms(1) [OF assms(1)] claim] by blast
  with outs(2-4) count_outcomes_sum [OF outs(1)] relay_counts [OF outs(1), of "sy_metrics s"]
    fold_count_outcome [of outs "zero_batch\<lparr>br_Claimed := int (length cs)\<rparr>"]
  show ?thesis unfolding b by (simp add: zero_batch_def)
qed

text \<open>
  The books of a batch balance: a batch without an error has settled every row it claimed, as
  sent, retried or dead; it claims at most the configured batch size; with an error it has counted
  no more than it claimed.  The relay's counters move by exactly what the batch reports.
\<close>

lemma runOutboxBatch_accounting:
  assumes "relay_table env rows cell"
    and "runOutboxBatch env ctx s w = ((b, err), s', w')"
  shows "br_Processed b + br_Retried b + br_Dead b \<le> br_Claimed b
    \<and> (err = None \<longrightarrow> br_Processed b + br_Retried b + br_Dead b = br_Claimed b)
    \<and> 0 \<le> br_Processed b \<and> 0 \<le> br_Retried b \<and> 0 \<le> br_Dead b
    \<and> br_Claimed b \<le> max 0 (oc_BatchSize (cfg_Outbox (sy_cfg s)))
    \<and> (br_Claimed b \<noteq> 0 \<longrightarrow>
         mx_RelayProcessedTotal (sy_metrics s') =
           mx_RelayProcessedTotal (sy_metrics s) + of_int (br_Processed b)
       \<and> mx_RelayRetriesTotal (sy_metrics s') =
           mx_RelayRetriesTotal (sy_metrics s) + of_int (br_Retried b)
       \<and> mx_RelayDeadTotal (sy_metrics s') =
           mx_RelayDeadTotal (sy_metrics s) + of_int (br_Dead b)
       \<and> mx_DeadLetters (sy_metrics s') = mx_DeadLetters (sy_metrics s) + of_int (br_Dead b))"
  by (rule runOutboxBatch_books [OF assms])

lemma runOutboxBatch_accounting_witness:
  "\<exists>b s' w'. runOutboxBatch (mem_relay ()) Background relay_syncer
        (relay_world [sample_row 1, sample_row 2] [Inr es_ok, Inr (es_status 400)] 0)
      = ((b, None), s', w')
     \<and> br_Claimed b = 2 \<and> br_Processed b + br_Retried b + br_Dead b = 2"
proof -
  let ?x = "runOutboxBatch (mem_relay ()) Background relay_syncer
        (relay_world [sample_row 1, sample_row 2] [Inr es_ok, Inr (es_status 400)] 0)"
  have "snd (fst ?x) = None" "br_Claimed (fst (fst ?x)) = 2" by code_simp+
  then obtain b s' w' where x: "?x = ((b, None), s', w')" "br_Claimed b = 2"
    by (metis prod.collapse)
  from runOutboxBatch_accounting [OF mem_relay.relay_table_axioms x(1)] x show ?thesis by auto
qed

text \<open>
  C17. A batch that reports no error leaves nothing half done: every row that it claimed is \<open>sent\<close>,
  \<open>pending\<close> again or \<open>dead\<close>, none is left \<open>processing\<close>; every other row of the table is
  unchanged, and a finished row (\<open>sent\<close> or \<open>dead\<close>) is never claimed at all.
\<close>

theorem runOutboxBatch_settles_claims:
  assumes "relay_table env rows cell"
    and "runOutboxBatch env ctx s w = ((b, None), s', w')"
  shows "\<exists>cs w1. claimPending env ctx (oc_BatchSize (cfg_Outbox (sy_cfg s)))
            (oc_Lease (cfg_Outbox (sy_cfg s))) w = (Inr cs, w1)
    \<and> (\<forall>c \<in> set cs. \<exists>r \<in> set (rows w'). ev_ID r = ev_ID c \<and> is_outcome (ev_Status r))
    \<and> (\<forall>r \<in> set (rows w). ev_ID r \<notin> ev_ID ` set cs \<longrightarrow> r \<in> set (rows w'))
    \<and> (\<forall>r \<in> set (rows w). finished r \<longrightarrow> r \<in> set (rows w'))
    \<and> map ev_ID (rows w') = map ev_ID (rows w)"
proof -
  obtain cs w1 outs where cs: "claimPending env ctx (oc_BatchSize (cfg_Outbox (sy_cfg s)))
            (oc_Lease (cfg_Outbox (sy_cfg s))) w = (Inr cs, w1)"
    "\<forall>d \<in> set outs. is_outcome d" "length outs = length cs"
    "\<forall>(c, d) \<in> set (zip cs outs). \<exists>r \<in> set (rows w'). ev_ID r = ev_ID c \<and> ev_Status r = d"
    "\<forall>r \<in> set (rows w). ev_ID r \<notin> ev_ID ` set cs \<longrightarrow> r \<in> set (rows w')"
    using runOutboxBatch_outcomes [OF assms] by blast
  have "\<exists>r \<in> set (rows w'). ev_ID r = ev_ID c \<and> is_outcome (ev_Status r)" if "c \<in> set cs" for c
  proof -
    from that cs(3) obtain d where "(c, d) \<in> set (zip cs outs)" by (metis in_set_impl_in_set_zip1)
    with cs(2,4) show ?thesis by (fastforce dest: set_zip_rightD)
  qed
  with cs relay_table.runOutboxBatch_only_open [OF assms] show ?thesis
    unfolding only_open_def by blast
qed

theorem runOutboxBatch_settles_claims_witness:
  "\<exists>b s' w'. runOutboxBatch (mem_relay ()) Background relay_syncer
        (relay_world [sample_row 1, (sample_row 2)\<lparr>ev_Status := OutboxStatusDead\<rparr>]
           [Inr (es_status 503)] 0) = ((b, None), s', w')
     \<and> (sample_row 2)\<lparr>ev_Status := OutboxStatusDead\<rparr> \<in> set (mem_rows w')
     \<and> map ev_ID (mem_rows w') = [1, 2]"
proof -
  let ?dead = "(sample_row 2)\<lparr>ev_Status := OutboxStatusDead\<rparr>"
  let ?w = "relay_world [sample_row 1, ?dead] [Inr (es_status 503)] 0"
  let ?x = "runOutboxBatch (mem_relay ()) Background relay_syncer ?w"
  have "snd (fst ?x) = None" by code_simp
  then obtain b s' w' where x: "?x = ((b, None), s', w')" by (metis prod.collapse)
  have k: "mem_rows ?w = [sample_row 1, ?dead]" "finished ?dead"
    "map ev_ID [sample_row 1, ?dead] = [1, 2]" by code_simp+
  from runOutboxBatch_settles_claims [OF mem_relay.relay_table_axioms x] x k show ?thesis by auto
qed



section \<open>Transport failures and the budget of attempts\<close>

text \<open>A second batch after the clock has advanced.\<close>

definition two_batches ::
  "Syncer \<Rightarrow> duration \<Rightarrow> relay_world \<Rightarrow> outboxBatchResult \<times> outboxBatchResult" where
  "two_batches s d w =
     (let ((b1, _), s, w) = runOutboxBatch (mem_relay ()) Background s w;
          ((b2, _), s, w) = runOutboxBatch (mem_relay ()) Background s (w\<lparr>mw_now := mw_now w + d\<rparr>)
      in (b1, b2))"

text \<open>
  A request without a response does use up an attempt, although it never kills the row by
  itself: with a budget of one attempt, a row that got a 503 is retried when it is fresh, and dies
  of the same 503 when a transport failure came first.
\<close>

lemma transport_failure_uses_budget:
  "two_batches (set_outbox (\<lambda>c. c\<lparr>oc_MaxAttempts := 1\<rparr>) relay_syncer) (10 * Second)
      (relay_world [sample_row 1] [Inl ErrDeadlineExceeded, Inr (es_status 503)] 0)
     = (\<lparr>br_Claimed = 1, br_Processed = 0, br_Retried = 1, br_Dead = 0\<rparr>,
        \<lparr>br_Claimed = 1, br_Processed = 0, br_Retried = 0, br_Dead = 1\<rparr>)
   \<and> fst (fst (runOutboxBatch (mem_relay ()) Background
        (set_outbox (\<lambda>c. c\<lparr>oc_MaxAttempts := 1\<rparr>) relay_syncer)
        (relay_world [sample_row 1] [Inr (es_status 503)] 0)))
     = \<lparr>br_Claimed = 1, br_Processed = 0, br_Retried = 1, br_Dead = 0\<rparr>"
  by code_simp

end
