(* ===== verification/OutboxOps.thy ===== *)
theory OutboxOps imports OutboxRelay "HOL-Library.List_Lexorder" "HOL-Library.Char_ord" begin

text \<open>
  The operations of \<open>ops.go\<close> on the outbox: listing, cleaning up, replaying and draining its rows,
  and comparing the counts of the database with those of Elasticsearch.
\<close>

section \<open>Statuses given by the operator\<close>

text \<open>
  \<open>strings.ToLower\<close>: on ASCII strings the letters \<open>A\<close> to \<open>Z\<close> are mapped; strings with other bytes
  go through the Unicode tables, which are the argument.
\<close>

definition ascii_lower :: "char \<Rightarrow> char" where
  "ascii_lower c =
     (let n = of_char c :: nat in if 65 \<le> n \<and> n \<le> 90 then char_of (n + 32) else c)"

definition ToLower :: "(string \<Rightarrow> string) \<Rightarrow> string \<Rightarrow> string" where
  "ToLower unicode_lower s =
     (if list_all (\<lambda>c. (of_char c :: nat) < 128) s then map ascii_lower s else unicode_lower s)"

fun normalize_loop :: "(string \<Rightarrow> string) \<Rightarrow> string list \<Rightarrow> string list \<Rightarrow> string list" where
  "normalize_loop lower normalized [] = normalized"
| "normalize_loop lower normalized (status # statuses) =
     (let s = TrimSpace (ToLower lower status)
      in if s = [] then normalize_loop lower normalized statuses
         else if s \<in> set normalized then normalize_loop lower normalized statuses
         else normalize_loop lower (normalized @ [s]) statuses)"

definition normalizeOutboxStatuses :: "(string \<Rightarrow> string) \<Rightarrow> string list \<Rightarrow> string list" where
  "normalizeOutboxStatuses lower statuses =
     (if statuses = [] then [] else sort (normalize_loop lower [] statuses))"

section \<open>Options and results\<close>

record OutboxListOptions =
  lo_Statuses :: "string list"
  lo_Limit :: int

record OutboxCleanupOptions =
  co_Statuses :: "string list"
  co_OlderThan :: duration
  co_Limit :: int

record OutboxReplayOptions =
  ro_IDs :: "int list"
  ro_AllDead :: bool
  ro_Limit :: int

record OutboxDrainResult =
  dr_Batches :: int
  dr_Claimed :: int
  dr_Processed :: int
  dr_Retried :: int
  dr_Dead :: int
  dr_Remaining :: int

record ReconcileCountResult =
  rc_Model :: string
  rc_Table :: string
  rc_Alias :: string
  rc_DBCount :: int
  rc_ESCount :: int
  rc_Match :: bool
  rc_Err :: "go_error option"

section \<open>Listing, cleaning up, replaying\<close>

definition status_in :: "string list \<Rightarrow> OutboxEvent \<Rightarrow> bool" where
  "status_in sts r \<longleftrightarrow> ev_Status r \<in> set sts"

definition ListOutbox ::
  "('w, 'm) outbox_db_scheme \<Rightarrow> (string \<Rightarrow> string) \<Rightarrow> go_ctx \<Rightarrow> OutboxListOptions \<Rightarrow> Syncer \<Rightarrow> 'w
     \<Rightarrow> (go_error + OutboxEvent list) \<times> Syncer \<times> 'w" where
  "ListOutbox env lower ctx opts s w =
     (case ensureOutboxStore s of
        (Some err, s) \<Rightarrow> (Inl (Errorf ''list outbox rows: '' err []), s, w)
      | (None, s) \<Rightarrow>
          let cond = (if lo_Statuses opts \<noteq> []
                      then status_in (normalizeOutboxStatuses lower (lo_Statuses opts))
                      else (\<lambda>r. True));
              limit = (if lo_Limit opts \<le> 0 then 100 else lo_Limit opts)
          in case db_find env ctx cond IdDesc limit w of
               (Inl err, w) \<Rightarrow> (Inl (Errorf ''list outbox rows: '' err []), s, w)
             | (Inr rws, w) \<Rightarrow> (Inr rws, s, w))"

text \<open>Deleting the rows of a condition: with a limit, the ones with the smallest keys.\<close>

definition cleanup_where ::
  "('w, 'm) outbox_db_scheme \<Rightarrow> go_ctx \<Rightarrow> int \<Rightarrow> (OutboxEvent \<Rightarrow> bool) \<Rightarrow> 'w
     \<Rightarrow> (int \<times> go_error option) \<times> 'w" where
  "cleanup_where env ctx limit cond w =
     (if limit > 0
      then (case db_find env ctx cond IdAsc limit w of
              (Inl err, w) \<Rightarrow> ((0, Some (Errorf ''select outbox cleanup ids: '' err [])), w)
            | (Inr found, w) \<Rightarrow>
                let ids = map ev_ID found
                in if ids = [] then ((0, None), w)
                   else (case db_delete env ctx (\<lambda>r. ev_ID r \<in> set ids) w of
                           (Inl err, w) \<Rightarrow> ((0, Some (Errorf ''cleanup outbox rows: '' err [])), w)
                         | (Inr n, w) \<Rightarrow> ((n, None), w)))
      else (case db_delete env ctx cond w of
              (Inl err, w) \<Rightarrow> ((0, Some (Errorf ''cleanup outbox rows: '' err [])), w)
            | (Inr n, w) \<Rightarrow> ((n, None), w)))"

definition CleanupOutbox ::
  "('w, 'm) outbox_db_scheme \<Rightarrow> (string \<Rightarrow> string) \<Rightarrow> go_ctx \<Rightarrow> OutboxCleanupOptions \<Rightarrow> Syncer \<Rightarrow> 'w
     \<Rightarrow> (int \<times> go_error option) \<times> Syncer \<times> 'w" where
  "CleanupOutbox env lower ctx opts s w =
     (case ensureOutboxStore s of
        (Some err, s) \<Rightarrow> ((0, Some (Errorf ''cleanup outbox rows: '' err [])), s, w)
      | (None, s) \<Rightarrow>
          let statuses = normalizeOutboxStatuses lower (co_Statuses opts);
              statuses = (if statuses = [] then [OutboxStatusDead] else statuses);
              (cond, w) =
                (if co_OlderThan opts > 0
                 then let (now, w) = rt_now env w
                      in (\<lambda>r. status_in statuses r \<and> ev_CreatedAt r \<le> now - co_OlderThan opts, w)
                 else (status_in statuses, w));
              (res, w) = cleanup_where env ctx (co_Limit opts) cond w
          in (res, s, w))"

definition replay_set :: "OutboxEvent \<Rightarrow> OutboxEvent" where
  "replay_set r =
     r\<lparr>ev_Status := OutboxStatusPending,
       ev_Attempts := 0,
       ev_NextRetryAt := None,
       ev_LastError := [],
       ev_LeasedUntil := None,
       ev_SentAt := None\<rparr>"

text \<open>Resetting the rows of a condition: with a limit, the ones with the smallest keys.\<close>

definition replay_where ::
  "('w, 'm) outbox_db_scheme \<Rightarrow> go_ctx \<Rightarrow> int \<Rightarrow> (OutboxEvent \<Rightarrow> bool) \<Rightarrow> 'w
     \<Rightarrow> (int \<times> go_error option) \<times> 'w" where
  "replay_where env ctx limit cond w =
     (let update = (\<lambda>cond w.
            case db_updates env ctx cond replay_set w of
              (Inl err, w) \<Rightarrow> ((0, Some (Errorf ''replay outbox rows: '' err [])), w)
            | (Inr n, w) \<Rightarrow> ((n, None), w))
      in if limit > 0
         then (case db_find env ctx cond IdAsc limit w of
                 (Inl err, w) \<Rightarrow> ((0, Some (Errorf ''select outbox replay ids: '' err [])), w)
               | (Inr found, w) \<Rightarrow>
                   let ids = map ev_ID found
                   in if ids = [] then ((0, None), w)
                      else update (\<lambda>r. ev_ID r \<in> set ids) w)
         else update cond w)"

definition ReplayOutbox ::
  "('w, 'm) outbox_db_scheme \<Rightarrow> go_ctx \<Rightarrow> OutboxReplayOptions \<Rightarrow> Syncer \<Rightarrow> 'w
     \<Rightarrow> (int \<times> go_error option) \<times> Syncer \<times> 'w" where
  "ReplayOutbox env ctx opts s w =
     (case ensureOutboxStore s of
        (Some err, s) \<Rightarrow> ((0, Some (Errorf ''replay outbox rows: '' err [])), s, w)
      | (None, s) \<Rightarrow>
          if ro_IDs opts \<noteq> []
          then let (res, w) = replay_where env ctx (ro_Limit opts) (\<lambda>r. ev_ID r \<in> set (ro_IDs opts)) w
               in (res, s, w)
          else if ro_AllDead opts
          then let (res, w) = replay_where env ctx (ro_Limit opts) (\<lambda>r. ev_Status r = OutboxStatusDead) w
               in (res, s, w)
          else ((0, Some (Err ''replay outbox rows: no ids provided and all_dead disabled'')), s, w))"

section \<open>Draining\<close>

definition zero_drain :: OutboxDrainResult where
  "zero_drain = \<lparr>dr_Batches = 0, dr_Claimed = 0, dr_Processed = 0, dr_Retried = 0, dr_Dead = 0,
                 dr_Remaining = 0\<rparr>"

definition add_batch :: "outboxBatchResult \<Rightarrow> OutboxDrainResult \<Rightarrow> OutboxDrainResult" where
  "add_batch batch result =
     result\<lparr>dr_Batches := dr_Batches result + 1,
            dr_Claimed := dr_Claimed result + br_Claimed batch,
            dr_Processed := dr_Processed result + br_Processed batch,
            dr_Retried := dr_Retried result + br_Retried batch,
            dr_Dead := dr_Dead result + br_Dead batch\<rparr>"

text \<open>The loop over batches: \<open>None\<close> where it never ends.\<close>

partial_function (option) drain_loop ::
  "('w, 'm) relay_env_scheme \<Rightarrow> go_ctx \<Rightarrow> int \<Rightarrow> OutboxDrainResult \<Rightarrow> Syncer \<Rightarrow> 'w
     \<Rightarrow> ((OutboxDrainResult \<times> go_error option) \<times> Syncer \<times> 'w) option" where
  "drain_loop env ctx maxBatches result s w =
     (if maxBatches \<le> 0 \<or> dr_Batches result < maxBatches
      then let step = runOutboxBatch env ctx s w;
               batch = fst (fst step); err = snd (fst step)
           in if err \<noteq> None then Some ((result, err), snd step)
              else if br_Claimed batch = 0 then Some ((result, None), snd step)
              else drain_loop env ctx maxBatches (add_batch batch result)
                     (fst (snd step)) (snd (snd step))
      else Some ((result, None), s, w))"

declare drain_loop.simps [code]

definition unfinished :: "OutboxEvent \<Rightarrow> bool" where
  "unfinished r \<longleftrightarrow> ev_Status r = OutboxStatusPending \<or> ev_Status r = OutboxStatusProcessing"

definition DrainOutbox ::
  "('w, 'm) relay_env_scheme \<Rightarrow> go_ctx \<Rightarrow> int \<Rightarrow> Syncer \<Rightarrow> 'w
     \<Rightarrow> ((OutboxDrainResult \<times> go_error option) \<times> Syncer \<times> 'w) option" where
  "DrainOutbox env ctx maxBatches s w =
     (case ensureOutboxStore s of
        (Some err, s) \<Rightarrow> Some ((zero_drain, Some (Errorf ''drain outbox rows: '' err [])), s, w)
      | (None, s) \<Rightarrow>
          (case drain_loop env ctx maxBatches zero_drain s w of
             None \<Rightarrow> None
           | Some ((result, Some err), s, w) \<Rightarrow> Some ((result, Some err), s, w)
           | Some ((result, None), s, w) \<Rightarrow>
               (case db_count env ctx unfinished w of
                  (Inl err, w) \<Rightarrow>
                    Some ((result, Some (Errorf ''count remaining outbox rows: '' err [])), s, w)
                | (Inr remaining, w) \<Rightarrow>
                    Some ((result\<lparr>dr_Remaining := remaining\<rparr>, None), s, w))))"

section \<open>Reconciling\<close>

record count_response =
  cr_IsError :: bool
  cr_Status :: string
  cr_payload :: "go_error + int"

record 'w ops_env = "'w relay_env" +
  tbl_count :: "go_ctx \<Rightarrow> string \<Rightarrow> bool \<Rightarrow> 'w \<Rightarrow> (go_error + int) \<times> 'w"
  es_count :: "go_ctx \<Rightarrow> string \<Rightarrow> 'w \<Rightarrow> (go_error + count_response) \<times> 'w"

text \<open>The argument is what the JSON decoder makes of the reader.\<close>

definition jsonUnmarshal :: "go_error + 'a \<Rightarrow> go_error + 'a" where
  "jsonUnmarshal decoded =
     (case decoded of Inl err \<Rightarrow> Inl (Errorf ''decode json payload: '' err []) | Inr v \<Rightarrow> Inr v)"

definition reconcile_entry ::
  "('w, 'm) ops_env_scheme \<Rightarrow> go_ctx \<Rightarrow> modelEntry \<Rightarrow> 'w \<Rightarrow> ReconcileCountResult \<times> 'w" where
  "reconcile_entry env ctx entry w =
     (let item = \<lparr>rc_Model = me_modelType entry, rc_Table = me_tableName entry,
                  rc_Alias = me_indexName entry, rc_DBCount = 0, rc_ESCount = 0, rc_Match = False,
                  rc_Err = None\<rparr>;
          unscoped = (me_hasSoftDelete entry \<and> me_softDeleteMode entry = SoftDeleteModeUpdate)
      in case tbl_count env ctx (me_tableName entry) unscoped w of
           (Inl err, w) \<Rightarrow> (item\<lparr>rc_Err := Some (Errorf ''count db rows: '' err [])\<rparr>, w)
         | (Inr n, w) \<Rightarrow>
             let item = item\<lparr>rc_DBCount := n\<rparr>
             in case es_count env ctx (me_indexName entry) w of
                  (Inl err, w) \<Rightarrow> (item\<lparr>rc_Err := Some (Errorf ''count es docs: '' err [])\<rparr>, w)
                | (Inr resp, w) \<Rightarrow>
                    if cr_IsError resp
                    then (item\<lparr>rc_Err := Some (Err (''count es docs: '' @ cr_Status resp))\<rparr>, w)
                    else case jsonUnmarshal (cr_payload resp) of
                           Inl err \<Rightarrow>
                             (item\<lparr>rc_Err := Some (Errorf ''decode es count: '' err [])\<rparr>, w)
                         | Inr c \<Rightarrow> (item\<lparr>rc_ESCount := c, rc_Match := (rc_DBCount item = c)\<rparr>, w))"

fun reconcile_loop ::
  "('w, 'm) ops_env_scheme \<Rightarrow> go_ctx \<Rightarrow> modelEntry list \<Rightarrow> ReconcileCountResult list \<Rightarrow> 'w
     \<Rightarrow> ReconcileCountResult list \<times> 'w" where
  "reconcile_loop env ctx [] results w = (results, w)"
| "reconcile_loop env ctx (entry # entries) results w =
     (let (item, w) = reconcile_entry env ctx entry w
      in reconcile_loop env ctx entries (results @ [item]) w)"

definition ReconcileCounts ::
  "('w, 'm) ops_env_scheme \<Rightarrow> model_types \<Rightarrow> go_ctx \<Rightarrow> string list \<Rightarrow> Syncer \<Rightarrow> 'w
     \<Rightarrow> (go_error + ReconcileCountResult list) \<times> 'w" where
  "ReconcileCounts env mt ctx models s w =
     (case entriesForModels mt (sy_registry s) models of
        Inl err \<Rightarrow> (Inl err, w)
      | Inr entries \<Rightarrow> (let (results, w) = reconcile_loop env ctx entries [] w in (Inr results, w)))"

section \<open>Facts\<close>

lemma normalize_loop_facts:
  "distinct normalized \<Longrightarrow>
     distinct (normalize_loop lower normalized statuses)
     \<and> set (normalize_loop lower normalized statuses) =
         set normalized \<union> {t. t \<noteq> [] \<and> (\<exists>st \<in> set statuses. t = TrimSpace (ToLower lower st))}"
  by (induction lower normalized statuses rule: normalize_loop.induct) (auto simp: Let_def)

lemma ensureOutboxStore_cfg:
  "ensureOutboxStore s = (None, s') \<Longrightarrow> sy_cfg s' = sy_cfg s \<and> sy_metrics s' = sy_metrics s"
  by (auto simp: ensureOutboxStore_def split: if_splits)

lemma replay_set_fields [simp, row_simps]:
  "ev_ID (replay_set r) = ev_ID r" "ev_Status (replay_set r) = OutboxStatusPending"
  "ev_Attempts (replay_set r) = 0" "ev_NextRetryAt (replay_set r) = None"
  "ev_LeasedUntil (replay_set r) = None" "ev_SentAt (replay_set r) = None"
  "ev_LeaseToken (replay_set r) = ev_LeaseToken r"
  by (simp_all add: replay_set_def)

lemma replay_keeps_id [simp, intro]: "keeps_id replay_set"
  by (simp add: keeps_id_def)

text \<open>A replayed row can be claimed at once.\<close>

lemma replayed_claimable: "claimable now (store_row cell (replay_set r))"
  by (simp add: claimable_def)

text \<open>The keys that a limited selection finds: at most as many, and the smallest that qualify.\<close>

lemma find_prefix:
  "\<exists>rest. filter P rs = sql_select P IdAsc lim rs @ rest"
  by (auto simp: sql_select_def intro: exI [of _ "drop (nat lim) (filter P rs)"])

lemma selected_ids:
  assumes "table_ok cell rs" "r \<in> set rs"
  shows "ev_ID r \<in> ev_ID ` set (sql_select P ord lim rs) \<longleftrightarrow> r \<in> set (sql_select P ord lim rs)"
proof
  assume "ev_ID r \<in> ev_ID ` set (sql_select P ord lim rs)"
  then obtain x where x: "x \<in> set (sql_select P ord lim rs)" "ev_ID x = ev_ID r" by auto
  then have "x \<in> set rs" using set_sql_select by blast
  with x assms show "r \<in> set (sql_select P ord lim rs)" using table_ok_unique by metis
qed simp

context outbox_table begin

text \<open>Deleting the rows that were selected deletes just these.\<close>

lemma delete_selected:
  assumes "found = sql_select P IdAsc lim (rows w)"
  shows "filter (\<lambda>r. ev_ID r \<notin> ev_ID ` set found) (rows w) = filter (\<lambda>r. r \<notin> set found) (rows w)"
    and "matched_rows (\<lambda>r. ev_ID r \<in> ev_ID ` set found) (rows w) = int (length found)"
proof -
  have mem: "ev_ID r \<in> ev_ID ` set found \<longleftrightarrow> r \<in> set found" if "r \<in> set (rows w)" for r
    using selected_ids [OF rows_ok that] assms by simp
  then show "filter (\<lambda>r. ev_ID r \<notin> ev_ID ` set found) (rows w) = filter (\<lambda>r. r \<notin> set found) (rows w)"
    by (auto intro: filter_cong)
  have "distinct (rows w)" using distinct_rows distinct_map by blast
  then have "distinct (filter (\<lambda>r. r \<in> set found) (rows w))" "distinct found"
    using assms by (simp_all add: sql_select_def)
  moreover have "set (filter (\<lambda>r. r \<in> set found) (rows w)) = set found"
    using assms set_sql_select [of _ P IdAsc lim "rows w"] by (simp add: set_eq_iff) blast
  ultimately have "length (filter (\<lambda>r. r \<in> set found) (rows w)) = length found"
    by (metis distinct_card)
  moreover have "filter (\<lambda>r. ev_ID r \<in> ev_ID ` set found) (rows w) = filter (\<lambda>r. r \<in> set found) (rows w)"
    using mem by (auto intro: filter_cong)
  ultimately show "matched_rows (\<lambda>r. ev_ID r \<in> ev_ID ` set found) (rows w) = int (length found)"
    by (simp add: matched_rows_def)
qed

lemma cleanup_where_effect:
  assumes "cleanup_where env ctx limit P w = ((n, None), w')"
  shows "\<exists>gone rest. filter P (rows w) = gone @ rest \<and> n = int (length gone)
     \<and> rows w' = filter (\<lambda>r. r \<notin> set gone) (rows w)
     \<and> (limit \<le> 0 \<longrightarrow> rest = []) \<and> (0 < limit \<longrightarrow> n \<le> limit)"
proof (cases "0 < limit")
  case True
  obtain found w1 where find: "db_find env ctx P IdAsc limit w = (Inr found, w1)"
    using assms True by (auto simp: cleanup_where_def split: prod.splits sum.splits)
  have found: "found = sql_select P IdAsc limit (rows w)" "rows w1 = rows w"
    using find_ok [OF find] True by simp_all
  obtain rest where rest: "filter P (rows w) = found @ rest" using find_prefix found(1) by metis
  have len: "int (length found) \<le> limit" using True found(1) by (simp add: sql_select_def)
  show ?thesis
  proof (cases "found = []")
    case nil: True
    with assms True find have "n = 0" "w' = w1" by (auto simp: cleanup_where_def)
    with nil rest True found(2) show ?thesis by (intro exI [of _ "[]"] exI [of _ rest]) simp
  next
    case False
    with assms True find have "db_delete env ctx (\<lambda>r. ev_ID r \<in> ev_ID ` set found) w1 = (Inr n, w')"
      by (auto simp: cleanup_where_def split: prod.splits sum.splits)
    from delete_ok [OF this] delete_selected [OF found(1)] found(2) rest len True
    show ?thesis by (intro exI [of _ found] exI [of _ rest]) simp
  qed
next
  case False
  with assms have "db_delete env ctx P w = (Inr n, w')"
    by (auto simp: cleanup_where_def split: prod.splits sum.splits)
  from delete_ok [OF this] False show ?thesis
    by (intro exI [of _ "filter P (rows w)"] exI [of _ "[]"])
      (auto simp: matched_rows_def intro: filter_cong)
qed

lemma CleanupOutbox_effect:
  assumes run: "CleanupOutbox env lower ctx opts s w = ((n, None), s', w')"
    and sts: "sts = (if normalizeOutboxStatuses lower (co_Statuses opts) = [] then [OutboxStatusDead]
                     else normalizeOutboxStatuses lower (co_Statuses opts))"
    and P: "P = (\<lambda>r. ev_Status r \<in> set sts
                \<and> (co_OlderThan opts > 0 \<longrightarrow> ev_CreatedAt r \<le> fst (rt_now env w) - co_OlderThan opts))"
  shows "\<exists>gone rest. filter P (rows w) = gone @ rest \<and> n = int (length gone)
     \<and> rows w' = filter (\<lambda>r. r \<notin> set gone) (rows w)
     \<and> (co_Limit opts \<le> 0 \<longrightarrow> rest = []) \<and> (0 < co_Limit opts \<longrightarrow> n \<le> co_Limit opts)"
proof -
  let ?w1 = "if co_OlderThan opts > 0 then snd (rt_now env w) else w"
  have w1: "rows ?w1 = rows w" using now_rows by (metis prod.collapse)
  have "fst (ensureOutboxStore s) = None"
    using run by (cases "ensureOutboxStore s", cases "fst (ensureOutboxStore s)")
      (simp_all add: CleanupOutbox_def)
  then obtain s1 where "ensureOutboxStore s = (None, s1)" by (metis prod.collapse)
  then have "cleanup_where env ctx (co_Limit opts) P ?w1 = ((n, None), w')"
    using run unfolding CleanupOutbox_def Let_def split_def sts [symmetric]
    by (cases "co_OlderThan opts > 0") (simp_all add: P status_in_def [abs_def] prod_eq_iff)
  from cleanup_where_effect [OF this] show ?thesis unfolding w1 .
qed

lemma replay_where_effect:
  assumes "replay_where env ctx limit P w = ((n, None), w')"
  shows "\<exists>back rest. filter P (rows w) = back @ rest
     \<and> rows w' = map (\<lambda>r. if r \<in> set back then store_row cell (replay_set r) else r) (rows w)
     \<and> n \<le> int (length back) \<and> (limit \<le> 0 \<longrightarrow> rest = []) \<and> (0 < limit \<longrightarrow> n \<le> limit)"
proof (cases "0 < limit")
  case True
  obtain found w1 where find: "db_find env ctx P IdAsc limit w = (Inr found, w1)"
    using assms True by (auto simp: replay_where_def Let_def split: prod.splits sum.splits)
  have found: "found = sql_select P IdAsc limit (rows w)" "rows w1 = rows w"
    using find_ok [OF find] True by simp_all
  obtain rest where rest: "filter P (rows w) = found @ rest" using find_prefix found(1) by metis
  have len: "int (length found) \<le> limit" using True found(1) by (simp add: sql_select_def)
  show ?thesis
  proof (cases "found = []")
    case nil: True
    with assms True find have "n = 0" "w' = w1" by (auto simp: replay_where_def Let_def)
    with nil rest True found(2) show ?thesis by (intro exI [of _ "[]"] exI [of _ rest]) simp
  next
    case False
    with assms True find have
      "db_updates env ctx (\<lambda>r. ev_ID r \<in> ev_ID ` set found) replay_set w1 = (Inr n, w')"
      by (auto simp: replay_where_def Let_def split: prod.splits sum.splits)
    from updates_ok [OF this replay_keeps_id] delete_selected(2) [OF found(1)] found
    have upd: "rows w' = sql_update cell (\<lambda>r. ev_ID r \<in> ev_ID ` set found) replay_set (rows w)"
      "n \<le> int (length found)" by simp_all
    have "sql_update cell (\<lambda>r. ev_ID r \<in> ev_ID ` set found) replay_set (rows w)
        = map (\<lambda>r. if r \<in> set found then store_row cell (replay_set r) else r) (rows w)"
      using selected_ids [OF rows_ok, of _ w P IdAsc limit] found(1) by (simp add: sql_update_def)
    with upd rest len True show ?thesis by (intro exI [of _ found] exI [of _ rest]) simp
  qed
next
  case False
  with assms have "db_updates env ctx P replay_set w = (Inr n, w')"
    by (auto simp: replay_where_def Let_def split: prod.splits sum.splits)
  from updates_ok [OF this replay_keeps_id] False show ?thesis
    by (intro exI [of _ "filter P (rows w)"] exI [of _ "[]"])
      (auto simp: matched_rows_def sql_update_def)
qed

end

section \<open>Draining\<close>

definition drain_sums :: "OutboxDrainResult \<Rightarrow> bool" where
  "drain_sums r \<longleftrightarrow> 0 \<le> dr_Batches r \<and> dr_Remaining r = 0
     \<and> dr_Claimed r = dr_Processed r + dr_Retried r + dr_Dead r
     \<and> 0 \<le> dr_Processed r \<and> 0 \<le> dr_Retried r \<and> 0 \<le> dr_Dead r"

lemma drain_loop_bounded:
  "dr_Batches result \<le> maxBatches \<Longrightarrow> 0 < maxBatches \<Longrightarrow> 
     \<exists>y. drain_loop env ctx maxBatches result s w = Some y"
proof (induction "nat (maxBatches - dr_Batches result)" arbitrary: result s w)
  case 0
  then show ?case by (subst drain_loop.simps) simp
next
  case (Suc k)
  have "\<exists>y. drain_loop env ctx maxBatches (add_batch b result) s' w' = Some y" for b s' w'
    using Suc.hyps Suc.prems by (intro Suc.hyps(1)) (simp_all add: add_batch_def)
  then show ?case by (subst drain_loop.simps) (simp add: Let_def)
qed

lemma drain_sums_add:
  assumes "relay_table env rows cell" "runOutboxBatch env ctx s w = ((b, None), s', w')" "drain_sums r"
  shows "drain_sums (add_batch b r)"
  using runOutboxBatch_books [OF assms(1,2)] assms(3) by (simp add: drain_sums_def add_batch_def)

lemma drain_loop_result:
  "drain_loop env ctx maxBatches result s w = Some y \<Longrightarrow>
     relay_table env rows cell \<longrightarrow> drain_sums result \<longrightarrow> (0 < maxBatches \<longrightarrow> dr_Batches result \<le> maxBatches) \<longrightarrow>
     drain_sums (fst (fst y)) \<and> only_open (rows w) (rows (snd (snd y)))
     \<and> (0 < maxBatches \<longrightarrow> dr_Batches (fst (fst y)) \<le> maxBatches)"
proof (erule drain_loop.raw_induct [rotated], goal_cases)
  case (1 rec env ctx maxBatches result s w y)
  obtain b err s1 w1 where step: "runOutboxBatch env ctx s w = ((b, err), s1, w1)"
    by (metis prod.collapse)
  show ?case
  proof (intro impI)
    assume tbl: "relay_table env rows cell" and sums: "drain_sums result"
      and le: "0 < maxBatches \<longrightarrow> dr_Batches result \<le> maxBatches"
    note opn = relay_table.runOutboxBatch_only_open [OF tbl step, THEN conjunct1]
    consider "y = ((result, None), s, w)"
      | "y = ((result, err), s1, w1)"
      | "err = None" "maxBatches \<le> 0 \<or> dr_Batches result < maxBatches"
        "rec env ctx maxBatches (add_batch b result) s1 w1 = Some y"
      using 1(2) step by (auto simp: Let_def split: if_splits)
    then show "drain_sums (fst (fst y)) \<and> only_open (rows w) (rows (snd (snd y)))
      \<and> (0 < maxBatches \<longrightarrow> dr_Batches (fst (fst y)) \<le> maxBatches)"
    proof cases
      case 3
      have "drain_sums (add_batch b result)"
        using drain_sums_add [OF tbl _ sums] step 3(1) by metis
      moreover have "0 < maxBatches \<longrightarrow> dr_Batches (add_batch b result) \<le> maxBatches"
        using 3(2) by (auto simp: add_batch_def)
      ultimately have "drain_sums (fst (fst y)) \<and> only_open (rows w1) (rows (snd (snd y)))
          \<and> (0 < maxBatches \<longrightarrow> dr_Batches (fst (fst y)) \<le> maxBatches)"
        using 1(1) [OF 3(3)] tbl by blast
      with opn only_open_trans show ?thesis by blast
    qed (use sums opn le in auto)
  qed
qed

section \<open>A reference world for the operations\<close>

definition mem_ops :: "int \<Rightarrow> int \<Rightarrow> ('x relay_world_scheme, unit) ops_env_scheme" where
  "mem_ops dbn esn = mem_relay (ops_env_ext
     (\<lambda>ctx table unscoped w. (Inr dbn, w))
     (\<lambda>ctx alias w. (Inr \<lparr>cr_IsError = False, cr_Status = ''200 OK'', cr_payload = Inr esn\<rparr>, w)) ())"

definition sample_with :: "int \<Rightarrow> string \<Rightarrow> OutboxEvent" where
  "sample_with i st = (sample_row i)\<lparr>ev_Status := st\<rparr>"

section \<open>Properties\<close>

text \<open>
  The statuses an operator gives are normalised to a sorted list without duplicates of exactly
  the trimmed, lower-cased, non-empty ones.
\<close>

lemma normalizeOutboxStatuses_spec:
  "sorted (normalizeOutboxStatuses lower statuses)
   \<and> distinct (normalizeOutboxStatuses lower statuses)
   \<and> set (normalizeOutboxStatuses lower statuses) =
       {t. t \<noteq> [] \<and> (\<exists>st. st \<in> set statuses \<and> t = TrimSpace (ToLower lower st))}"
  using normalize_loop_facts [of "[]" lower statuses]
  by (auto simp: normalizeOutboxStatuses_def)

text \<open>
  A listing shows the newest rows first, at most the limit (100 where none is given), only rows
  of the requested statuses where some are requested, and no newer such row is left out; the table
  is not changed.
\<close>

lemma ListOutbox_newest_first:
  assumes "outbox_table env rows cell"
    and "ListOutbox env lower ctx opts s w = (Inr out, s', w')"
  shows "rows w' = rows w
    \<and> out = take (nat (if lo_Limit opts \<le> 0 then 100 else lo_Limit opts))
        (rev (filter (\<lambda>r. lo_Statuses opts = []
                         \<or> ev_Status r \<in> set (normalizeOutboxStatuses lower (lo_Statuses opts)))
               (rows w)))
    \<and> sorted_wrt (>) (map ev_ID out)"
proof -
  let ?lim = "if lo_Limit opts \<le> 0 then 100 else lo_Limit opts"
  let ?P = "\<lambda>r. lo_Statuses opts = []
     \<or> ev_Status r \<in> set (normalizeOutboxStatuses lower (lo_Statuses opts))"
  have "db_find env ctx ?P IdDesc ?lim w = (Inr out, w')"
    using assms(2) by (cases "lo_Statuses opts = []")
      (auto simp: ListOutbox_def Let_def status_in_def [abs_def]
        split: prod.splits option.splits sum.splits if_splits)
  from outbox_table.find_ok [OF assms(1) this]
  have out: "out = sql_select ?P IdDesc ?lim (rows w)" "rows w' = rows w" by auto
  have "sorted_wrt (<) (map ev_ID (filter ?P (rows w)))"
    using table_ok_filter [OF outbox_table.rows_ok [OF assms(1)]] by (simp add: table_ok_def)
  then have "sorted_wrt (>) (map ev_ID (take (nat ?lim) (rev (filter ?P (rows w)))))"
    by (simp add: rev_map [symmetric] sorted_wrt_rev take_map [symmetric] sorted_wrt_take)
  with out show ?thesis by (simp add: sql_select_def)
qed

lemma ListOutbox_newest_first_witness:
  "\<exists>out s' w'. ListOutbox (mem_db ()) id Background \<lparr>lo_Statuses = ['' DEAD''], lo_Limit = 1\<rparr>
       relay_syncer (sample_world [sample_with 1 OutboxStatusDead, sample_with 2 OutboxStatusDead,
          sample_row 3]) = (Inr out, s', w')
     \<and> sorted_wrt (>) (map ev_ID out)"
proof -
  let ?x = "ListOutbox (mem_db ()) id Background \<lparr>lo_Statuses = ['' DEAD''], lo_Limit = 1\<rparr>
       relay_syncer (sample_world [sample_with 1 OutboxStatusDead, sample_with 2 OutboxStatusDead,
          sample_row 3])"
  have "\<not> isl (fst ?x)" by code_simp
  then obtain out s' w' where x: "?x = (Inr out, s', w')" by (metis prod.collapse sum.collapse(2))
  from ListOutbox_newest_first [OF mem.outbox_table_axioms x] x show ?thesis by blast
qed

text \<open>
  A cleanup deletes only rows of the requested statuses (dead rows where none are requested)
  that are old enough, never more than the limit and then the oldest keys first; without a limit it
  deletes all of them.  It reports the number of rows that are gone, and leaves every other row.
\<close>

lemma CleanupOutbox_deletes_requested:
  assumes "outbox_table env rows cell"
    and "CleanupOutbox env lower ctx opts s w = ((n, None), s', w')"
    and "sts = (if normalizeOutboxStatuses lower (co_Statuses opts) = [] then [OutboxStatusDead]
                else normalizeOutboxStatuses lower (co_Statuses opts))"
    and "old = (\<lambda>r. ev_Status r \<in> set sts \<and>
           (co_OlderThan opts > 0 \<longrightarrow> ev_CreatedAt r \<le> fst (rt_now env w) - co_OlderThan opts))"
  shows "\<exists>gone rest. filter old (rows w) = gone @ rest \<and> n = int (length gone)
     \<and> rows w' = filter (\<lambda>r. r \<notin> set gone) (rows w)
     \<and> (co_Limit opts \<le> 0 \<longrightarrow> rest = []) \<and> (0 < co_Limit opts \<longrightarrow> n \<le> co_Limit opts)"
  by (rule outbox_table.CleanupOutbox_effect [OF assms])

lemma CleanupOutbox_deletes_requested_witness:
  "\<exists>n s' w'. CleanupOutbox (mem_db ()) id Background
        \<lparr>co_Statuses = [], co_OlderThan = 0, co_Limit = 1\<rparr> relay_syncer
        (sample_world [sample_with 1 OutboxStatusDead, sample_with 2 OutboxStatusDead, sample_row 3])
      = ((n, None), s', w') \<and> n \<le> 1 \<and> sample_row 3 \<in> set (mem_rows w')"
proof -
  let ?o = "\<lparr>co_Statuses = [], co_OlderThan = 0, co_Limit = 1\<rparr>"
  let ?w = "sample_world [sample_with 1 OutboxStatusDead, sample_with 2 OutboxStatusDead, sample_row 3]"
  let ?x = "CleanupOutbox (mem_db ()) id Background ?o relay_syncer ?w"
  have "snd (fst ?x) = None" by code_simp
  then obtain n s' w' where x: "?x = ((n, None), s', w')" by (metis prod.collapse)
  have k: "sample_row 3 \<in> set (mem_rows ?w)" "ev_Status (sample_row 3) \<noteq> OutboxStatusDead"
    by code_simp+
  from CleanupOutbox_deletes_requested [OF mem.outbox_table_axioms x refl refl]
  obtain gone rest where g: "filter (\<lambda>r. ev_Status r = OutboxStatusDead) (mem_rows ?w) = gone @ rest"
    "mem_rows w' = filter (\<lambda>r. r \<notin> set gone) (mem_rows ?w)" "n \<le> 1"
    by (auto simp: normalizeOutboxStatuses_def)
  have "sample_row 3 \<notin> set gone"
    using arg_cong [OF g(1), of set] k(2) by auto
  with g k x show ?thesis by auto
qed





definition reconcile_ok :: "ReconcileCountResult \<Rightarrow> bool" where
  "reconcile_ok item \<longleftrightarrow>
     (rc_Match item \<longleftrightarrow> rc_Err item = None \<and> rc_DBCount item = rc_ESCount item)"

lemma reconcile_entry_ok:
  "reconcile_entry env ctx entry w = (item, w') \<Longrightarrow>
     reconcile_ok item \<and> rc_Table item = me_tableName entry \<and> rc_Alias item = me_indexName entry"
  by (auto simp: reconcile_entry_def reconcile_ok_def Let_def
      split: prod.splits sum.splits if_splits)

lemma reconcile_loop_results:
  "reconcile_loop env ctx entries results w = (out, w') \<Longrightarrow> \<forall>item \<in> set results. reconcile_ok item \<Longrightarrow>
     map rc_Table out = map rc_Table results @ map me_tableName entries
     \<and> map rc_Alias out = map rc_Alias results @ map me_indexName entries
     \<and> (\<forall>item \<in> set out. reconcile_ok item)"
proof (induction entries arbitrary: results w)
  case Nil
  then show ?case by simp
next
  case (Cons entry entries)
  obtain item w1 where item: "reconcile_entry env ctx entry w = (item, w1)" by fastforce
  with Cons.prems(1) have "reconcile_loop env ctx entries (results @ [item]) w1 = (out, w')" by simp
  from Cons.IH [OF this] reconcile_entry_ok [OF item] Cons.prems(2) show ?case by auto
qed


definition sample_types :: model_types where
  "sample_types =
     \<lparr>mt_parse = (\<lambda>m. Inr \<lparr>sch_Table = m, sch_PrimaryFields = [], sch_Fields = []\<rparr>),
      mt_type = TOther, mt_TableName = (\<lambda>m. None)\<rparr>"

definition sample_registered :: Syncer where
  "sample_registered =
     relay_syncer\<lparr>sy_registry := snd (register sample_types ''t'' 10 [WithIndexName ''a''] [])\<rparr>"


end
