(* ===== verification/OutboxProtocol.thy ===== *)
theory OutboxProtocol imports OutboxOps begin

text \<open>
  The outbox as a protocol between any number of processes that share one table: a state machine
  whose steps are the single statements of the store, of the relay and of the operations, in any
  order and interleaving.  \<open>pr_leases\<close> and \<open>pr_acks\<close> are ghosts: the leases granted and the
  deliveries that Elasticsearch acknowledged.  Tokens are drawn from 16 random bytes; the step
  \<open>claim\<close> takes them to be fresh.  The refinement theorems say that the code of \<open>OutboxStore\<close> and
  \<open>OutboxRelay\<close> takes only these steps.
\<close>

section \<open>States and steps\<close>

record protocol =
  pr_rows :: "OutboxEvent list"
  pr_now :: time
  pr_leases :: "(int \<times> string) list"
  pr_acks :: "(int \<times> string) list"

definition protocol_init :: "time \<Rightarrow> protocol" where
  "protocol_init now = \<lparr>pr_rows = [], pr_now = now, pr_leases = [], pr_acks = []\<rparr>"

definition is_new_row :: "OutboxEvent list \<Rightarrow> OutboxEvent \<Rightarrow> bool" where
  "is_new_row rs r \<longleftrightarrow>
     0 < ev_ID r \<and> (\<forall>x \<in> set rs. ev_ID x < ev_ID r) \<and> ev_Status r = OutboxStatusPending
     \<and> ev_Attempts r = 0 \<and> ev_NextRetryAt r = None \<and> ev_LeasedUntil r = None
     \<and> ev_LeaseToken r = [] \<and> ev_SentAt r = None"

inductive protocol_step :: "(time \<Rightarrow> time) \<Rightarrow> duration \<Rightarrow> protocol \<Rightarrow> protocol \<Rightarrow> bool"
  for cell :: "time \<Rightarrow> time" and lease :: duration where
  insert: "is_new_row (pr_rows p) r \<Longrightarrow>
     protocol_step cell lease p (p\<lparr>pr_rows := pr_rows p @ [store_row cell r]\<rparr>)"
| tick: "pr_now p \<le> now \<Longrightarrow> protocol_step cell lease p (p\<lparr>pr_now := now\<rparr>)"
| claim: "t \<le> pr_now p \<Longrightarrow> r \<in> set (pr_rows p) \<Longrightarrow> claimable t r \<Longrightarrow>
     token \<noteq> [] \<Longrightarrow> token \<notin> snd ` set (pr_leases p) \<Longrightarrow>
     protocol_step cell lease p
       (p\<lparr>pr_leases := (ev_ID r, token) # pr_leases p,
          pr_rows := sql_update cell (\<lambda>x. ev_ID x = ev_ID r \<and> claimable t x)
                        (claim_set (t + lease) token) (pr_rows p)\<rparr>)"
| ack: "(i, token) \<in> set (pr_leases p) \<Longrightarrow>
     protocol_step cell lease p (p\<lparr>pr_acks := (i, token) # pr_acks p\<rparr>)"
| mark_sent: "(i, token) \<in> set (pr_acks p) \<Longrightarrow>
     protocol_step cell lease p
       (p\<lparr>pr_rows := sql_update cell (fenced i token) (sent_set t) (pr_rows p)\<rparr>)"
| mark_retry: "(i, token) \<in> set (pr_leases p) \<Longrightarrow>
     protocol_step cell lease p
       (p\<lparr>pr_rows := sql_update cell (fenced i token) (retry_set n t e) (pr_rows p)\<rparr>)"
| mark_dead: "(i, token) \<in> set (pr_leases p) \<Longrightarrow>
     protocol_step cell lease p
       (p\<lparr>pr_rows := sql_update cell (fenced i token) (dead_set n e) (pr_rows p)\<rparr>)"
| replay: "protocol_step cell lease p
       (p\<lparr>pr_rows := sql_update cell P replay_set (pr_rows p)\<rparr>)"
| cleanup: "protocol_step cell lease p (p\<lparr>pr_rows := filter (\<lambda>r. \<not> P r) (pr_rows p)\<rparr>)"

inductive protocol_reachable :: "(time \<Rightarrow> time) \<Rightarrow> duration \<Rightarrow> protocol \<Rightarrow> bool"
  for cell :: "time \<Rightarrow> time" and lease :: duration where
  init: "protocol_reachable cell lease (protocol_init now)"
| step: "protocol_reachable cell lease p \<Longrightarrow> protocol_step cell lease p p' \<Longrightarrow>
     protocol_reachable cell lease p'"

inductive_cases protocol_stepE: "protocol_step cell lease p p'"

section \<open>Invariants\<close>

text \<open>
  What every row satisfies, given the leases granted and the acknowledgements received so far.
\<close>

definition row_ok :: "(int \<times> string) list \<Rightarrow> (int \<times> string) list \<Rightarrow> OutboxEvent \<Rightarrow> bool" where
  "row_ok leases acks r \<longleftrightarrow>
     (ev_Status r = OutboxStatusPending \<or> ev_Status r = OutboxStatusProcessing
      \<or> ev_Status r = OutboxStatusSent \<or> ev_Status r = OutboxStatusDead)
     \<and> (ev_Status r = OutboxStatusProcessing \<longrightarrow>
          ev_LeasedUntil r \<noteq> None \<and> (ev_ID r, ev_LeaseToken r) \<in> set leases)
     \<and> (ev_Status r = OutboxStatusSent \<longrightarrow> ev_ID r \<in> fst ` set acks)"

definition protocol_ok :: "(time \<Rightarrow> time) \<Rightarrow> protocol \<Rightarrow> bool" where
  "protocol_ok cell p \<longleftrightarrow>
     table_ok cell (pr_rows p) \<and> distinct (map snd (pr_leases p)) \<and> [] \<notin> snd ` set (pr_leases p)
     \<and> set (pr_acks p) \<subseteq> set (pr_leases p)
     \<and> (\<forall>r \<in> set (pr_rows p). row_ok (pr_leases p) (pr_acks p) r)"

lemma row_ok_mono:
  "row_ok leases acks r \<Longrightarrow> set leases \<subseteq> set leases' \<Longrightarrow> set acks \<subseteq> set acks' \<Longrightarrow>
     row_ok leases' acks' r"
  by (auto simp: row_ok_def)

lemma row_ok_store [simp]: "row_ok leases acks (store_row cell r) \<longleftrightarrow> row_ok leases acks r"
  by (simp add: row_ok_def)

text \<open>The assignments of the statements, row by row.\<close>

lemma row_ok_sets:
  "(ev_ID r, token) \<in> set leases \<Longrightarrow> row_ok leases acks (claim_set u token r)"
  "(ev_ID r, token) \<in> set acks \<Longrightarrow> row_ok leases acks (sent_set t r)"
  "row_ok leases acks (retry_set n t e r)" "row_ok leases acks (dead_set n e r)"
  "row_ok leases acks (replay_set r)"
  by (force simp: row_ok_def)+

lemma protocol_ok_update:
  assumes "protocol_ok cell p" "keeps_id f" "\<And>t. cell (cell t) = cell t"
    and "\<And>r. P r \<Longrightarrow> row_ok (pr_leases p) (pr_acks p) (f r)"
  shows "protocol_ok cell (p\<lparr>pr_rows := sql_update cell P f (pr_rows p)\<rparr>)"
proof -
  have "row_ok (pr_leases p) (pr_acks p) x" if "x \<in> set (sql_update cell P f (pr_rows p))" for x
    using that assms(1,4) by (auto simp: in_sql_update protocol_ok_def split: if_splits)
  with assms(1-3) table_ok_update show ?thesis by (simp add: protocol_ok_def)
qed

lemma protocol_ok_grant:
  assumes "protocol_ok cell p" "token \<noteq> []" "token \<notin> snd ` set (pr_leases p)"
  shows "protocol_ok cell (p\<lparr>pr_leases := (i, token) # pr_leases p\<rparr>)"
proof -
  have "row_ok ((i, token) # pr_leases p) (pr_acks p) r" if "r \<in> set (pr_rows p)" for r
  proof -
    have "row_ok (pr_leases p) (pr_acks p) r" using assms(1) that by (simp add: protocol_ok_def)
    then show ?thesis by (rule row_ok_mono) auto
  qed
  with assms show ?thesis by (auto simp: protocol_ok_def)
qed

lemma protocol_ok_ack:
  assumes "protocol_ok cell p" "(i, token) \<in> set (pr_leases p)"
  shows "protocol_ok cell (p\<lparr>pr_acks := (i, token) # pr_acks p\<rparr>)"
proof -
  have "row_ok (pr_leases p) ((i, token) # pr_acks p) r" if "r \<in> set (pr_rows p)" for r
  proof -
    have "row_ok (pr_leases p) (pr_acks p) r" using assms(1) that by (simp add: protocol_ok_def)
    then show ?thesis by (rule row_ok_mono) auto
  qed
  with assms show ?thesis by (auto simp: protocol_ok_def)
qed

lemma table_ok_snoc:
  assumes "table_ok cell rs" "is_new_row rs r" "\<And>t. cell (cell t) = cell t"
  shows "table_ok cell (rs @ [store_row cell r])"
  using assms by (auto simp: table_ok_def is_new_row_def sorted_wrt_append store_row_idem)

lemma protocol_ok_step:
  assumes "protocol_step cell lease p p'" "protocol_ok cell p" "\<And>t. cell (cell t) = cell t"
  shows "protocol_ok cell p'"
  using assms(1)
proof cases
  case (insert r)
  have "row_ok (pr_leases p) (pr_acks p) r"
    using insert(2) by (simp add: is_new_row_def row_ok_def)
  with insert assms(2,3) table_ok_snoc show ?thesis by (auto simp: protocol_ok_def)
next
  case (tick now)
  with assms(2) show ?thesis by (simp add: protocol_ok_def)
next
  case (claim t r token)
  let ?q = "p\<lparr>pr_leases := (ev_ID r, token) # pr_leases p\<rparr>"
  have "protocol_ok cell (?q\<lparr>pr_rows := sql_update cell (\<lambda>x. ev_ID x = ev_ID r \<and> claimable t x)
      (claim_set (t + lease) token) (pr_rows ?q)\<rparr>)"
    by (rule protocol_ok_update [OF protocol_ok_grant [OF assms(2) claim(5,6)] _ assms(3)])
      (simp_all add: row_ok_sets)
  with claim(1) show ?thesis by simp
next
  case (ack i token)
  with protocol_ok_ack assms(2) show ?thesis by blast
next
  case (mark_sent i token t)
  show ?thesis unfolding mark_sent(1)
    by (rule protocol_ok_update [OF assms(2) _ assms(3)])
      (use mark_sent(2) in \<open>auto simp: fenced_def intro: row_ok_sets\<close>)
next
  case (mark_retry i token n t e)
  show ?thesis unfolding mark_retry(1)
    by (rule protocol_ok_update [OF assms(2) _ assms(3)]) (simp_all add: row_ok_sets)
next
  case (mark_dead i token n e)
  show ?thesis unfolding mark_dead(1)
    by (rule protocol_ok_update [OF assms(2) _ assms(3)]) (simp_all add: row_ok_sets)
next
  case (replay P)
  show ?thesis unfolding replay(1)
    by (rule protocol_ok_update [OF assms(2) _ assms(3)]) (auto simp: row_ok_sets)
next
  case (cleanup P)
  with assms(2) show ?thesis by (auto simp: protocol_ok_def table_ok_filter)
qed

lemma protocol_ok_reachable:
  assumes "protocol_reachable cell lease p" "\<And>t. cell (cell t) = cell t"
  shows "protocol_ok cell p"
  using assms(1)
proof induction
  case (init now)
  show ?case by (simp add: protocol_ok_def protocol_init_def table_ok_def)
next
  case (step p p')
  then show ?case using protocol_ok_step assms(2) by blast
qed

section \<open>The code takes protocol steps\<close>

lemma writeback_steps:
  assumes "(i, token) \<in> set (pr_leases p)" "d = OutboxStatusSent \<Longrightarrow> (i, token) \<in> set (pr_acks p)"
    and "is_outcome d"
  shows "protocol_step cell lease p
     (p\<lparr>pr_rows := sql_update cell (fenced i token) (relay_assignment s row d e now) (pr_rows p)\<rparr>)"
  using assms protocol_step.mark_sent [of i token p cell lease now]
    protocol_step.mark_retry [OF assms(1)] protocol_step.mark_dead [OF assms(1)]
  by (auto simp: is_outcome_def relay_assignment_def)

text \<open>
  C14. Refinement of the claim: the claim statement of one process, run against a table that any
  number of processes share, is a \<open>claim\<close> step of the protocol.
\<close>

theorem tryClaimRow_refines:
  assumes "outbox_table env rows cell"
    and "tryClaimRow env ctx i t (t + lease) token w = (Inr True, w')"
    and "pr_rows p = rows w" "t \<le> pr_now p" "token \<noteq> []" "token \<notin> snd ` set (pr_leases p)"
  shows "\<exists>p'. protocol_step cell lease p p' \<and> pr_rows p' = rows w' \<and> (i, token) \<in> set (pr_leases p')"
proof -
  obtain r where r: "r \<in> set (rows w)" "ev_ID r = i" "claimable t r"
    "rows w' = map (\<lambda>x. if x = r then store_row cell (claim_set (t + lease) token r) else x) (rows w)"
    using outbox_table.tryClaimRow_True [OF assms(1,2)] by blast
  have "sql_update cell (\<lambda>x. ev_ID x = ev_ID r \<and> claimable t x) (claim_set (t + lease) token) (rows w)
      = rows w'"
    unfolding r(4) by (rule sql_update_id [OF outbox_table.rows_ok [OF assms(1)] r(1)])
      (use r in auto)
  with protocol_step.claim [of t p r token cell lease] r(1-3) assms(3-6) show ?thesis
    by (intro exI conjI) (assumption | simp)+
qed

theorem tryClaimRow_refines_witness:
  "\<exists>w' p'. tryClaimRow (mem_db ()) Background 1 0 (0 + 30000000000) ''a'' (sample_world [sample_row 1])
        = (Inr True, w')
     \<and> protocol_step datetime_cell 30000000000 ((protocol_init 0)\<lparr>pr_rows := [sample_row 1]\<rparr>) p'
     \<and> pr_rows p' = mem_rows w'"
proof -
  let ?x = "tryClaimRow (mem_db ()) Background 1 0 (0 + 30000000000) ''a'' (sample_world [sample_row 1])"
  have "fst ?x = Inr True" by code_simp
  then obtain w' where x: "?x = (Inr True, w')" by (metis prod.collapse)
  have "mem_rows (sample_world [sample_row 1]) = [sample_row 1]" by code_simp
  with tryClaimRow_refines [OF mem.outbox_table_axioms x,
      of "(protocol_init 0)\<lparr>pr_rows := [sample_row 1]\<rparr>"] x
  show ?thesis by (auto simp: protocol_init_def)
qed

text \<open>
  C15. Refinement of the delivery: whatever Elasticsearch answers and whatever the database does,
  processing a row under a granted lease takes protocol steps only: the acknowledgement, if there
  was one, and at most one write-back; on an error of the write-back possibly none.
\<close>

theorem processOutboxRow_refines:
  assumes "relay_table env rows cell"
    and "processOutboxRow env ctx row s w = (res, s', w')"
    and "pr_rows p = rows w" "(ev_ID row, ev_LeaseToken row) \<in> set (pr_leases p)"
  shows "\<exists>p'. (protocol_step cell lease)\<^sup>*\<^sup>* p p' \<and> pr_rows p' = rows w'
     \<and> pr_leases p' = pr_leases p \<and> pr_now p' = pr_now p"
proof -
  obtain status sendErr w1 where
    send: "sendOutboxRow env (WithTimeout ctx (outboxSendTimeout s)) row w = ((status, sendErr), w1)"
    by (metis prod.collapse)
  let ?d = "relay_decision s row status sendErr"
  let ?q = "if ?d = OutboxStatusSent
            then p\<lparr>pr_acks := (ev_ID row, ev_LeaseToken row) # pr_acks p\<rparr> else p"
  have q: "(protocol_step cell lease)\<^sup>*\<^sup>* p ?q"
    using protocol_step.ack [OF assms(4)] by (simp add: r_into_rtranclp)
  have out: "is_outcome ?d"
    using relay_decision_cases [of s row status sendErr] by (auto simp: is_outcome_def)
  obtain now where "rows w' = rows w \<or> rows w' = sql_update cell (fenced (ev_ID row) (ev_LeaseToken row))
      (relay_assignment s row ?d sendErr now) (rows w)"
    using processOutboxRow_effect [OF assms(1) send assms(2)] by blast
  then show ?thesis
  proof
    assume "rows w' = rows w"
    with assms(3) show ?thesis by (intro exI [of _ p]) simp
  next
    assume "rows w' = sql_update cell (fenced (ev_ID row) (ev_LeaseToken row))
      (relay_assignment s row ?d sendErr now) (rows w)"
    moreover have "protocol_step cell lease ?q
       (?q\<lparr>pr_rows := sql_update cell (fenced (ev_ID row) (ev_LeaseToken row))
             (relay_assignment s row ?d sendErr now) (pr_rows ?q)\<rparr>)"
      by (rule writeback_steps [OF _ _ out]) (use assms(4) in auto)
    ultimately show ?thesis using q assms(3)
      by (intro exI conjI) (erule (1) rtranclp.rtrancl_into_rtrancl, simp_all)
  qed
qed

theorem processOutboxRow_refines_witness:
  "\<exists>res s' w' p'. processOutboxRow (mem_relay ()) Background (claimed_row 0) relay_syncer
       (relay_world [claimed_row 0] [Inr (es_status 503)] 0) = (res, s', w')
     \<and> (protocol_step datetime_cell 30000000000)\<^sup>*\<^sup>*
         \<lparr>pr_rows = [claimed_row 0], pr_now = 0, pr_leases = [(1, ''k'')], pr_acks = []\<rparr> p'
     \<and> pr_rows p' = mem_rows w'"
proof -
  obtain res s' w' where x: "processOutboxRow (mem_relay ()) Background (claimed_row 0) relay_syncer
       (relay_world [claimed_row 0] [Inr (es_status 503)] 0) = (res, s', w')"
    by (metis prod.collapse)
  have "mem_rows (relay_world [claimed_row 0] [Inr (es_status 503)] 0) = [claimed_row 0]"
    "ev_ID (claimed_row 0) = 1" "ev_LeaseToken (claimed_row 0) = ''k''"
    by code_simp+
  with processOutboxRow_refines [OF mem_relay.relay_table_axioms x,
      of "\<lparr>pr_rows = [claimed_row 0], pr_now = 0, pr_leases = [(1, ''k'')], pr_acks = []\<rparr>" 30000000000] x
  show ?thesis by auto
qed

section \<open>A sample run\<close>

text \<open>Two rows, claimed by two processes; the first delivery is acknowledged and marked.\<close>

definition sample_claimed :: protocol where
  "sample_claimed =
     \<lparr>pr_rows = [store_row datetime_cell (claim_set 30000000000 ''a'' (sample_row 1)),
                 store_row datetime_cell (claim_set 30000000000 ''b'' (sample_row 2))],
      pr_now = 0, pr_leases = [(2, ''b''), (1, ''a'')], pr_acks = []\<rparr>"

definition sample_sent :: protocol where
  "sample_sent =
     \<lparr>pr_rows = [store_row datetime_cell (sent_set 0 (claim_set 30000000000 ''a'' (sample_row 1))),
                 store_row datetime_cell (claim_set 30000000000 ''b'' (sample_row 2))],
      pr_now = 0, pr_leases = [(2, ''b''), (1, ''a'')], pr_acks = [(1, ''a'')]\<rparr>"

lemma step_to:
  "protocol_reachable cell lease p \<Longrightarrow> protocol_step cell lease p q \<Longrightarrow> q = p' \<Longrightarrow>
     protocol_reachable cell lease p'"
  using protocol_reachable.step by blast

lemma sample_claimed_reachable: "protocol_reachable datetime_cell 30000000000 sample_claimed"
proof -
  let ?p0 = "protocol_init 0"
  let ?p1 = "?p0\<lparr>pr_rows := pr_rows ?p0 @ [store_row datetime_cell (sample_row 1)]\<rparr>"
  let ?p2 = "?p1\<lparr>pr_rows := pr_rows ?p1 @ [store_row datetime_cell (sample_row 2)]\<rparr>"
  let ?p3 = "?p2\<lparr>pr_leases := (ev_ID (sample_row 1), ''a'') # pr_leases ?p2,
       pr_rows := sql_update datetime_cell (\<lambda>x. ev_ID x = ev_ID (sample_row 1) \<and> claimable 0 x)
         (claim_set (0 + 30000000000) ''a'') (pr_rows ?p2)\<rparr>"
  have "protocol_reachable datetime_cell 30000000000 ?p1"
    by (rule step_to [OF protocol_reachable.init protocol_step.insert refl]) code_simp
  then have "protocol_reachable datetime_cell 30000000000 ?p2"
    by (rule step_to [OF _ protocol_step.insert refl]) code_simp
  then have "protocol_reachable datetime_cell 30000000000 ?p3"
    by (rule step_to [OF _ protocol_step.claim refl]) code_simp+
  then show ?thesis
    by (rule step_to [OF _ protocol_step.claim [where r = "sample_row 2" and token = "''b''" and t = 0]])
      code_simp+
qed

lemma sample_sent_reachable: "protocol_reachable datetime_cell 30000000000 sample_sent"
proof -
  let ?p = "sample_claimed\<lparr>pr_acks := (1, ''a'') # pr_acks sample_claimed\<rparr>"
  have "protocol_reachable datetime_cell 30000000000 ?p"
    by (rule step_to [OF sample_claimed_reachable protocol_step.ack refl]) code_simp
  then show ?thesis
    by (rule step_to [OF _ protocol_step.mark_sent [where i = 1 and token = "''a''" and t = 0]])
      code_simp+
qed

section \<open>Properties\<close>







end
