(* ===== verification/RelayRuns.thy ===== *)
theory RelayRuns imports OutboxProtocol begin

text \<open>
  Concrete runs of the relay on the reference world that show the limits of at-least-once delivery:
  what a repeated delete and a retried older event do.
\<close>

text \<open>The world after two batches, the second one after the clock has advanced.\<close>

definition after_two :: "Syncer \<Rightarrow> duration \<Rightarrow> relay_world \<Rightarrow> relay_world" where
  "after_two s d w =
     (let (_, s, w) = runOutboxBatch (mem_relay ()) Background s w;
          (_, s, w) = runOutboxBatch (mem_relay ()) Background s (w\<lparr>mw_now := mw_now w + d\<rparr>)
      in w)"

text \<open>
  A delete that is delivered again does not converge: Elasticsearch answers 404 for a document
  that is already gone, and the relay declares the row dead and counts a dead letter.
\<close>

lemma repeated_delete_dies:
  "fst (fst (runOutboxBatch (mem_relay ()) Background relay_syncer
       (relay_world [(sample_row 1)\<lparr>ev_Action := actionDelete\<rparr>] [Inr (es_status 404)] 0)))
     = \<lparr>br_Claimed = 1, br_Processed = 0, br_Retried = 0, br_Dead = 1\<rparr>"
  by code_simp

text \<open>
  A retry can overtake: two events of one document, of which the older one first gets a 503.
  Both rows end as \<open>sent\<close>, and the last request for the document, acknowledged like the one before,
  carries the payload of the older event.
\<close>

lemma retried_event_overtakes:
  "let w = after_two relay_syncer (10 * Second)
         (relay_world [(sample_row 1)\<lparr>ev_Payload := ''old''\<rparr>, (sample_row 2)\<lparr>ev_Payload := ''new''\<rparr>]
            [Inr (es_status 503), Inr es_ok, Inr es_ok] 0)
   in map ev_Status (mem_rows w) = [OutboxStatusSent, OutboxStatusSent]
      \<and> rw_requests w = [IndexRequest ''a'' ''d'' ''old'', IndexRequest ''a'' ''d'' ''new'',
                         IndexRequest ''a'' ''d'' ''old'']"
  by code_simp

end
