(* ===== verification/SyncerLife.thy ===== *)
theory SyncerLife imports OutboxRelay begin

text \<open>
  The life of a \<open>Syncer\<close> (\<open>syncer.go\<close>): the constructor \<open>New\<close> with the transport of the
  Elasticsearch clients, registration from the configuration, \<open>Health\<close> and \<open>Shutdown\<close>.

  The clients, the bulk indexer and the file system are arguments (\<open>boot\<close>); logging is left out.
\<close>

section \<open>The clients\<close>

record http_transport =
  ht_DialTimeout :: duration
  ht_DialKeepAlive :: duration
  ht_TLSHandshakeTimeout :: duration
  ht_ResponseHeaderTimeout :: duration
  ht_MinVersion :: string
  ht_InsecureSkipVerify :: bool

record client_config =
  cc_Addresses :: "string list"
  cc_RetryOnStatus :: "int list"
  cc_MaxRetries :: int
  cc_Username :: string
  cc_Password :: string
  cc_CACert :: "string option"
  cc_Transport :: "http_transport option"

record bulk_config =
  bc_NumWorkers :: int
  bc_FlushBytes :: int
  bc_FlushInterval :: duration

fun skip_verify :: "string list \<Rightarrow> bool" where
  "skip_verify [] = False"
| "skip_verify (addr # addrs) = (take 8 addr = ''https://'' \<or> skip_verify addrs)"

text \<open>\<open>other\<close>: the type of \<open>http.DefaultTransport\<close> where the process has replaced it.\<close>

definition newElasticsearchTransport :: "string option \<Rightarrow> ESConfig \<Rightarrow> go_error + http_transport" where
  "newElasticsearchTransport other cfg =
     (let timeout = (if es_RequestTimeout cfg \<le> 0 then 5 * Second else es_RequestTimeout cfg)
      in case other of
           Some t \<Rightarrow> Inl (Err (''essyncer: unexpected default transport type '' @ t))
         | None \<Rightarrow>
             Inr \<lparr>ht_DialTimeout = timeout, ht_DialKeepAlive = 30 * Second,
                  ht_TLSHandshakeTimeout = timeout, ht_ResponseHeaderTimeout = timeout,
                  ht_MinVersion = ''TLS12'',
                  ht_InsecureSkipVerify = (es_AllowInsecureTLS cfg \<and> skip_verify (es_Addresses cfg))\<rparr>)"

definition newStartupContext :: "duration \<Rightarrow> go_ctx" where
  "newStartupContext timeout =
     WithTimeout Background (if timeout \<le> 0 then 5 * Second else timeout)"

section \<open>The constructor\<close>

record info_response =
  ir_IsError :: bool
  ir_Status :: string
  ir_String :: string

text \<open>\<open>own_bulk_indexer\<close> is the field \<open>newBulkIndexer\<close> before the constructor has filled it.\<close>

record 'w boot = "'w runtime" +
  default_transport :: "string option"
  os_ReadFile :: "string \<Rightarrow> go_error + string"
  json_Valid :: "string \<Rightarrow> bool"
  new_client :: "client_config \<Rightarrow> go_error option"
  new_typed_client :: "client_config \<Rightarrow> go_error option"
  es_info :: "go_ctx \<Rightarrow> 'w \<Rightarrow> (go_error + info_response) \<times> 'w"
  es_ping :: "go_ctx \<Rightarrow> 'w \<Rightarrow> (go_error + info_response) \<times> 'w"
  own_bulk_indexer :: "(bulk_config \<Rightarrow> 'w \<Rightarrow> go_error option \<times> 'w) option"
  esutil_NewBulkIndexer :: "bulk_config \<Rightarrow> 'w \<Rightarrow> go_error option \<times> 'w"
  close_indexer :: "go_ctx \<Rightarrow> 'w \<Rightarrow> go_error option \<times> 'w"

text \<open>The first mapping file of the configured tables that cannot be loaded.\<close>

fun validate_mappings ::
  "(string \<Rightarrow> go_error + string) \<Rightarrow> (string \<Rightarrow> bool) \<Rightarrow> TableConfig list \<Rightarrow> go_error option" where
  "validate_mappings read_file json_valid [] = None"
| "validate_mappings read_file json_valid (tc # tcs) =
     (if tc_MappingFile tc \<noteq> []
      then case LoadMappingFromFile read_file json_valid (tc_MappingFile tc) of
             Inl verr \<Rightarrow> Some (Errorf (''essyncer: validate mapping '' @ tc_Model tc @ '': '') verr [])
           | Inr _ \<Rightarrow> validate_mappings read_file json_valid tcs
      else validate_mappings read_file json_valid tcs)"

text \<open>The value of the configuration for the clients, without and with its certificate.\<close>

definition client_config_of :: "ESConfig \<Rightarrow> client_config" where
  "client_config_of es =
     \<lparr>cc_Addresses = es_Addresses es, cc_RetryOnStatus = es_RetryOnStatus es,
      cc_MaxRetries = es_MaxRetries es,
      cc_Username = (if es_Username es \<noteq> [] then es_Username es else []),
      cc_Password = (if es_Username es \<noteq> [] then es_Password es else []),
      cc_CACert = None, cc_Transport = None\<rparr>"

definition with_ca_cert ::
  "(string \<Rightarrow> go_error + string) \<Rightarrow> ESConfig \<Rightarrow> client_config \<Rightarrow> go_error + client_config" where
  "with_ca_cert read_file es cc =
     (if es_CACert es \<noteq> []
      then case read_file (es_CACert es) of
             Inl err \<Rightarrow> Inl (Errorf ''essyncer: read ca cert: '' err [])
           | Inr cert \<Rightarrow> Inr (cc\<lparr>cc_CACert := Some cert\<rparr>)
      else Inr cc)"

definition bulk_config_of :: "SyncConfig \<Rightarrow> bulk_config" where
  "bulk_config_of sc =
     \<lparr>bc_NumWorkers = max (sc_Workers sc) 1,
      bc_FlushBytes = (if sc_FlushBytes sc \<le> 0 then 5242880 else sc_FlushBytes sc),
      bc_FlushInterval = (if sc_FlushInterval sc \<le> 0 then 2 * Second else sc_FlushInterval sc)\<rparr>"

text \<open>The \<open>OnError\<close> callback of the shared indexer.\<close>

definition bulk_indexer_error :: "('w, 'm) runtime_scheme \<Rightarrow> go_error \<Rightarrow> Syncer \<Rightarrow> 'w \<Rightarrow> Syncer \<times> 'w" where
  "bulk_indexer_error env err s w =
     recordFailure env
       (zero_FailureEvent\<lparr>fe_Source := failureSourceCallback, fe_Error := err_text err\<rparr>) s w"

definition configured :: "bool \<Rightarrow> Config \<Rightarrow> Option list \<Rightarrow> Syncer" where
  "configured db cfg opts =
     (let s = zero_Syncer db (normalizeOutboxConfig cfg);
          s = fold (\<lambda>opt s. opt s) opts s;
          s = initObservability s
      in s\<lparr>sy_cfg := normalizeOutboxConfig (sy_cfg s), sy_outbox := True\<rparr>)"

definition New ::
  "('w, 'm) boot_scheme \<Rightarrow> bool \<Rightarrow> Config \<Rightarrow> Option list \<Rightarrow> 'w \<Rightarrow> (go_error + Syncer) \<times> 'w" where
  "New env db cfg opts w =
     (let s = configured db cfg opts;
          eff = sy_cfg s
      in case validate_mappings (os_ReadFile env) (json_Valid env) (sc_Tables (cfg_Sync eff)) of
           Some err \<Rightarrow> (Inl err, w)
         | None \<Rightarrow>
       (case with_ca_cert (os_ReadFile env) (cfg_Elasticsearch eff)
               (client_config_of (cfg_Elasticsearch eff)) of
          Inl err \<Rightarrow> (Inl err, w)
        | Inr cc \<Rightarrow>
       (case newElasticsearchTransport (default_transport env) (cfg_Elasticsearch eff) of
          Inl err \<Rightarrow> (Inl err, w)
        | Inr transport \<Rightarrow>
            let cc = cc\<lparr>cc_Transport := Some transport\<rparr>
            in case new_client env cc of
                 Some err \<Rightarrow> (Inl (Errorf ''essyncer: create es client: '' err []), w)
               | None \<Rightarrow>
       (case new_typed_client env cc of
          Some err \<Rightarrow> (Inl (Errorf ''essyncer: create typed client: '' err []), w)
        | None \<Rightarrow>
       (case es_info env (newStartupContext (es_RequestTimeout (cfg_Elasticsearch eff))) w of
          (Inl err, w) \<Rightarrow>
            (Inl (Errorf (if errors_is err ErrDeadlineExceeded then ''essyncer: es info timeout: ''
                          else ''essyncer: es info: '') err []), w)
        | (Inr res, w) \<Rightarrow>
            if ir_IsError res then (Inl (Err (''essyncer: es error: '' @ ir_String res)), w)
            else (case (case own_bulk_indexer env of Some f \<Rightarrow> f | None \<Rightarrow> esutil_NewBulkIndexer env)
                         (bulk_config_of (cfg_Sync eff)) w of
                    (Some err, w) \<Rightarrow> (Inl (Errorf ''essyncer: create bulk indexer: '' err []), w)
                  | (None, w) \<Rightarrow> (Inr (s\<lparr>sy_indexer := True\<rparr>), w)))))))"

text \<open>\<open>field\<close> is \<open>newBulkIndexer\<close> of the syncer, \<open>None\<close> where it is nil.\<close>

definition makeBulkIndexer ::
  "('w, 'm) boot_scheme \<Rightarrow> (bulk_config \<Rightarrow> 'w \<Rightarrow> go_error option \<times> 'w) option \<Rightarrow> bulk_config \<Rightarrow> 'w
     \<Rightarrow> go_error option \<times> 'w" where
  "makeBulkIndexer env field cfg w =
     (case field of
        Some f \<Rightarrow> f cfg w
      | None \<Rightarrow>
          (case esutil_NewBulkIndexer env cfg w of
             (Some err, w) \<Rightarrow> (Some (Errorf ''essyncer: new bulk indexer: '' err []), w)
           | (None, w) \<Rightarrow> (None, w)))"

section \<open>Registration\<close>

definition Register ::
  "model_types \<Rightarrow> string \<Rightarrow> RegisterOption list \<Rightarrow> Syncer \<Rightarrow> go_error option \<times> Syncer" where
  "Register mt model opts s =
     (let (err, r) = register mt model (sc_DefaultBatchSize (cfg_Sync (sy_cfg s))) opts (sy_registry s)
      in (err, s\<lparr>sy_registry := r\<rparr>))"

definition Unregister :: "model_types \<Rightarrow> string \<Rightarrow> Syncer \<Rightarrow> Syncer" where
  "Unregister mt model s = s\<lparr>sy_registry := unregister mt model (sy_registry s)\<rparr>"

definition table_options ::
  "(string \<Rightarrow> go_error + string) \<Rightarrow> (string \<Rightarrow> bool) \<Rightarrow> TableConfig \<Rightarrow> RegisterOption list" where
  "table_options read_file json_valid tc =
     (if tc_IndexName tc \<noteq> [] then [WithIndexName (tc_IndexName tc)] else [])
     @ (if tc_MappingFile tc \<noteq> [] then [WithMappingFile read_file json_valid (tc_MappingFile tc)] else [])
     @ (if tc_BatchSize tc > 0 then [WithBatchSize (tc_BatchSize tc)] else [])
     @ (case tc_AutoSync tc of Some b \<Rightarrow> [WithAutoSync b] | None \<Rightarrow> [])
     @ (if tc_SoftDeleteMode tc \<noteq> [] then [WithSoftDeleteMode (tc_SoftDeleteMode tc)] else [])
     @ [WithFullDocUpdate (tc_FullDocUpdate tc)]"

fun register_tables ::
  "(string \<Rightarrow> go_error + string) \<Rightarrow> (string \<Rightarrow> bool) \<Rightarrow> model_types \<Rightarrow> (string \<rightharpoonup> string)
     \<Rightarrow> TableConfig list \<Rightarrow> Syncer \<Rightarrow> go_error option \<times> Syncer" where
  "register_tables read_file json_valid mt models [] s = (None, s)"
| "register_tables read_file json_valid mt models (tc # tcs) s =
     (case models (tc_Model tc) of
        None \<Rightarrow> register_tables read_file json_valid mt models tcs s
      | Some model \<Rightarrow>
          (case Register mt model (table_options read_file json_valid tc) s of
             (Some err, s) \<Rightarrow> (Some (Errorf (''essyncer: register '' @ tc_Model tc @ '': '') err []), s)
           | (None, s) \<Rightarrow> register_tables read_file json_valid mt models tcs s))"

definition RegisterFromConfig ::
  "(string \<Rightarrow> go_error + string) \<Rightarrow> (string \<Rightarrow> bool) \<Rightarrow> model_types \<Rightarrow> (string \<rightharpoonup> string) \<Rightarrow> Syncer
     \<Rightarrow> go_error option \<times> Syncer" where
  "RegisterFromConfig read_file json_valid mt models s =
     register_tables read_file json_valid mt models (sc_Tables (cfg_Sync (sy_cfg s))) s"

definition GetTableConfig :: "string \<Rightarrow> Syncer \<Rightarrow> TableConfig option" where
  "GetTableConfig modelName s = find (\<lambda>tc. tc_Model tc = modelName) (sc_Tables (cfg_Sync (sy_cfg s)))"

section \<open>Health and shutdown\<close>

definition Health :: "('w, 'm) boot_scheme \<Rightarrow> go_ctx \<Rightarrow> Syncer \<Rightarrow> 'w \<Rightarrow> go_error option \<times> 'w" where
  "Health env ctx s w =
     (if sy_stopped s then (Some (Err ''essyncer: stopped''), w)
      else case sy_relayPanic s of
        Some message \<Rightarrow> (Some (Err (''essyncer: '' @ message)), w)
      | None \<Rightarrow>
          (case es_ping env ctx w of
             (Inl err, w) \<Rightarrow> (Some (Errorf ''essyncer: ping: '' err []), w)
           | (Inr res, w) \<Rightarrow>
               if ir_IsError res then (Some (Err (''essyncer: unhealthy: '' @ ir_Status res)), w)
               else (None, w)))"

text \<open>
  \<open>relayGone\<close>: the relays end before the context does (by then every relay has run its exit).  The
  flag of the result tells whether a relay was cancelled.
\<close>

definition Shutdown ::
  "('w, 'm) boot_scheme \<Rightarrow> go_ctx \<Rightarrow> bool \<Rightarrow> go_error \<Rightarrow> Syncer \<Rightarrow> 'w
     \<Rightarrow> go_error option \<times> bool \<times> Syncer \<times> 'w" where
  "Shutdown env ctx relayGone ctxErr s w =
     (let s = s\<lparr>sy_stopped := True\<rparr>;
          cancelled = stopOutboxRelay s;
          waitErr = waitOutboxRelay ctx relayGone ctxErr;
          s = (if ctx \<noteq> NilCtx \<and> relayGone \<and> sy_relayRunning s then relay_exit s else s)
      in if \<not> sy_indexer s then (waitErr, cancelled, s, w)
         else (case close_indexer env ctx w of
                 (closeErr, w) \<Rightarrow>
                   (errors_Join [waitErr,
                      map_option (\<lambda>err. Errorf ''essyncer: shutdown: '' err []) closeErr],
                    cancelled, s, w)))"

section \<open>Facts\<close>

lemma validate_mappings_None:
  "validate_mappings read_file json_valid tcs = None \<longleftrightarrow>
     (\<forall>tc \<in> set tcs. tc_MappingFile tc \<noteq> [] \<longrightarrow>
        (\<exists>data. read_file (tc_MappingFile tc) = Inr data \<and> json_valid data))"
  by (induction tcs) (auto simp: LoadMappingFromFile_def split: sum.splits if_splits)

lemma bulk_config_of_ok:
  "1 \<le> bc_NumWorkers (bulk_config_of sc) \<and> 0 < bc_FlushBytes (bulk_config_of sc)
   \<and> 0 < bc_FlushInterval (bulk_config_of sc)"
  by (simp add: bulk_config_of_def)

lemma configured_ok:
  "outbox_config_ok (cfg_Outbox (sy_cfg (configured db cfg opts)))"
  "sy_outbox (configured db cfg opts)" "sy_failures (configured db cfg opts) \<noteq> None"
  by (simp_all add: configured_def Let_def initObservability_def split: option.splits)

text \<open>The table of a configuration, where its model is known and can be parsed.\<close>

definition table_of :: "model_types \<Rightarrow> (string \<rightharpoonup> string) \<Rightarrow> TableConfig \<Rightarrow> string option" where
  "table_of mt models tc =
     (case models (tc_Model tc) of
        None \<Rightarrow> None
      | Some m \<Rightarrow> (case mt_parse mt m of Inl _ \<Rightarrow> None | Inr sch \<Rightarrow> Some (sch_Table sch)))"

definition entry_as_configured ::
  "(string \<Rightarrow> go_error + string) \<Rightarrow> int \<Rightarrow> TableConfig \<Rightarrow> modelEntry \<Rightarrow> bool" where
  "entry_as_configured read_file dflt tc e \<longleftrightarrow>
     me_indexName e = (if tc_IndexName tc \<noteq> [] then tc_IndexName tc else me_tableName e)
   \<and> me_batchSize e = (if 0 < tc_BatchSize tc then tc_BatchSize tc else dflt)
   \<and> me_autoSync e = IsAutoSync tc
   \<and> me_softDeleteMode e = (if tc_SoftDeleteMode tc \<noteq> [] then tc_SoftDeleteMode tc else SoftDeleteModeUpdate)
   \<and> me_fullDocUpdate e = tc_FullDocUpdate tc
   \<and> me_mapping e = (if tc_MappingFile tc \<noteq> []
        then (case read_file (tc_MappingFile tc) of Inr data \<Rightarrow> Some data | Inl _ \<Rightarrow> None) else None)"

lemma fold_opt_if:
  "fold (\<lambda>opt. opt) (if b then [f] else []) e = (if b then f e else e)"
  "fold (\<lambda>opt. opt) (case x of Some y \<Rightarrow> [g y] | None \<Rightarrow> []) e = (case x of Some y \<Rightarrow> g y e | None \<Rightarrow> e)"
  by (simp_all split: option.split)

lemmas option_defs = WithIndexName_def WithBatchSize_def WithAutoSync_def WithSoftDeleteMode_def
  WithFullDocUpdate_def WithMappingFile_def

text \<open>What the options of a configuration make of a fresh entry.\<close>

lemma table_options_fold:
  "fold (\<lambda>opt e. opt e) (table_options read_file json_valid tc) e =
     WithFullDocUpdate (tc_FullDocUpdate tc)
       ((if tc_SoftDeleteMode tc \<noteq> [] then WithSoftDeleteMode (tc_SoftDeleteMode tc) else id)
         ((case tc_AutoSync tc of Some b \<Rightarrow> WithAutoSync b | None \<Rightarrow> id)
           ((if tc_BatchSize tc > 0 then WithBatchSize (tc_BatchSize tc) else id)
             ((if tc_MappingFile tc \<noteq> []
               then WithMappingFile read_file json_valid (tc_MappingFile tc) else id)
               ((if tc_IndexName tc \<noteq> [] then WithIndexName (tc_IndexName tc) else id) e)))))"
  by (simp add: table_options_def fold_opt_if split: option.split)

lemma table_options_entry:
  assumes "e = fold (\<lambda>opt e. opt e) (table_options read_file json_valid tc) e0" "me_optionErr e = None"
    and e0: "me_optionErr e0 = None" "me_indexName e0 = me_tableName e0" "me_mapping e0 = None"
      "me_batchSize e0 = dflt" "me_autoSync e0" "me_softDeleteMode e0 = SoftDeleteModeUpdate"
  shows "me_tableName e = me_tableName e0 \<and> entry_as_configured read_file dflt tc e"
proof -
  have "tc_MappingFile tc \<noteq> [] \<Longrightarrow>
      \<exists>data. LoadMappingFromFile read_file json_valid (tc_MappingFile tc) = Inr data
        \<and> read_file (tc_MappingFile tc) = Inr data"
    using assms(1,2) e0(1)
    by (cases "LoadMappingFromFile read_file json_valid (tc_MappingFile tc)")
      (auto simp: table_options_fold option_defs setOptionError_def LoadMappingFromFile_Inr
        split: option.splits if_splits)
  then show ?thesis
    unfolding assms(1) table_options_fold entry_as_configured_def
    by (cases "tc_AutoSync tc"; cases "tc_MappingFile tc = []")
      (auto simp: option_defs e0 IsAutoSync_def)
qed

lemma Register_table_options:
  assumes "Register mt m (table_options read_file json_valid tc) s = (None, s')"
    and "mt_parse mt m = Inr sch"
  shows "sy_cfg s' = sy_cfg s \<and> (\<exists>e. sy_registry s' = AList.update (sch_Table sch) e (sy_registry s)
    \<and> me_tableName e = sch_Table sch
    \<and> entry_as_configured read_file (sc_DefaultBatchSize (cfg_Sync (sy_cfg s))) tc e)"
proof -
  let ?e0 = "\<lparr>me_modelType = m, me_schema = Some sch, me_tableName = sch_Table sch,
     me_indexName = sch_Table sch, me_mapping = None, me_optionErr = None,
     me_batchSize = sc_DefaultBatchSize (cfg_Sync (sy_cfg s)), me_autoSync = True,
     me_softDeleteMode = SoftDeleteModeUpdate, me_fullDocUpdate = False,
     me_hasSoftDelete = hasSoftDeleteField (mt_type mt m),
     me_fullSyncScan = Some (newDefaultFullSyncScanStrategy sch)\<rparr>"
  define e where "e = fold (\<lambda>opt e. opt e) (table_options read_file json_valid tc) ?e0"
  have none: "me_optionErr e = None"
    and s': "s' = s\<lparr>sy_registry := AList.update (sch_Table sch) e (sy_registry s)\<rparr>"
    using assms by (auto simp: Register_def register_def Let_def e_def split: option.splits prod.splits)
  from table_options_entry [OF e_def none] have "me_tableName e = sch_Table sch
      \<and> entry_as_configured read_file (sc_DefaultBatchSize (cfg_Sync (sy_cfg s))) tc e" by simp
  with s' show ?thesis by auto
qed

text \<open>Of several configurations of one table the last one counts.\<close>

lemma register_tables_last_wins:
  "register_tables read_file json_valid mt models tcs s = (None, s') \<Longrightarrow>
     sy_cfg s' = sy_cfg s
   \<and> (case rev (filter (\<lambda>tc. table_of mt models tc = Some t) tcs) of
        [] \<Rightarrow> map_of (sy_registry s') t = map_of (sy_registry s) t
      | tc # _ \<Rightarrow> \<exists>e. map_of (sy_registry s') t = Some e \<and> me_tableName e = t
           \<and> entry_as_configured read_file (sc_DefaultBatchSize (cfg_Sync (sy_cfg s))) tc e)"
proof (induction tcs arbitrary: s)
  case Nil
  then show ?case by simp
next
  case (Cons tc tcs)
  show ?case
  proof (cases "models (tc_Model tc)")
    case None
    with Cons show ?thesis by (simp add: table_of_def)
  next
    case (Some m)
    with Cons.prems obtain s1 where reg: "Register mt m (table_options read_file json_valid tc) s = (None, s1)"
      and rest: "register_tables read_file json_valid mt models tcs s1 = (None, s')"
      by (auto split: prod.splits option.splits)
    then obtain sch where sch: "mt_parse mt m = Inr sch"
      by (cases "mt_parse mt m") (auto simp: Register_def register_def)
    from Register_table_options [OF reg sch] obtain e where e: "sy_cfg s1 = sy_cfg s"
      "sy_registry s1 = AList.update (sch_Table sch) e (sy_registry s)" "me_tableName e = sch_Table sch"
      "entry_as_configured read_file (sc_DefaultBatchSize (cfg_Sync (sy_cfg s))) tc e" by blast
    have tab: "table_of mt models tc = Some (sch_Table sch)" using Some sch by (simp add: table_of_def)
    from Cons.IH [OF rest] e tab show ?thesis
      by (cases "rev (filter (\<lambda>tc. table_of mt models tc = Some t) tcs)")
        (auto simp: update_conv' split: if_splits)
  qed
qed

section \<open>A reference process\<close>

definition mem_boot :: "('x mem_world_scheme) boot" where
  "mem_boot =
     \<lparr>rt_now = (\<lambda>w. (mw_now w, w)), rt_ctx_err = mem_ctx_err, default_transport = None,
      os_ReadFile = (\<lambda>path. if path = ''m.json'' then Inr ''{}'' else Inl (Err ''no such file'')),
      json_Valid = (\<lambda>data. data = ''{}''), new_client = (\<lambda>cc. None), new_typed_client = (\<lambda>cc. None),
      es_info = (\<lambda>ctx w. (Inr \<lparr>ir_IsError = False, ir_Status = ''200 OK'', ir_String = []\<rparr>, w)),
      es_ping = (\<lambda>ctx w. (Inr \<lparr>ir_IsError = False, ir_Status = ''200 OK'', ir_String = []\<rparr>, w)),
      own_bulk_indexer = None, esutil_NewBulkIndexer = (\<lambda>cfg w. (None, w)),
      close_indexer = (\<lambda>ctx w. (Some (Err ''flush''), w))\<rparr>"

definition sample_table :: "string \<Rightarrow> int \<Rightarrow> TableConfig" where
  "sample_table index' batch =
     \<lparr>tc_Model = ''Article'', tc_IndexName = index', tc_MappingFile = ''m.json'', tc_BatchSize = batch,
      tc_AutoSync = Some False, tc_SoftDeleteMode = [], tc_FullDocUpdate = True\<rparr>"

definition sample_config :: Config where
  "sample_config = DefaultConfig
     \<lparr>cfg_Sync := (cfg_Sync DefaultConfig)\<lparr>sc_Tables := [sample_table ''a'' 5, sample_table [] 0]\<rparr>,
      cfg_Outbox := \<lparr>oc_PollInterval = 0, oc_BatchSize = - 3, oc_MaxAttempts = 0, oc_Lease = 0\<rparr>\<rparr>"

definition article_types :: model_types where
  "article_types =
     \<lparr>mt_parse = (\<lambda>m. Inr \<lparr>sch_Table = ''articles'', sch_PrimaryFields = [], sch_Fields = []\<rparr>),
      mt_type = TOther, mt_TableName = (\<lambda>m. None)\<rparr>"

section \<open>Properties\<close>

text \<open>
  C28. A syncer that the constructor returns is ready: every configured mapping file could be read
  and is JSON, Elasticsearch answered the start-up request without an error, the outbox settings are
  positive whatever the configuration and the options were, and the shared indexer was made with at
  least one worker and positive flush limits.
\<close>

theorem New_ready:
  assumes "New env db cfg opts w = (Inr s, w')"
  shows "outbox_config_ok (cfg_Outbox (sy_cfg s)) \<and> sy_outbox s \<and> sy_indexer s \<and> sy_failures s \<noteq> None
    \<and> (\<forall>tc \<in> set (sc_Tables (cfg_Sync (sy_cfg s))). tc_MappingFile tc \<noteq> [] \<longrightarrow>
         (\<exists>data. os_ReadFile env (tc_MappingFile tc) = Inr data \<and> json_Valid env data))
    \<and> (\<exists>res w1 bc. es_info env (newStartupContext (es_RequestTimeout (cfg_Elasticsearch (sy_cfg s)))) w
           = (Inr res, w1) \<and> \<not> ir_IsError res
         \<and> (case own_bulk_indexer env of Some f \<Rightarrow> f | None \<Rightarrow> esutil_NewBulkIndexer env) bc w1 = (None, w')
         \<and> 1 \<le> bc_NumWorkers bc \<and> 0 < bc_FlushBytes bc \<and> 0 < bc_FlushInterval bc)"
proof -
  let ?s = "configured db cfg opts"
  from assms obtain res w1 where run: "s = ?s\<lparr>sy_indexer := True\<rparr>"
    "validate_mappings (os_ReadFile env) (json_Valid env) (sc_Tables (cfg_Sync (sy_cfg ?s))) = None"
    "es_info env (newStartupContext (es_RequestTimeout (cfg_Elasticsearch (sy_cfg ?s)))) w = (Inr res, w1)"
    "\<not> ir_IsError res"
    "(case own_bulk_indexer env of Some f \<Rightarrow> f | None \<Rightarrow> esutil_NewBulkIndexer env)
       (bulk_config_of (cfg_Sync (sy_cfg ?s))) w1 = (None, w')"
    by (auto simp: New_def Let_def split: option.splits sum.splits prod.splits if_splits)
  note files = run(2) [unfolded validate_mappings_None]
  note bulk = bulk_config_of_ok [of "cfg_Sync (sy_cfg ?s)"]
  have "outbox_config_ok (cfg_Outbox (sy_cfg s)) \<and> sy_outbox s \<and> sy_indexer s \<and> sy_failures s \<noteq> None"
    using run(1) configured_ok [of db cfg opts] by simp
  moreover have "sy_cfg s = sy_cfg ?s" using run(1) by simp
  ultimately show ?thesis using files bulk run(3-5) by metis
qed

theorem New_ready_witness:
  "\<exists>s w'. New mem_boot True sample_config [WithOutboxLease (- 1)] (sample_world []) = (Inr s, w')
     \<and> outbox_config_ok (cfg_Outbox (sy_cfg s))"
proof -
  let ?run = "New mem_boot True sample_config [WithOutboxLease (- 1)] (sample_world [])"
  have "\<not> isl (fst ?run)" by code_simp
  then obtain s w' where run: "?run = (Inr s, w')" by (cases ?run; cases "fst ?run") auto
  from New_ready [OF this] run show ?thesis by blast
qed

text \<open>
  C36. Registration from the configuration: for every table that some configuration names, the
  registered entry is what the last of these configurations says (index name, batch size with the
  default for the others, auto-sync, soft-delete mode, document mode and mapping), and tables that no
  configuration names keep their entry.
\<close>

theorem RegisterFromConfig_last_wins:
  assumes "RegisterFromConfig read_file json_valid mt models s = (None, s')"
  shows "case rev (filter (\<lambda>tc. table_of mt models tc = Some t) (sc_Tables (cfg_Sync (sy_cfg s)))) of
      [] \<Rightarrow> registry_get (sy_registry s') t = registry_get (sy_registry s) t
    | tc # _ \<Rightarrow> \<exists>e. registry_get (sy_registry s') t = Some e \<and> me_tableName e = t
        \<and> entry_as_configured read_file (sc_DefaultBatchSize (cfg_Sync (sy_cfg s))) tc e"
  unfolding registry_get_def
  by (rule register_tables_last_wins [OF assms [unfolded RegisterFromConfig_def], THEN conjunct2])

theorem RegisterFromConfig_last_wins_witness:
  "\<exists>s' e. RegisterFromConfig (os_ReadFile (mem_boot :: mem_world boot)) (json_Valid (mem_boot :: mem_world boot))
       article_types (\<lambda>m. if m = ''Article'' then Some m else None) (zero_Syncer True sample_config) = (None, s')
     \<and> registry_get (sy_registry s') ''articles'' = Some e
     \<and> me_indexName e = ''articles'' \<and> me_batchSize e = 1000 \<and> \<not> me_autoSync e"
proof -
  let ?models = "\<lambda>m :: string. if m = ''Article'' then Some m else None"
  let ?s = "zero_Syncer True sample_config"
  let ?run = "RegisterFromConfig (os_ReadFile (mem_boot :: mem_world boot)) (json_Valid (mem_boot :: mem_world boot))
    article_types ?models ?s"
  have "fst ?run = None" by code_simp
  then obtain s' where run: "?run = (None, s')" by (cases ?run) auto
  have tables: "rev (filter (\<lambda>tc. table_of article_types ?models tc = Some ''articles'')
      (sc_Tables (cfg_Sync (sy_cfg ?s)))) = [sample_table [] 0, sample_table ''a'' 5]"
    "sc_DefaultBatchSize (cfg_Sync (sy_cfg ?s)) = 1000"
    by code_simp+
  from RegisterFromConfig_last_wins [OF run, of "''articles''"] run show ?thesis
    unfolding tables by (auto simp: entry_as_configured_def sample_table_def IsAutoSync_def)
qed

text \<open>
  A panic of the relay stays visible: from then on \<open>Health\<close> fails, and it still does after
  the relay has been started again.
\<close>

lemma relay_panic_visible:
  assumes "recoverRelayPanic env (Some v) s w = (s1, w1)"
    and "StartOutboxRelay ctx1 (relay_exit s1) = (err, s2, started)"
  shows "fst (Health env' ctx s1 w2) \<noteq> None \<and> fst (Health env' ctx s2 w2) \<noteq> None"
proof -
  have "sy_relayPanic (fst (recordFailure env e s w)) = sy_relayPanic s" for e s w
    by (simp add: recordFailure_def initObservability_def Let_def split_def split: option.splits)
  with assms(1) have p1: "sy_relayPanic s1 = Some (''outbox relay panicked: '' @ v)"
    by (auto simp: recoverRelayPanic_def Let_def dest!: arg_cong [where f = fst])
  with assms(2) have p2: "sy_relayPanic s2 = Some (''outbox relay panicked: '' @ v)"
    by (auto simp: StartOutboxRelay_def ensureOutboxStore_def relay_exit_def split: if_splits)
  from p1 p2 show ?thesis by (simp add: Health_def)
qed

lemma relay_panic_visible_witness:
  "\<exists>s1 s2 started. StartOutboxRelay Background (relay_exit s1) = (None, s2, Some started)
     \<and> fst (Health mem_boot Background s2 (sample_world [])) \<noteq> None"
proof -
  obtain s1 w1 where panic: "recoverRelayPanic mem_boot (Some ''nil'') relay_syncer (sample_world []) = (s1, w1)"
    by fastforce
  have "\<not> sy_stopped (fst (recoverRelayPanic mem_boot (Some ''nil'') relay_syncer (sample_world [])))
      \<and> sy_db (fst (recoverRelayPanic mem_boot (Some ''nil'') relay_syncer (sample_world [])))" by code_simp
  with panic obtain s2 started where start: "StartOutboxRelay Background (relay_exit s1) = (None, s2, Some started)"
    by (cases "sy_outbox s1") (auto simp: StartOutboxRelay_def relay_exit_def ensureOutboxStore_def)
  have "fst (Health mem_boot Background s2 (sample_world [])) \<noteq> None"
    by (rule relay_panic_visible [OF panic start, THEN conjunct2])
  with start show ?thesis by blast
qed

text \<open>
  \<open>Shutdown\<close> always stops the syncer, cancels a relay that holds its context, and closes the
  shared indexer even when the wait for the relay fails; it returns nil exactly when both steps did,
  and an error that carries the error of each step that failed.
\<close>

lemma Shutdown_does_both:
  assumes "Shutdown env ctx relayGone ctxErr s w = (err, cancelled, s', w')" "sy_indexer s"
  shows "sy_stopped s' \<and> cancelled = sy_relayCancel s
    \<and> (\<exists>closeErr. close_indexer env ctx w = (closeErr, w')
        \<and> (err = None \<longleftrightarrow> ctx \<noteq> NilCtx \<and> relayGone \<and> closeErr = None)
        \<and> (ctx \<noteq> NilCtx \<and> \<not> relayGone \<longrightarrow> (\<exists>e. err = Some e \<and> errors_is e ctxErr))
        \<and> (\<forall>c. closeErr = Some c \<longrightarrow> (\<exists>e. err = Some e \<and> errors_is e c)))"
proof -
  obtain closeErr w1 where close: "close_indexer env ctx w = (closeErr, w1)" by fastforce
  with assms show ?thesis
    by (cases closeErr)
      (auto simp: Shutdown_def Let_def stopOutboxRelay_def waitOutboxRelay_def errors_Join_def relay_exit_def
        split: if_splits)
qed

lemma Shutdown_does_both_witness:
  "\<exists>e s' w'. Shutdown mem_boot Background False ErrDeadlineExceeded (relay_syncer\<lparr>sy_indexer := True\<rparr>)
       (sample_world []) = (Some e, False, s', w')
     \<and> errors_is e ErrDeadlineExceeded \<and> errors_is e (Err ''flush'') \<and> sy_stopped s'"
proof -
  let ?s = "relay_syncer\<lparr>sy_indexer := True\<rparr>"
  obtain err c s' w' where run: "Shutdown mem_boot Background False ErrDeadlineExceeded ?s (sample_world [])
      = (err, c, s', w')" by (metis prod.collapse)
  have "\<not> sy_relayCancel ?s" by code_simp
  moreover have "close_indexer mem_boot Background (sample_world []) = (Some (Err ''flush''), sample_world [])"
    by (simp add: mem_boot_def)
  ultimately show ?thesis using Shutdown_does_both [OF run] run by auto
qed

end
