(* ===== verification/RelayLife.thy ===== *)
theory RelayLife imports SyncerLife begin

text \<open>
  The relay under interleaved calls: any number of \<open>StartOutboxRelay\<close> and \<open>RunOutboxRelay\<close> calls
  and a \<open>Shutdown\<close>.  The critical sections of \<open>relayMu\<close> are one step each; a call of
  \<open>RunOutboxRelay\<close> is two steps, its checks and its critical section, since it looks at \<open>stopped\<close>
  before it takes the lock; \<open>Shutdown\<close> is three.
\<close>

section \<open>States and steps\<close>

datatype shutdown_phase = NotShut | Stored | Cancelled | Waited

text \<open>The phases come in this order.\<close>

fun phase_number :: "shutdown_phase \<Rightarrow> nat" where
  "phase_number NotShut = 0" | "phase_number Stored = 1"
| "phase_number Cancelled = 2" | "phase_number Waited = 3"

lemma phase_number_inject: "phase_number a = phase_number b \<Longrightarrow> a = b"
  by (cases a; cases b) simp_all

instantiation shutdown_phase :: linorder
begin

definition less_eq_shutdown_phase :: "shutdown_phase \<Rightarrow> shutdown_phase \<Rightarrow> bool" where
  "less_eq_shutdown_phase a b \<longleftrightarrow> phase_number a \<le> phase_number b"

definition less_shutdown_phase :: "shutdown_phase \<Rightarrow> shutdown_phase \<Rightarrow> bool" where
  "less_shutdown_phase a b \<longleftrightarrow> phase_number a < phase_number b"

instance
  by standard (auto simp: less_eq_shutdown_phase_def less_shutdown_phase_def intro: phase_number_inject)

end

text \<open>
  \<open>rl_loops\<close>: relays in their loop; \<open>rl_cancelled\<close>: the context of the latest relay was cancelled by
  \<open>stopOutboxRelay\<close>; \<open>rl_entering\<close>: calls of \<open>RunOutboxRelay\<close> between their checks and the lock.
\<close>

record relay_life =
  rl_syncer :: Syncer
  rl_loops :: nat
  rl_cancelled :: bool
  rl_entering :: nat
  rl_phase :: shutdown_phase

definition life_init :: "Syncer \<Rightarrow> relay_life" where
  "life_init s = \<lparr>rl_syncer = s, rl_loops = 0, rl_cancelled = False, rl_entering = 0, rl_phase = NotShut\<rparr>"

inductive life_step :: "relay_life \<Rightarrow> relay_life \<Rightarrow> bool" where
  start: "StartOutboxRelay ctx (rl_syncer p) = (None, s', Some relayCtx) \<Longrightarrow>
     life_step p (p\<lparr>rl_syncer := s', rl_loops := rl_loops p + 1, rl_cancelled := False\<rparr>)"
| start_not: "StartOutboxRelay ctx (rl_syncer p) = (err, s', None) \<Longrightarrow>
     life_step p (p\<lparr>rl_syncer := s'\<rparr>)"
| run_check: "RunOutboxRelay_check ctx (rl_syncer p) = (None, s') \<Longrightarrow>
     life_step p (p\<lparr>rl_syncer := s', rl_entering := rl_entering p + 1\<rparr>)"
| run_fail: "RunOutboxRelay_check ctx (rl_syncer p) = (Some err, s') \<Longrightarrow>
     life_step p (p\<lparr>rl_syncer := s'\<rparr>)"
| run_enter: "0 < rl_entering p \<Longrightarrow> RunOutboxRelay_enter (rl_syncer p) = (None, s') \<Longrightarrow>
     life_step p (p\<lparr>rl_syncer := s', rl_entering := rl_entering p - 1, rl_loops := rl_loops p + 1,
                    rl_cancelled := False\<rparr>)"
| run_refused: "0 < rl_entering p \<Longrightarrow> RunOutboxRelay_enter (rl_syncer p) = (Some err, s') \<Longrightarrow>
     life_step p (p\<lparr>rl_syncer := s', rl_entering := rl_entering p - 1\<rparr>)"
| exit: "0 < rl_loops p \<Longrightarrow>
     life_step p (p\<lparr>rl_syncer := relay_exit (rl_syncer p), rl_loops := rl_loops p - 1\<rparr>)"
| panic: "0 < rl_loops p \<Longrightarrow>
     life_step p (p\<lparr>rl_syncer := (rl_syncer p)\<lparr>sy_relayPanic := Some message\<rparr>\<rparr>)"
| shut_store: "rl_phase p = NotShut \<Longrightarrow>
     life_step p (p\<lparr>rl_syncer := (rl_syncer p)\<lparr>sy_stopped := True\<rparr>, rl_phase := Stored\<rparr>)"
| shut_cancel: "rl_phase p = Stored \<Longrightarrow>
     life_step p (p\<lparr>rl_cancelled := (rl_cancelled p \<or> stopOutboxRelay (rl_syncer p)),
                    rl_phase := Cancelled\<rparr>)"
| shut_wait: "rl_phase p = Cancelled \<Longrightarrow> rl_loops p = 0 \<Longrightarrow>
     life_step p (p\<lparr>rl_phase := Waited\<rparr>)"

inductive life_reachable :: "Syncer \<Rightarrow> relay_life \<Rightarrow> bool" for s where
  init: "life_reachable s (life_init s)"
| step: "life_reachable s p \<Longrightarrow> life_step p p' \<Longrightarrow> life_reachable s p'"

inductive_cases life_stepE: "life_step p p'"

section \<open>The invariant\<close>

definition fresh_relay :: "Syncer \<Rightarrow> bool" where
  "fresh_relay s \<longleftrightarrow> \<not> sy_relayRunning s \<and> \<not> sy_relayCancel s \<and> \<not> sy_stopped s"

definition life_ok :: "relay_life \<Rightarrow> bool" where
  "life_ok p \<longleftrightarrow>
     rl_loops p \<le> 1
   \<and> (sy_relayRunning (rl_syncer p) \<longleftrightarrow> rl_loops p = 1)
   \<and> (sy_relayCancel (rl_syncer p) \<longleftrightarrow> rl_loops p = 1)
   \<and> (sy_stopped (rl_syncer p) \<longleftrightarrow> rl_phase p \<noteq> NotShut)"

lemma life_ok_init: "fresh_relay s \<Longrightarrow> life_ok (life_init s)"
  by (simp add: life_ok_def life_init_def fresh_relay_def)

lemma StartOutboxRelay_result:
  "StartOutboxRelay ctx s = (err, s', started) \<Longrightarrow>
     sy_stopped s' = sy_stopped s \<and> (started = None \<longrightarrow> sy_relayRunning s' = sy_relayRunning s
       \<and> sy_relayCancel s' = sy_relayCancel s)
   \<and> (started \<noteq> None \<longrightarrow> \<not> sy_stopped s \<and> \<not> sy_relayRunning s \<and> sy_relayRunning s' \<and> sy_relayCancel s')"
  by (auto simp: StartOutboxRelay_def ensureOutboxStore_def split: if_splits)

lemma RunOutboxRelay_check_result:
  "RunOutboxRelay_check ctx s = (err, s') \<Longrightarrow>
     sy_stopped s' = sy_stopped s \<and> sy_relayRunning s' = sy_relayRunning s
   \<and> sy_relayCancel s' = sy_relayCancel s \<and> (err = None \<longrightarrow> \<not> sy_stopped s)"
  by (auto simp: RunOutboxRelay_check_def ensureOutboxStore_def split: if_splits)

lemma RunOutboxRelay_enter_result:
  "RunOutboxRelay_enter s = (err, s') \<Longrightarrow>
     sy_stopped s' = sy_stopped s
   \<and> (err \<noteq> None \<longrightarrow> s' = s \<and> sy_relayRunning s)
   \<and> (err = None \<longrightarrow> \<not> sy_relayRunning s \<and> sy_relayRunning s' \<and> sy_relayCancel s')"
  by (auto simp: RunOutboxRelay_enter_def split: if_splits)

lemmas relay_call_results = StartOutboxRelay_result RunOutboxRelay_check_result RunOutboxRelay_enter_result

lemma life_ok_step: "life_step p p' \<Longrightarrow> life_ok p \<Longrightarrow> life_ok p'"
  by (erule life_stepE)
    (auto simp: life_ok_def relay_exit_def dest!: relay_call_results)

lemma life_ok_reachable: "life_reachable s p \<Longrightarrow> fresh_relay s \<Longrightarrow> life_ok p"
  by (induction rule: life_reachable.induct) (auto intro: life_ok_init life_ok_step)

definition life_path :: "Syncer \<Rightarrow> relay_life \<Rightarrow> bool" where
  "life_path s p \<longleftrightarrow> fresh_relay s \<and> life_reachable s p"

lemma life_ok_path: "life_path s p \<Longrightarrow> life_ok p"
  using life_ok_reachable by (auto simp: life_path_def)

lemma fresh_relay_syncer: "fresh_relay relay_syncer"
  by (simp add: fresh_relay_def relay_syncer_def zero_Syncer_def)

text \<open>A shutdown never goes back, and \<open>stopped\<close> is set from its first step on.\<close>

lemma phase_advances_step: "life_step p p' \<Longrightarrow> rl_phase p \<le> rl_phase p'"
  by (erule life_stepE) (simp_all add: less_eq_shutdown_phase_def)

lemma phase_advances: "life_step\<^sup>*\<^sup>* p p' \<Longrightarrow> rl_phase p \<le> rl_phase p'"
  by (induction rule: rtranclp_induct) (auto dest: phase_advances_step)

lemma stays_stopped:
  assumes "life_path s p" "life_step\<^sup>*\<^sup>* p p'" "sy_stopped (rl_syncer p)"
  shows "sy_stopped (rl_syncer p')"
proof -
  from assms(2) life_ok_path [OF assms(1)] have "life_ok p'"
    by (induction rule: rtranclp_induct) (auto intro: life_ok_step)
  moreover have "NotShut < rl_phase p'"
    using phase_advances [OF assms(2)] life_ok_path [OF assms(1)] assms(3)
    by (cases "rl_phase p") (auto simp: life_ok_def less_shutdown_phase_def less_eq_shutdown_phase_def)
  ultimately show ?thesis by (auto simp: life_ok_def)
qed

section \<open>After a shutdown\<close>

definition shut_for_good :: "relay_life \<Rightarrow> bool" where
  "shut_for_good p \<longleftrightarrow> life_ok p \<and> rl_phase p = Waited \<and> rl_entering p = 0 \<and> rl_loops p = 0"

lemma shut_for_good_step: "life_step p p' \<Longrightarrow> shut_for_good p \<Longrightarrow> shut_for_good p'"
  using life_ok_step [of p p']
  by (erule_tac life_stepE)
    (auto simp: shut_for_good_def life_ok_def dest!: relay_call_results)

lemma shut_for_good_steps: "life_step\<^sup>*\<^sup>* p p' \<Longrightarrow> shut_for_good p \<Longrightarrow> shut_for_good p'"
  by (induction rule: rtranclp_induct) (auto intro: shut_for_good_step)

section \<open>Properties\<close>

text \<open>The states of a run in which a call of \<open>RunOutboxRelay\<close> and a \<open>Shutdown\<close> overlap.\<close>

lemma overtaken_run:
  "\<exists>p. life_reachable relay_syncer p \<and> rl_phase p = Waited \<and> rl_loops p = 1 \<and> \<not> rl_cancelled p"
proof -
  let ?p0 = "life_init relay_syncer"
  let ?s1 = "relay_syncer\<lparr>sy_outbox := True\<rparr>"
  have syncer: "\<not> sy_stopped relay_syncer" "sy_db relay_syncer" "\<not> sy_relayRunning relay_syncer"
    "\<not> sy_relayCancel relay_syncer" "\<not> sy_outbox relay_syncer"
    by (simp_all add: relay_syncer_def zero_Syncer_def)
  note step = life_reachable.step
  have "life_step ?p0 (?p0\<lparr>rl_syncer := ?s1, rl_entering := rl_entering ?p0 + 1\<rparr>)"
    by (rule run_check [of Background])
      (use syncer in \<open>simp add: RunOutboxRelay_check_def ensureOutboxStore_def life_init_def\<close>)
  from step [OF life_reachable.init this] have p1: "life_reachable relay_syncer
      \<lparr>rl_syncer = ?s1, rl_loops = 0, rl_cancelled = False, rl_entering = 1, rl_phase = NotShut\<rparr>"
    by (simp add: life_init_def)
  from step [OF p1 shut_store] have p2: "life_reachable relay_syncer
      \<lparr>rl_syncer = ?s1\<lparr>sy_stopped := True\<rparr>, rl_loops = 0, rl_cancelled = False, rl_entering = 1,
       rl_phase = Stored\<rparr>" by simp
  from step [OF p2 shut_cancel] syncer have p3: "life_reachable relay_syncer
      \<lparr>rl_syncer = ?s1\<lparr>sy_stopped := True\<rparr>, rl_loops = 0, rl_cancelled = False, rl_entering = 1,
       rl_phase = Cancelled\<rparr>" by (simp add: stopOutboxRelay_def)
  from step [OF p3 shut_wait] have p4: "life_reachable relay_syncer
      \<lparr>rl_syncer = ?s1\<lparr>sy_stopped := True\<rparr>, rl_loops = 0, rl_cancelled = False, rl_entering = 1,
       rl_phase = Waited\<rparr>" by simp
  from step [OF p4 run_enter] syncer have "life_reachable relay_syncer
      \<lparr>rl_syncer = ?s1\<lparr>sy_stopped := True, sy_relayCancel := True, sy_relayRunning := True\<rparr>,
       rl_loops = 1, rl_cancelled = False, rl_entering = 0, rl_phase = Waited\<rparr>"
    by (simp add: RunOutboxRelay_enter_def)
  then show ?thesis by (metis relay_life.select_convs(2,3,5))
qed

text \<open>
  C21. At most one relay loop runs at any time, whatever calls of \<open>StartOutboxRelay\<close>,
  \<open>RunOutboxRelay\<close>, exits, panics and \<open>Shutdown\<close> come in whatever order; the flag and the cancel
  function of the syncer are set exactly while it runs, and no relay is started by
  \<open>StartOutboxRelay\<close> once \<open>Shutdown\<close> has begun.
\<close>

theorem single_relay_loop:
  assumes "life_path s p"
  shows "rl_loops p \<le> 1
    \<and> (sy_relayRunning (rl_syncer p) \<longleftrightarrow> rl_loops p = 1)
    \<and> (sy_relayCancel (rl_syncer p) \<longleftrightarrow> rl_loops p = 1)
    \<and> (StartOutboxRelay ctx (rl_syncer p) = (err, s', Some started) \<longrightarrow> rl_phase p = NotShut)"
proof -
  from assms have "life_ok p" by (rule life_ok_path)
  then show ?thesis by (auto simp: life_ok_def dest!: StartOutboxRelay_result)
qed

theorem single_relay_loop_witness:
  "\<exists>p. life_reachable relay_syncer p \<and> rl_loops p = 1 \<and> sy_relayCancel (rl_syncer p)"
proof -
  obtain p where p: "life_reachable relay_syncer p" "rl_loops p = 1" using overtaken_run by blast
  from p(1) fresh_relay_syncer have "life_path relay_syncer p" by (simp add: life_path_def)
  from single_relay_loop [OF this] p show ?thesis by blast
qed

text \<open>
  C22. A \<open>Shutdown\<close> that has waited for the relay is final as long as no call of \<open>RunOutboxRelay\<close> is
  between its checks and the lock: whatever is called afterwards, no relay runs again.
\<close>

theorem shutdown_final:
  assumes "life_path s p" "rl_phase p = Waited" "rl_entering p = 0" "rl_loops p = 0"
    and "life_step\<^sup>*\<^sup>* p q"
  shows "rl_loops q = 0 \<and> \<not> sy_relayRunning (rl_syncer q)"
proof -
  from assms(1) have "life_ok p" by (rule life_ok_path)
  with assms(2-4) have "shut_for_good p" by (simp add: shut_for_good_def)
  from shut_for_good_steps [OF assms(5) this] show ?thesis
    by (simp add: shut_for_good_def life_ok_def)
qed

theorem shutdown_final_witness:
  "\<exists>p. life_path relay_syncer p \<and> rl_phase p = Waited \<and> \<not> sy_relayRunning (rl_syncer p)"
proof -
  let ?p = "(life_init relay_syncer)\<lparr>rl_syncer := relay_syncer\<lparr>sy_stopped := True\<rparr>, rl_phase := Waited\<rparr>"
  note step = life_reachable.step
  have syncer: "\<not> sy_relayCancel relay_syncer" using fresh_relay_syncer by (simp add: fresh_relay_def)
  from step [OF life_reachable.init shut_store] have p1: "life_reachable relay_syncer
      ((life_init relay_syncer)\<lparr>rl_syncer := relay_syncer\<lparr>sy_stopped := True\<rparr>, rl_phase := Stored\<rparr>)"
    by (simp add: life_init_def)
  from step [OF p1 shut_cancel] syncer have p2: "life_reachable relay_syncer
      ((life_init relay_syncer)\<lparr>rl_syncer := relay_syncer\<lparr>sy_stopped := True\<rparr>, rl_phase := Cancelled\<rparr>)"
    by (simp add: life_init_def stopOutboxRelay_def)
  from step [OF p2 shut_wait] fresh_relay_syncer have path: "life_path relay_syncer ?p"
    by (simp add: life_init_def life_path_def)
  from shutdown_final [OF path _ _ _ rtranclp.rtrancl_refl] path show ?thesis
    by (auto simp: life_init_def)
qed

text \<open>
  The condition is needed: \<open>RunOutboxRelay\<close> looks at \<open>stopped\<close> before it takes the lock, so a call
  that has passed its checks starts a relay after \<open>Shutdown\<close> has returned, with a context that
  nothing cancelled.
\<close>

lemma run_outlives_shutdown:
  "\<exists>p. life_path relay_syncer p \<and> rl_phase p = Waited \<and> rl_loops p = 1 \<and> \<not> rl_cancelled p
     \<and> sy_stopped (rl_syncer p)"
proof -
  obtain p where p: "life_reachable relay_syncer p" "rl_phase p = Waited" "rl_loops p = 1"
    "\<not> rl_cancelled p" using overtaken_run by blast
  then have path: "life_path relay_syncer p" by (simp add: life_path_def fresh_relay_syncer)
  with p life_ok_path [OF path] show ?thesis by (auto simp: life_ok_def)
qed

end
