(* ===== verification/AutoSync.thy ===== *)
theory AutoSync imports OutboxStore begin

text \<open>
  Automatic synchronisation: the gorm callbacks that turn a write of the application into rows of
  the outbox (\<open>callback.go\<close>) and the writing of these rows inside the transaction of the write
  (\<open>autosync_tx.go\<close>).

  A \<open>reflect.Value\<close> is an \<open>rvalue\<close> with a flag for \<open>CanAddr\<close>; a model instance is known by its type
  and its columns, so that reading a field through gorm's schema is reading a column.  A \<open>gdb\<close> is
  the \<open>*gorm.DB\<close> that a callback gets.  Registering callbacks, the interface \<open>Syncable\<close> and the
  execution of a transaction are arguments.
\<close>

section \<open>Values seen by reflection\<close>

datatype rvalue =
    RInvalid
  | RPtr "rvalue option"
  | RIface "rvalue option"
  | RSlice "rvalue list"
  | RArray "rvalue list"
  | RStruct go_any
  | RMap "(string \<times> go_any) list"
  | ROther

text \<open>An element of a slice or array, whether it is addressable, and the models it gives.\<close>

fun unwrap_iface :: "bool \<times> rvalue \<Rightarrow> bool \<times> rvalue" where
  "unwrap_iface (addr, RIface (Some v)) = unwrap_iface (False, v)"
| "unwrap_iface (addr, RIface None) = (False, RInvalid)"
| "unwrap_iface (addr, v) = (addr, v)"

definition element_models :: "bool \<Rightarrow> rvalue \<Rightarrow> rvalue list" where
  "element_models addr elem =
     (case unwrap_iface (addr, elem) of
        (_, RPtr (Some v)) \<Rightarrow> [RPtr (Some v)]
      | (_, RPtr None) \<Rightarrow> []
      | (addr, v) \<Rightarrow> if addr then [RPtr (Some v)] else [])"

fun extractModels :: "bool \<Rightarrow> rvalue \<Rightarrow> rvalue list" where
  "extractModels addr (RPtr (Some v)) = extractModels True v"
| "extractModels addr (RIface (Some v)) = extractModels False v"
| "extractModels addr (RSlice elems) = concat (map (element_models True) elems)"
| "extractModels addr (RArray elems) = concat (map (element_models addr) elems)"
| "extractModels addr (RStruct m) = (if addr then [RPtr (Some (RStruct m))] else [])"
| "extractModels addr v = []"

text \<open>The instance behind pointers and interfaces; \<open>None\<close> where one of them is nil.\<close>

fun instance_of :: "rvalue \<Rightarrow> rvalue option" where
  "instance_of (RPtr (Some v)) = instance_of v"
| "instance_of (RIface (Some v)) = instance_of v"
| "instance_of (RPtr None) = None"
| "instance_of (RIface None) = None"
| "instance_of v = Some v"

text \<open>The column of an instance, and whether a value is the zero value of its Go type.\<close>

definition column_value :: "Field \<Rightarrow> rvalue \<Rightarrow> go_any" where
  "column_value f v =
     (case v of
        RStruct (GoModel t cols) \<Rightarrow> (case map_of cols (fd_DBName f) of Some x \<Rightarrow> x | None \<Rightarrow> GoNil)
      | _ \<Rightarrow> GoNil)"

definition zero_value :: "go_any \<Rightarrow> bool" where
  "zero_value x \<longleftrightarrow>
     x \<in> {GoNil, GoBool False, GoInt 0, GoUint 0, GoString [], GoTime zero_time}"

section \<open>Statements\<close>

record gorm_stmt =
  st_Schema :: "Schema option"
  st_Table :: string
  st_Model :: rvalue
  st_parsed :: "go_error + Schema option"
  st_Dest :: rvalue
  st_Reflect :: "bool \<times> rvalue"
  st_Unscoped :: bool
  st_Changed :: "string \<Rightarrow> bool"
  st_Context :: go_ctx
  st_RowsAffected :: int

text \<open>\<open>gd_persisted\<close> is the instance setting under \<open>instanceOutboxPersistedCountKey\<close>.\<close>

record gdb =
  gd_Error :: "go_error option"
  gd_Statement :: "gorm_stmt option"
  gd_handle :: db_handle
  gd_persisted :: "int option"

record syncEvent =
  se_source :: string
  se_tableName :: string
  se_action :: string
  se_indexName :: string
  se_docID :: string
  se_doc :: go_any

text \<open>
  \<open>sync_id\<close>: \<open>GetID\<close> of a value that implements \<open>Syncable\<close>; \<open>sync_doc\<close>: the value as a document;
  \<open>schema_field\<close>: \<open>LookUpField\<close>; \<open>gorm_register\<close> and \<open>gorm_remove\<close>: a callback processor (its name)
  with \<open>Before\<close>/\<open>After\<close> and the names; \<open>gorm_transaction\<close>: a transaction around a function.
\<close>

record 'w sync_env = "'w outbox_db" +
  sync_id :: "rvalue \<Rightarrow> string option"
  sync_doc :: "rvalue \<Rightarrow> go_any"
  schema_field :: "Schema \<Rightarrow> string \<Rightarrow> Field option"
  gorm_register :: "string \<Rightarrow> string \<Rightarrow> string \<Rightarrow> 'w \<Rightarrow> go_error option \<times> 'w"
  gorm_remove :: "string \<Rightarrow> string \<Rightarrow> 'w \<Rightarrow> 'w"
  gorm_transaction :: "go_ctx \<Rightarrow> (db_handle \<Rightarrow> 'w \<Rightarrow> go_error option \<times> 'w) \<Rightarrow> 'w \<Rightarrow> go_error option \<times> 'w"

section \<open>Resolving the instances of a statement\<close>

definition modelsHavePrimaryIdentity :: "modelEntry \<Rightarrow> rvalue list \<Rightarrow> bool" where
  "modelsHavePrimaryIdentity entry models =
     (case me_schema entry of
        None \<Rightarrow> False
      | Some sch \<Rightarrow>
          sch_PrimaryFields sch \<noteq> []
          \<and> list_all (\<lambda>m. case instance_of m of
                None \<Rightarrow> False
              | Some v \<Rightarrow> list_all (\<lambda>f. \<not> zero_value (column_value f v)) (sch_PrimaryFields sch)) models)"

text \<open>\<open>fallback\<close> is nil as long as it is empty: only non-empty lists are assigned to it.\<close>

fun candidates_loop :: "modelEntry \<Rightarrow> (bool \<times> rvalue) list \<Rightarrow> rvalue list \<Rightarrow> rvalue list \<times> bool" where
  "candidates_loop entry [] fallback = (fallback, False)"
| "candidates_loop entry ((addr, candidate) # candidates) fallback =
     (let models = extractModels addr candidate
      in if models = [] then candidates_loop entry candidates fallback
         else let fallback = (if fallback = [] then models else fallback)
              in if modelsHavePrimaryIdentity entry models then (models, True)
                 else candidates_loop entry candidates fallback)"

definition resolveModelCandidates :: "modelEntry \<Rightarrow> (bool \<times> rvalue) list \<Rightarrow> rvalue list \<times> bool" where
  "resolveModelCandidates entry candidates = candidates_loop entry candidates []"

definition resolveModelEntry :: "modelRegistry \<Rightarrow> gorm_stmt \<Rightarrow> modelEntry option" where
  "resolveModelEntry r st =
     (case (case st_Schema st of Some sch \<Rightarrow> registry_get r (sch_Table sch) | None \<Rightarrow> None) of
        Some entry \<Rightarrow> Some entry
      | None \<Rightarrow>
          (case (if st_Table st \<noteq> [] then registry_get r (st_Table st) else None) of
             Some entry \<Rightarrow> Some entry
           | None \<Rightarrow>
               if st_Model st = RInvalid then None
               else (case st_parsed st of
                       Inr (Some sch) \<Rightarrow> registry_get r (sch_Table sch)
                     | _ \<Rightarrow> None)))"

definition resolveModels :: "Syncer \<Rightarrow> gorm_stmt \<Rightarrow> rvalue list \<times> modelEntry option \<times> bool" where
  "resolveModels s st =
     (case resolveModelEntry (sy_registry s) st of
        None \<Rightarrow> ([], None, False)
      | Some entry \<Rightarrow>
          let (models, identified) = resolveModelCandidates entry
                [st_Reflect st, (False, st_Model st), (False, st_Dest st)]
          in (models, Some entry, identified))"

section \<open>Changed fields\<close>

definition normalizeColumnName ::
  "(Schema \<Rightarrow> string \<Rightarrow> Field option) \<Rightarrow> Schema option \<Rightarrow> string \<Rightarrow> string" where
  "normalizeColumnName lookup sch key =
     (case sch of
        None \<Rightarrow> key
      | Some sc \<Rightarrow>
          (case lookup sc key of
             Some f \<Rightarrow> if fd_DBName f \<noteq> [] then fd_DBName f else key
           | None \<Rightarrow> key))"

text \<open>
  Maps are association lists with one entry for a key; where two keys of a map name the same column
  the source's result depends on the order of Go's map iteration, here the order of the list.
\<close>

definition extractChangedFields ::
  "('w, 'm) sync_env_scheme \<Rightarrow> gorm_stmt \<Rightarrow> (string \<times> go_any) list" where
  "extractChangedFields env st =
     (case st_Dest st of
        RMap dest \<Rightarrow>
          fold (\<lambda>(k, v). AList.update (normalizeColumnName (schema_field env) (st_Schema st) k) v) dest []
      | _ \<Rightarrow>
          (case st_Schema st of
             None \<Rightarrow> []
           | Some sch \<Rightarrow>
               let destVal = (case st_Dest st of RPtr (Some v) \<Rightarrow> v | RPtr None \<Rightarrow> RInvalid | v \<Rightarrow> v)
               in fold (\<lambda>f. if st_Changed st (fd_Name f)
                            then AList.update (fd_DBName f) (column_value f destVal) else id)
                    (sch_Fields sch) []))"

section \<open>Writing events\<close>

definition event_row :: "syncEvent \<Rightarrow> outboxWriteEvent" where
  "event_row ev =
     \<lparr>we_TableName = se_tableName ev, we_IndexAlias = se_indexName ev, we_DocumentID = se_docID ev,
      we_Action = se_action ev, we_Doc = se_doc ev\<rparr>"

text \<open>The failures of events that could not be written.\<close>

fun record_events ::
  "('w, 'm) runtime_scheme \<Rightarrow> go_error \<Rightarrow> syncEvent list \<Rightarrow> Syncer \<Rightarrow> 'w \<Rightarrow> Syncer \<times> 'w" where
  "record_events env err [] s w = (s, w)"
| "record_events env err (ev # evs) s w =
     (let (s, w) = recordFailure env
            (zero_FailureEvent\<lparr>fe_Source := se_source ev, fe_Index := se_indexName ev,
               fe_Action := se_action ev, fe_DocumentID := se_docID ev, fe_Error := err_text err\<rparr>) s w
      in record_events env err evs s w)"

text \<open>\<open>tx\<close> is the statement's database, \<open>None\<close> for the connection of the syncer.\<close>

definition persistSyncEvents ::
  "('w, 'm) outbox_db_scheme \<Rightarrow> go_ctx \<Rightarrow> gdb option \<Rightarrow> syncEvent list \<Rightarrow> Syncer \<Rightarrow> 'w
     \<Rightarrow> go_error option \<times> gdb option \<times> Syncer \<times> 'w" where
  "persistSyncEvents env ctx tx events s w =
     (if events = [] then (None, tx, s, w)
      else case ensureOutboxStore s of
        (Some err, s) \<Rightarrow> (Some (Errorf ''persist outbox events: '' err []), tx, s, w)
      | (None, s) \<Rightarrow>
          let persistDB = (case tx of Some db \<Rightarrow> gd_handle db | None \<Rightarrow> RootDB)
          in case insertFromEvents env ctx (Some persistDB) (map event_row events) w of
               (Some err, w) \<Rightarrow>
                 let s = s\<lparr>sy_metrics := (sy_metrics s)
                             \<lparr>mx_DroppedTotal := mx_DroppedTotal (sy_metrics s) + of_nat (length events)\<rparr>\<rparr>;
                     (s, w) = record_events env err events s w
                 in (Some (Errorf ''persist outbox events: '' err []), tx, s, w)
             | (None, w) \<Rightarrow>
                 (None,
                  map_option (\<lambda>db. db\<lparr>gd_persisted := Some (wrap64
                    ((case gd_persisted db of Some n \<Rightarrow> n | None \<Rightarrow> 0) + int (length events)))\<rparr>) tx,
                  s, w))"

definition enqueueEvents ::
  "('w, 'm) outbox_db_scheme \<Rightarrow> gdb \<Rightarrow> syncEvent list \<Rightarrow> Syncer \<Rightarrow> 'w \<Rightarrow> gdb \<times> Syncer \<times> 'w" where
  "enqueueEvents env db events s w =
     (case gd_Statement db of
        None \<Rightarrow> (db, s, w)
      | Some st \<Rightarrow>
          if events = [] then (db, s, w)
          else case persistSyncEvents env (flushContext (st_Context st)) (Some db) events s w of
                 (Some err, _, s, w) \<Rightarrow> (db\<lparr>gd_Error := Some err\<rparr>, s, w)
               | (None, tx, s, w) \<Rightarrow> (the tx, s, w))"

definition afterCommit :: "gdb \<Rightarrow> Syncer \<Rightarrow> Syncer" where
  "afterCommit db s =
     (if gd_Error db \<noteq> None then s
      else case gd_persisted db of
        None \<Rightarrow> s
      | Some count \<Rightarrow>
          if count \<le> 0 then s
          else s\<lparr>sy_metrics := (sy_metrics s)
                   \<lparr>mx_OutboxEventsPersisted := mx_OutboxEventsPersisted (sy_metrics s) + of_int count\<rparr>\<rparr>)"

definition Transaction ::
  "('w, 'm) sync_env_scheme \<Rightarrow> go_ctx \<Rightarrow> (db_handle \<Rightarrow> 'w \<Rightarrow> go_error option \<times> 'w) option \<Rightarrow> 'w
     \<Rightarrow> go_error option \<times> 'w" where
  "Transaction env ctx fn w =
     (case fn of
        None \<Rightarrow> (None, w)
      | Some f \<Rightarrow>
          (case gorm_transaction env ctx f w of
             (Some err, w) \<Rightarrow> (Some (Errorf ''essyncer: transaction: '' err []), w)
           | (None, w) \<Rightarrow> (None, w)))"

section \<open>The callbacks\<close>

text \<open>The event of one instance; values that do not implement \<open>Syncable\<close> give none.\<close>

definition sync_event ::
  "('w, 'm) sync_env_scheme \<Rightarrow> modelEntry \<Rightarrow> string \<Rightarrow> go_any \<Rightarrow> rvalue \<Rightarrow> syncEvent list" where
  "sync_event env entry action doc m =
     (case sync_id env m of
        None \<Rightarrow> []
      | Some docID \<Rightarrow>
          [\<lparr>se_source = failureSourceCallback, se_tableName = me_tableName entry, se_action = action,
            se_indexName = me_indexName entry, se_docID = docID, se_doc = doc\<rparr>])"

definition create_events ::
  "('w, 'm) sync_env_scheme \<Rightarrow> modelEntry \<Rightarrow> rvalue list \<Rightarrow> syncEvent list" where
  "create_events env entry models =
     concat (map (\<lambda>m. sync_event env entry actionIndex (sync_doc env m) m) models)"

definition update_events ::
  "('w, 'm) sync_env_scheme \<Rightarrow> modelEntry \<Rightarrow> (string \<times> go_any) list \<Rightarrow> rvalue list \<Rightarrow> syncEvent list" where
  "update_events env entry changedFields models =
     concat (map (\<lambda>m.
       if me_fullDocUpdate entry \<or> changedFields = []
       then sync_event env entry actionIndex (sync_doc env m) m
       else sync_event env entry actionUpdate (GoMap changedFields) m) models)"

text \<open>A soft-delete mode that is neither of the two gives no event.\<close>

definition delete_events ::
  "('w, 'm) sync_env_scheme \<Rightarrow> modelEntry \<Rightarrow> bool \<Rightarrow> time \<Rightarrow> rvalue list \<Rightarrow> syncEvent list" where
  "delete_events env entry isUnscoped deletedAt models =
     concat (map (\<lambda>m.
       if me_hasSoftDelete entry \<and> \<not> isUnscoped
       then (if me_softDeleteMode entry = SoftDeleteModeUpdate
             then sync_event env entry actionUpdate (GoMap [(''deleted_at'', GoTime deletedAt)]) m
             else if me_softDeleteMode entry = SoftDeleteModeDelete
             then sync_event env entry actionDelete GoNil m
             else [])
       else sync_event env entry actionDelete GoNil m) models)"

definition afterCreate ::
  "('w, 'm) sync_env_scheme \<Rightarrow> gdb \<Rightarrow> Syncer \<Rightarrow> 'w \<Rightarrow> gdb \<times> Syncer \<times> 'w" where
  "afterCreate env db s w =
     (case gd_Statement db of
        None \<Rightarrow> (db, s, w)
      | Some st \<Rightarrow>
          if gd_Error db \<noteq> None then (db, s, w)
          else case resolveModels s st of
            (models, None, identified) \<Rightarrow> (db, s, w)
          | (models, Some entry, identified) \<Rightarrow>
              if \<not> me_autoSync entry then (db, s, w)
              else if \<not> identified
              then let (s, w) = recordUnidentifiedRows env entry actionIndex s w in (db, s, w)
              else enqueueEvents env db (create_events env entry models) s w)"

definition afterUpdate ::
  "('w, 'm) sync_env_scheme \<Rightarrow> gdb \<Rightarrow> Syncer \<Rightarrow> 'w \<Rightarrow> gdb \<times> Syncer \<times> 'w" where
  "afterUpdate env db s w =
     (case gd_Statement db of
        None \<Rightarrow> (db, s, w)
      | Some st \<Rightarrow>
          if gd_Error db \<noteq> None then (db, s, w)
          else case resolveModels s st of
            (models, None, identified) \<Rightarrow> (db, s, w)
          | (models, Some entry, identified) \<Rightarrow>
              if \<not> me_autoSync entry then (db, s, w)
              else if \<not> identified
              then let (s, w) = recordUnidentifiedRows env entry actionUpdate s w in (db, s, w)
              else
                let changedFields = (if me_fullDocUpdate entry then [] else extractChangedFields env st)
                in enqueueEvents env db (update_events env entry changedFields models) s w)"

definition afterDelete ::
  "('w, 'm) sync_env_scheme \<Rightarrow> gdb \<Rightarrow> Syncer \<Rightarrow> 'w \<Rightarrow> gdb \<times> Syncer \<times> 'w" where
  "afterDelete env db s w =
     (case gd_Statement db of
        None \<Rightarrow> (db, s, w)
      | Some st \<Rightarrow>
          if gd_Error db \<noteq> None then (db, s, w)
          else case resolveModels s st of
            (models, None, identified) \<Rightarrow> (db, s, w)
          | (models, Some entry, identified) \<Rightarrow>
              if \<not> me_autoSync entry then (db, s, w)
              else if \<not> identified
              then let (s, w) = recordUnidentifiedRows env entry actionDelete s w in (db, s, w)
              else
                let (deletedAt, w) = rt_now env w
                in enqueueEvents env db
                     (delete_events env entry (st_Unscoped st) deletedAt models) s w)"

section \<open>Enabling and disabling\<close>

definition cbAfterCreate :: string where "cbAfterCreate = ''essyncer:after_create''"
definition cbAfterUpdate :: string where "cbAfterUpdate = ''essyncer:after_update''"
definition cbAfterDelete :: string where "cbAfterDelete = ''essyncer:after_delete''"
definition cbAfterCreateCommit :: string where "cbAfterCreateCommit = ''essyncer:after_create_commit''"
definition cbAfterUpdateCommit :: string where "cbAfterUpdateCommit = ''essyncer:after_update_commit''"
definition cbAfterDeleteCommit :: string where "cbAfterDeleteCommit = ''essyncer:after_delete_commit''"

definition removeAutoSyncCallbacks :: "('w, 'm) sync_env_scheme \<Rightarrow> 'w \<Rightarrow> 'w" where
  "removeAutoSyncCallbacks env w =
     fold (\<lambda>(processor, name). gorm_remove env processor name)
       [(''create'', cbAfterCreate), (''create'', cbAfterCreateCommit),
        (''update'', cbAfterUpdate), (''update'', cbAfterUpdateCommit),
        (''delete'', cbAfterDelete), (''delete'', cbAfterDeleteCommit)] w"

text \<open>The registrations in the order of the source: processor, position, name, and the error text.\<close>

definition auto_sync_callbacks :: "(string \<times> string \<times> string \<times> string) list" where
  "auto_sync_callbacks =
     [(''create'', ''before gorm:after_create'', cbAfterCreate, ''register create callback: ''),
      (''create'', ''after gorm:commit_or_rollback_transaction'', cbAfterCreateCommit,
         ''register create commit callback: ''),
      (''update'', ''before gorm:after_update'', cbAfterUpdate, ''register update callback: ''),
      (''update'', ''after gorm:commit_or_rollback_transaction'', cbAfterUpdateCommit,
         ''register update commit callback: ''),
      (''delete'', ''before gorm:after_delete'', cbAfterDelete, ''register delete callback: ''),
      (''delete'', ''after gorm:commit_or_rollback_transaction'', cbAfterDeleteCommit,
         ''register delete commit callback: '')]"

fun register_callbacks ::
  "('w, 'm) sync_env_scheme \<Rightarrow> (string \<times> string \<times> string \<times> string) list \<Rightarrow> 'w
     \<Rightarrow> go_error option \<times> 'w" where
  "register_callbacks env [] w = (None, w)"
| "register_callbacks env ((processor, position, name, what) # cbs) w =
     (case gorm_register env processor position name w of
        (Some err, w) \<Rightarrow> (Some (Errorf what err []), w)
      | (None, w) \<Rightarrow> register_callbacks env cbs w)"

definition EnableAutoSync ::
  "('w, 'm) sync_env_scheme \<Rightarrow> model_types \<Rightarrow> string list \<Rightarrow> Syncer \<Rightarrow> 'w
     \<Rightarrow> go_error option \<times> Syncer \<times> 'w" where
  "EnableAutoSync env mt models s w =
     (let (err, r) =
            (if models = [] then (None, setAutoSyncAll True (sy_registry s))
             else setAutoSyncForModels mt True models (setAutoSyncAll False (sy_registry s)));
          s = s\<lparr>sy_registry := r\<rparr>
      in case err of
           Some e \<Rightarrow> (Some e, s, w)
         | None \<Rightarrow>
             let (err, w) = register_callbacks env auto_sync_callbacks (removeAutoSyncCallbacks env w)
             in (err, s, w))"

definition DisableAutoSync ::
  "('w, 'm) sync_env_scheme \<Rightarrow> model_types \<Rightarrow> string list \<Rightarrow> Syncer \<Rightarrow> 'w
     \<Rightarrow> go_error option \<times> Syncer \<times> 'w" where
  "DisableAutoSync env mt models s w =
     (if models = []
      then (None, s\<lparr>sy_registry := setAutoSyncAll False (sy_registry s)\<rparr>, removeAutoSyncCallbacks env w)
      else let (err, r) = setAutoSyncForModels mt False models (sy_registry s)
           in (err, s\<lparr>sy_registry := r\<rparr>, w))"

section \<open>Facts about resolution\<close>

text \<open>Every primary field of the instance has a value that is not zero.\<close>

definition has_identity :: "modelEntry \<Rightarrow> rvalue \<Rightarrow> bool" where
  "has_identity entry m \<longleftrightarrow>
     (\<exists>sch v. me_schema entry = Some sch \<and> sch_PrimaryFields sch \<noteq> [] \<and> instance_of m = Some v
        \<and> (\<forall>f \<in> set (sch_PrimaryFields sch). \<not> zero_value (column_value f v)))"

lemma modelsHavePrimaryIdentity_D:
  "modelsHavePrimaryIdentity entry models \<Longrightarrow> m \<in> set models \<Longrightarrow> has_identity entry m"
  by (auto simp: modelsHavePrimaryIdentity_def has_identity_def list_all_iff split: option.splits)

lemma candidates_loop_identified:
  "candidates_loop entry candidates fallback = (models, True) \<Longrightarrow>
     models \<noteq> [] \<and> (\<forall>m \<in> set models. has_identity entry m)"
  by (induction entry candidates fallback rule: candidates_loop.induct)
    (auto simp: Let_def modelsHavePrimaryIdentity_D split: if_splits)

lemma resolveModels_identified:
  "resolveModels s st = (models, Some entry, True) \<Longrightarrow>
     models \<noteq> [] \<and> (\<forall>m \<in> set models. has_identity entry m)"
  by (auto simp: resolveModels_def resolveModelCandidates_def Let_def
      split: option.splits prod.splits dest: candidates_loop_identified)

section \<open>The three callbacks as one\<close>

datatype write_kind = OnCreate | OnUpdate | OnDelete

definition after_write ::
  "('w, 'm) sync_env_scheme \<Rightarrow> write_kind \<Rightarrow> gdb \<Rightarrow> Syncer \<Rightarrow> 'w \<Rightarrow> gdb \<times> Syncer \<times> 'w" where
  "after_write env k =
     (case k of OnCreate \<Rightarrow> afterCreate env | OnUpdate \<Rightarrow> afterUpdate env | OnDelete \<Rightarrow> afterDelete env)"

definition write_events ::
  "('w, 'm) sync_env_scheme \<Rightarrow> write_kind \<Rightarrow> modelEntry \<Rightarrow> gorm_stmt \<Rightarrow> rvalue list \<Rightarrow> 'w
     \<Rightarrow> syncEvent list" where
  "write_events env k entry st models w =
     (case k of
        OnCreate \<Rightarrow> create_events env entry models
      | OnUpdate \<Rightarrow> update_events env entry
          (if me_fullDocUpdate entry then [] else extractChangedFields env st) models
      | OnDelete \<Rightarrow> delete_events env entry (st_Unscoped st) (fst (rt_now env w)) models)"

definition write_action :: "write_kind \<Rightarrow> string" where
  "write_action k = (case k of OnCreate \<Rightarrow> actionIndex | OnUpdate \<Rightarrow> actionUpdate | OnDelete \<Rightarrow> actionDelete)"

definition write_world :: "('w, 'm) runtime_scheme \<Rightarrow> write_kind \<Rightarrow> 'w \<Rightarrow> 'w" where
  "write_world env k w = (if k = OnDelete then snd (rt_now env w) else w)"

lemma after_write_identified:
  assumes "gd_Statement db = Some st" "gd_Error db = None"
    and "resolveModels s st = (models, Some entry, True)" "me_autoSync entry"
  shows "after_write env k db s w
    = enqueueEvents env db (write_events env k entry st models w) s (write_world env k w)"
  using assms
  by (cases k) (simp_all add: after_write_def write_events_def write_world_def afterCreate_def
      afterUpdate_def afterDelete_def split_def Let_def)

lemma after_write_unidentified:
  assumes "gd_Statement db = Some st" "gd_Error db = None"
    and "resolveModels s st = (models, Some entry, False)" "me_autoSync entry"
  shows "after_write env k db s w = (db, recordUnidentifiedRows env entry (write_action k) s w)"
  using assms
  by (cases k) (simp_all add: after_write_def write_action_def afterCreate_def
      afterUpdate_def afterDelete_def split_def Let_def)

lemma record_events_frame [simp]:
  "sy_metrics (fst (record_events env err evs s w)) = sy_metrics s" if "\<forall>ev \<in> set evs. se_source ev \<noteq> failureSourceFullSync"
  using that
proof (induction evs arbitrary: s w)
  case Nil
  then show ?case by simp
next
  case (Cons ev evs)
  then show ?case
    by (simp add: split_def Let_def recordFailure_metrics)
qed

lemma sync_event_source: "ev \<in> set (sync_event env entry action doc m) \<Longrightarrow> se_source ev = failureSourceCallback"
  by (auto simp: sync_event_def split: option.splits)

lemma write_events_source:
  "ev \<in> set (write_events env k entry st models w) \<Longrightarrow> se_source ev = failureSourceCallback"
  by (cases k) (auto simp: write_events_def create_events_def update_events_def delete_events_def
      dest: sync_event_source split: if_splits)

lemma insertFromEvents_ok:
  assumes "insertFromEvents env ctx (Some handle) events w = (None, w')" "events \<noteq> []"
  shows "db_create env ctx handle 100 (map (\<lambda>event. pending_row event
      (projr (marshalOutboxPayload env (we_Action event) (we_Doc event)))) events) w = (None, w')"
proof (cases "\<forall>event \<in> set events. event_ok env event")
  case True
  with assms outbox_rows_Inr [of events env "[]"] show ?thesis
    by (auto simp: insertFromEvents_def split: prod.splits option.splits)
next
  case False
  then obtain err where "outbox_rows env events [] = Inl err"
    using outbox_rows_Inl [of events env "[]"] by blast
  with assms show ?thesis by (simp add: insertFromEvents_def)
qed

text \<open>The rows that a list of events becomes.\<close>

definition rows_of_events :: "('w, 'm) outbox_db_scheme \<Rightarrow> syncEvent list \<Rightarrow> OutboxEvent list" where
  "rows_of_events env events =
     map (\<lambda>ev. pending_row (event_row ev) (projr (marshalOutboxPayload env (se_action ev) (se_doc ev)))) events"

lemma persistSyncEvents_outcome:
  assumes "persistSyncEvents env ctx (Some db) events s w = (err, tx, s', w')" "events \<noteq> []" "sy_outbox s"
    and "\<forall>ev \<in> set events. se_source ev \<noteq> failureSourceFullSync"
  shows "(err = None \<longrightarrow> s' = s
      \<and> db_create env ctx (gd_handle db) 100 (rows_of_events env events) w = (None, w')
      \<and> tx = Some (db\<lparr>gd_persisted := Some (wrap64
           ((case gd_persisted db of Some n \<Rightarrow> n | None \<Rightarrow> 0) + int (length events)))\<rparr>))
    \<and> (err \<noteq> None \<longrightarrow> tx = Some db
      \<and> sy_metrics s' = (sy_metrics s)
          \<lparr>mx_DroppedTotal := mx_DroppedTotal (sy_metrics s) + of_nat (length events)\<rparr>)"
proof -
  obtain ierr w1 where ins: "insertFromEvents env ctx (Some (gd_handle db)) (map event_row events) w = (ierr, w1)"
    by fastforce
  show ?thesis
  proof (cases ierr)
    case None
    from insertFromEvents_ok [OF ins [unfolded None]] assms(2)
    have "db_create env ctx (gd_handle db) 100 (rows_of_events env events) w = (None, w1)"
      by (simp add: rows_of_events_def comp_def event_row_def)
    with assms(1-3) ins None show ?thesis
      by (auto simp: persistSyncEvents_def ensureOutboxStore_def Let_def)
  next
    case (Some e)
    let ?s = "s\<lparr>sy_metrics := (sy_metrics s)
      \<lparr>mx_DroppedTotal := mx_DroppedTotal (sy_metrics s) + of_nat (length events)\<rparr>\<rparr>"
    have "sy_metrics (fst (record_events env e events ?s w1)) = sy_metrics ?s"
      by (rule record_events_frame [OF assms(4)])
    with assms(1-3) ins Some show ?thesis
      by (auto simp: persistSyncEvents_def ensureOutboxStore_def Let_def split: prod.splits)
  qed
qed

lemma enqueueEvents_outcome:
  assumes "enqueueEvents env db events s w = (db', s', w')" "gd_Statement db = Some st" "gd_Error db = None"
    and "events \<noteq> []" "sy_outbox s" "\<forall>ev \<in> set events. se_source ev \<noteq> failureSourceFullSync"
  shows "(gd_Error db' = None \<longrightarrow> s' = s
      \<and> db_create env (flushContext (st_Context st)) (gd_handle db) 100 (rows_of_events env events) w = (None, w')
      \<and> gd_persisted db' = Some (wrap64
           ((case gd_persisted db of Some n \<Rightarrow> n | None \<Rightarrow> 0) + int (length events))))
    \<and> (gd_Error db' \<noteq> None \<longrightarrow> gd_persisted db' = gd_persisted db
      \<and> sy_metrics s' = (sy_metrics s)
          \<lparr>mx_DroppedTotal := mx_DroppedTotal (sy_metrics s) + of_nat (length events)\<rparr>)"
proof -
  obtain err tx s1 w1 where p:
    "persistSyncEvents env (flushContext (st_Context st)) (Some db) events s w = (err, tx, s1, w1)"
    by (metis prod.collapse)
  note out = persistSyncEvents_outcome [OF p assms(4,5,6)]
  show ?thesis
  proof (cases err)
    case None
    with out assms(1-4) p show ?thesis by (auto simp: enqueueEvents_def)
  next
    case (Some e)
    with out assms(1-4) p show ?thesis by (auto simp: enqueueEvents_def)
  qed
qed

section \<open>The chain of callbacks\<close>

text \<open>
  What gorm's callback processors promise: registering appends to the chain of a processor or fails
  without a change, removing takes the callback of that name out.
\<close>

locale hook_chain =
  fixes env :: "('w, 'm) sync_env_scheme"
    and installed :: "'w \<Rightarrow> (string \<times> string) list"
  assumes register_ok: "gorm_register env p pos n w = (None, w') \<Longrightarrow> installed w' = installed w @ [(p, n)]"
    and register_err: "gorm_register env p pos n w = (Some err, w') \<Longrightarrow> installed w' = installed w"
    and remove_law: "installed (gorm_remove env p n w) = filter (\<lambda>c. c \<noteq> (p, n)) (installed w)"
begin

lemma register_callbacks_ok:
  "register_callbacks env cbs w = (None, w') \<Longrightarrow>
     installed w' = installed w @ map (\<lambda>(p, pos, n, what). (p, n)) cbs"
  by (induction cbs arbitrary: w) (auto split: prod.splits option.splits dest!: register_ok)

lemma removeAutoSyncCallbacks_installed:
  "installed (removeAutoSyncCallbacks env w) =
     filter (\<lambda>c. c \<notin> set (map (\<lambda>(p, pos, n, what). (p, n)) auto_sync_callbacks)) (installed w)"
  by (simp add: removeAutoSyncCallbacks_def remove_law auto_sync_callbacks_def)

end

section \<open>The flags of the registry\<close>

definition names_table :: "model_types \<Rightarrow> string list \<Rightarrow> string \<Rightarrow> bool" where
  "names_table mt models t \<longleftrightarrow> (\<exists>m \<in> set models. \<exists>sch. mt_parse mt m = Inr sch \<and> sch_Table sch = t)"

lemma setAutoSyncForModels_get:
  "setAutoSyncForModels mt b models r = (None, r') \<Longrightarrow>
     registry_get r' t = (if names_table mt models t
       then map_option (\<lambda>e. e\<lparr>me_autoSync := b\<rparr>) (registry_get r t) else registry_get r t)"
proof (induction models arbitrary: r)
  case Nil
  then show ?case by (simp add: names_table_def)
next
  case (Cons m models)
  then obtain sch e where m: "mt_parse mt m = Inr sch" "registry_get r (sch_Table sch) = Some e"
    "setAutoSyncForModels mt b models (AList.update (sch_Table sch) (e\<lparr>me_autoSync := b\<rparr>) r) = (None, r')"
    by (auto split: sum.splits option.splits)
  from Cons.IH [OF m(3)] m(1,2) show ?case
    by (auto simp: names_table_def registry_get_def update_conv')
qed

section \<open>A reference world\<close>

record sync_world = mem_world +
  yw_callbacks :: "(string \<times> string) list"

definition mem_sync :: "('x sync_world_scheme) sync_env" where
  "mem_sync = mem_db (sync_env_ext
     (\<lambda>m. case instance_of m of
        Some (RStruct (GoModel t cols)) \<Rightarrow>
          (case map_of cols ''id'' of Some (GoInt n) \<Rightarrow> Some (show_int n) | _ \<Rightarrow> None)
      | _ \<Rightarrow> None)
     (\<lambda>m. case instance_of m of Some (RStruct d) \<Rightarrow> d | _ \<Rightarrow> GoNil)
     (\<lambda>sch key. find (\<lambda>f. fd_Name f = key \<or> fd_DBName f = key) (sch_Fields sch))
     (\<lambda>p pos n w. (None, w\<lparr>yw_callbacks := yw_callbacks w @ [(p, n)]\<rparr>))
     (\<lambda>p n w. w\<lparr>yw_callbacks := filter (\<lambda>c. c \<noteq> (p, n)) (yw_callbacks w)\<rparr>)
     (\<lambda>ctx f w. f (TxDB 1) w) ())"

interpretation mem_hooks: hook_chain mem_sync yw_callbacks
  by unfold_locales (auto simp: mem_sync_def mem_db_def)

definition id_field :: Field where
  "id_field = \<lparr>fd_Name = ''ID'', fd_DBName = ''id'', fd_Kind = Kind_Int 64, fd_TypeText = ''int64''\<rparr>"

definition title_field :: Field where
  "title_field = \<lparr>fd_Name = ''Title'', fd_DBName = ''title'', fd_Kind = Kind_String, fd_TypeText = ''string''\<rparr>"

definition article_schema :: Schema where
  "article_schema = \<lparr>sch_Table = ''articles'', sch_PrimaryFields = [id_field], sch_Fields = [id_field, title_field]\<rparr>"

definition sync_types :: model_types where
  "sync_types =
     \<lparr>mt_parse = (\<lambda>m. if m = ''Article'' then Inr article_schema else Inl (Err ''unsupported data type'')),
      mt_type = TOther, mt_TableName = (\<lambda>m. None)\<rparr>"

definition sync_syncer :: Syncer where
  "sync_syncer = (zero_Syncer True DefaultConfig)
     \<lparr>sy_outbox := True, sy_registry := snd (register sync_types ''Article'' 10 [WithIndexName ''a''] [])\<rparr>"

definition article :: "int \<Rightarrow> rvalue" where
  "article n = RStruct (GoModel ''Article'' [(''id'', GoInt n), (''title'', GoString ''t'')])"

text \<open>A statement on this instance that sets the title, and its database in transaction 1.\<close>

definition update_stmt :: "rvalue \<Rightarrow> int \<Rightarrow> gorm_stmt" where
  "update_stmt m affected =
     \<lparr>st_Schema = Some article_schema, st_Table = ''articles'', st_Model = RPtr (Some m),
      st_parsed = Inr (Some article_schema), st_Dest = RMap [(''Title'', GoString ''x'')],
      st_Reflect = (True, m), st_Unscoped = False, st_Changed = (\<lambda>f. f = ''Title''),
      st_Context = Background, st_RowsAffected = affected\<rparr>"

definition stmt_db :: "gorm_stmt \<Rightarrow> gdb" where
  "stmt_db st = \<lparr>gd_Error = None, gd_Statement = Some st, gd_handle = TxDB 1, gd_persisted = None\<rparr>"

definition sync_world :: "(string \<times> string) list \<Rightarrow> sync_world" where
  "sync_world cbs = mem_world.extend (sample_world []) (sync_world.fields cbs)"

lemma sync_run_update:
  "(case afterUpdate mem_sync (stmt_db (update_stmt (article 7) 1)) sync_syncer (sync_world []) of
      (db, s, w) \<Rightarrow> (gd_Error db, gd_persisted db,
        map (\<lambda>r. (ev_Action r, ev_DocumentID r, ev_IndexAlias r)) (mw_table w)))
   = (None, Some 1, [(actionUpdate, ''7'', ''a'')])"
  by code_simp

section \<open>Properties\<close>

text \<open>
  C3. The rows of a write go into the transaction of the write: for a create, update or delete of
  identified instances of a model with auto-sync, the callback either leaves no error, and then one
  insert of one pending row per event, in order, was made on the statement's own handle and the
  commit callback will count these events; or it leaves an error on the statement, so that gorm
  rolls the write back, and then the events are counted as dropped and the commit callback counts
  nothing.
\<close>

theorem auto_sync_same_transaction:
  assumes "gd_Statement db = Some st" "gd_Error db = None" "gd_persisted db = None"
    and "resolveModels s st = (models, Some entry, True)" "me_autoSync entry" "sy_outbox s"
    and "events = write_events env k entry st models w" "events \<noteq> []" "int (length events) < 2 ^ 63"
    and "after_write env k db s w = (db', s', w')"
  shows "(gd_Error db' = None \<longrightarrow>
        db_create env (flushContext (st_Context st)) (gd_handle db) 100 (rows_of_events env events)
          (write_world env k w) = (None, w')
      \<and> s' = s
      \<and> sy_metrics (afterCommit db' s') = (sy_metrics s)\<lparr>mx_OutboxEventsPersisted :=
          mx_OutboxEventsPersisted (sy_metrics s) + of_nat (length events)\<rparr>)
    \<and> (gd_Error db' \<noteq> None \<longrightarrow>
        afterCommit db' s' = s'
      \<and> sy_metrics s' = (sy_metrics s)\<lparr>mx_DroppedTotal :=
          mx_DroppedTotal (sy_metrics s) + of_nat (length events)\<rparr>)"
proof -
  have src: "\<forall>ev \<in> set events. se_source ev \<noteq> failureSourceFullSync"
    using write_events_source assms(7)
    by (fastforce simp: failureSourceCallback_def failureSourceFullSync_def)
  have "enqueueEvents env db events s (write_world env k w) = (db', s', w')"
    using after_write_identified [OF assms(1,2,4,5), of env k w, symmetric] assms(7,10) by simp
  from enqueueEvents_outcome [OF this assms(1,2,8,6) src]
  have out: "(gd_Error db' = None \<longrightarrow> s' = s
      \<and> db_create env (flushContext (st_Context st)) (gd_handle db) 100 (rows_of_events env events)
          (write_world env k w) = (None, w')
      \<and> gd_persisted db' = Some (wrap64 (int (length events))))
    \<and> (gd_Error db' \<noteq> None \<longrightarrow> sy_metrics s' = (sy_metrics s)
          \<lparr>mx_DroppedTotal := mx_DroppedTotal (sy_metrics s) + of_nat (length events)\<rparr>)"
    using assms(3) by simp
  have "wrap64 (int (length events)) = int (length events)" "0 < length events"
    using assms(8,9) by (simp_all add: in_int64_def)
  with out show ?thesis by (auto simp: afterCommit_def)
qed

theorem auto_sync_same_transaction_witness:
  "\<exists>db' s' w'. after_write mem_sync OnUpdate (stmt_db (update_stmt (article 7) 1)) sync_syncer (sync_world [])
       = (db', s', w')
     \<and> (gd_Error db' = None \<longrightarrow>
          sy_metrics (afterCommit db' s') = (sy_metrics sync_syncer)\<lparr>mx_OutboxEventsPersisted := 1\<rparr>)"
proof -
  let ?st = "update_stmt (article 7) 1" and ?w = "sync_world []"
  let ?e = "the (registry_get (sy_registry sync_syncer) ''articles'')"
  let ?evs = "write_events mem_sync OnUpdate ?e ?st [RPtr (Some (article 7))] ?w"
  obtain db' s' w' where run: "after_write mem_sync OnUpdate (stmt_db ?st) sync_syncer ?w = (db', s', w')"
    by (metis prod.collapse)
  have res: "resolveModels sync_syncer ?st = ([RPtr (Some (article 7))], Some ?e, True)"
    and auto: "me_autoSync ?e" and out: "sy_outbox sync_syncer" and len: "length ?evs = 1"
    by code_simp+
  have "?evs \<noteq> []" using len by auto
  from auto_sync_same_transaction [OF _ _ _ res auto out refl this _ run] len
  have "gd_Error db' = None \<longrightarrow> sy_metrics (afterCommit db' s') = (sy_metrics sync_syncer)
      \<lparr>mx_OutboxEventsPersisted := mx_OutboxEventsPersisted (sy_metrics sync_syncer) + 1\<rparr>"
    by (auto simp: stmt_db_def)
  moreover have "mx_OutboxEventsPersisted (sy_metrics sync_syncer) = 0"
    by (simp add: sync_syncer_def zero_Syncer_def zero_Metrics_def)
  ultimately show ?thesis using run by simp
qed

text \<open>
  C19. No document is made up from a zero primary key: a callback that writes events has resolved at
  least one instance, all with a value in every primary field, and each event carries the alias and
  table of the registered model and the id of one of these instances; a write of rows without
  identity leaves the statement and the outbox alone and is counted and recorded instead.
\<close>

theorem events_have_identity:
  assumes "gd_Statement db = Some st" "gd_Error db = None"
    and "resolveModels s st = (models, Some entry, identified)" "me_autoSync entry"
  shows "(identified \<longrightarrow> models \<noteq> [] \<and> (\<forall>m \<in> set models. has_identity entry m)
      \<and> (\<forall>ev \<in> set (write_events env k entry st models w).
           se_tableName ev = me_tableName entry \<and> se_indexName ev = me_indexName entry
         \<and> (\<exists>m \<in> set models. sync_id env m = Some (se_docID ev))))
    \<and> (\<not> identified \<longrightarrow> (case after_write env k db s w of (db', s', w') \<Rightarrow>
         db' = db \<and> w' = snd (rt_now env w)
       \<and> sy_metrics s' = (sy_metrics s)\<lparr>mx_SyncEventsSkippedUnidentified :=
            mx_SyncEventsSkippedUnidentified (sy_metrics s) + 1\<rparr>
       \<and> (\<exists>ev. fe_Source ev = failureSourceUnidentified \<and> fe_Index ev = me_indexName entry
            \<and> fe_Action ev = write_action k \<and> recorder_of s' = recorder_record ev (recorder_of s))))"
proof (cases identified)
  case True
  have "se_tableName ev = me_tableName entry \<and> se_indexName ev = me_indexName entry
       \<and> sync_id env m = Some (se_docID ev)" if "ev \<in> set (sync_event env entry a d m)" for ev a d m
    using that by (auto simp: sync_event_def split: option.splits)
  then have "\<forall>ev \<in> set (write_events env k entry st models w).
      se_tableName ev = me_tableName entry \<and> se_indexName ev = me_indexName entry
      \<and> (\<exists>m \<in> set models. sync_id env m = Some (se_docID ev))"
    by (cases k) (fastforce simp: write_events_def create_events_def update_events_def delete_events_def
        split: if_splits)+
  with True resolveModels_identified assms(3) show ?thesis by auto
next
  case False
  with after_write_unidentified [OF assms(1,2) _ assms(4)] assms(3)
  have run: "after_write env k db s w = (db, recordUnidentifiedRows env entry (write_action k) s w)" by simp
  let ?m = "(sy_metrics s)\<lparr>mx_SyncEventsSkippedUnidentified :=
    mx_SyncEventsSkippedUnidentified (sy_metrics s) + 1\<rparr>"
  obtain ev where ev: "recordUnidentifiedRows env entry (write_action k) s w
      = recordFailure env ev (s\<lparr>sy_metrics := ?m\<rparr>) w" "fe_Source ev = failureSourceUnidentified"
    "fe_Index ev = me_indexName entry" "fe_Action ev = write_action k" "fe_At ev = zero_time"
    by (simp add: recordUnidentifiedRows_def Let_def zero_FailureEvent_def)
  have "recorder_of (s\<lparr>sy_metrics := ?m\<rparr>) = recorder_of s"
    by (simp add: recorder_of_def initObservability_def split: option.split)
  moreover have "fe_Source (stamped env ev w) = fe_Source ev" "fe_Index (stamped env ev w) = fe_Index ev"
    "fe_Action (stamped env ev w) = fe_Action ev" by (simp_all add: stamped_def)
  ultimately show ?thesis
    using False run ev recordFailure_recorder [of env ev "s\<lparr>sy_metrics := ?m\<rparr>" w]
    by (auto simp: split_def recordFailure_metrics recordFailure_world
        failureSourceUnidentified_def failureSourceFullSync_def)
qed

theorem events_have_identity_witness:
  "resolveModels sync_syncer (update_stmt (article 0) 3)
     = ([RPtr (Some (article 0))], registry_get (sy_registry sync_syncer) ''articles'', False)
   \<and> fst (after_write mem_sync OnUpdate (stmt_db (update_stmt (article 0) 3)) sync_syncer (sync_world []))
       = stmt_db (update_stmt (article 0) 3)"
proof -
  let ?st = "update_stmt (article 0) 3"
  let ?e = "the (registry_get (sy_registry sync_syncer) ''articles'')"
  have res: "resolveModels sync_syncer ?st = ([RPtr (Some (article 0))], Some ?e, False)"
    and auto: "me_autoSync ?e" and get: "registry_get (sy_registry sync_syncer) ''articles'' = Some ?e"
    by code_simp+
  from events_have_identity [OF _ _ res auto, of "stmt_db ?st" mem_sync OnUpdate "sync_world []"]
  have "fst (after_write mem_sync OnUpdate (stmt_db ?st) sync_syncer (sync_world [])) = stmt_db ?st"
    by (auto simp: stmt_db_def split: prod.splits)
  with res get show ?thesis by simp
qed

text \<open>
  A callback does not look at the number of rows that the statement changed: an update of an
  instance whose conditions matched no row (a row that is gone, or a failed optimistic lock) still
  writes an event, with the new values, to the outbox.
\<close>

lemma update_of_no_row_enqueues:
  "case afterUpdate mem_sync (stmt_db (update_stmt (article 7) 0)) sync_syncer (sync_world []) of
     (db, s, w) \<Rightarrow> gd_Error db = None \<and> gd_persisted db = Some 1
       \<and> map (\<lambda>r. (ev_Action r, ev_DocumentID r, ev_Status r)) (mw_table w)
           = [(actionUpdate, ''7'', OutboxStatusPending)]"
  by code_simp

text \<open>
  C27. Enabling auto-sync is idempotent: whatever was registered before, after a call without an error
  each of the six callbacks is in the chain exactly once, behind the callbacks of others, which keep
  their order; and the models that synchronise are all registered ones for a call without arguments,
  exactly the named ones otherwise.
\<close>

theorem EnableAutoSync_installs_once:
  assumes "hook_chain env installed" "EnableAutoSync env mt models s w = (None, s', w')"
  shows "installed w' =
      filter (\<lambda>c. c \<notin> set (map (\<lambda>(p, pos, n, what). (p, n)) auto_sync_callbacks)) (installed w)
      @ map (\<lambda>(p, pos, n, what). (p, n)) auto_sync_callbacks
    \<and> distinct (map (\<lambda>(p, pos, n, what). (p, n)) auto_sync_callbacks)
    \<and> (\<forall>t e. registry_get (sy_registry s') t = Some e \<longrightarrow>
         me_autoSync e = (models = [] \<or> names_table mt models t))"
proof -
  have reg: "register_callbacks env auto_sync_callbacks (removeAutoSyncCallbacks env w) = (None, w')"
    using assms(2) by (auto simp: EnableAutoSync_def Let_def split: prod.splits option.splits)
  have flags: "me_autoSync e = (models = [] \<or> names_table mt models t)"
    if "registry_get (sy_registry s') t = Some e" for t e
  proof (cases "models = []")
    case True
    with assms(2) that show ?thesis
      by (auto simp: EnableAutoSync_def Let_def registry_get_setAutoSyncAll split: prod.splits)
  next
    case False
    with assms(2) have "setAutoSyncForModels mt True models (setAutoSyncAll False (sy_registry s))
        = (None, sy_registry s')"
      by (auto simp: EnableAutoSync_def Let_def split: prod.splits option.splits)
    from setAutoSyncForModels_get [OF this, of t] that False show ?thesis
      by (cases "registry_get (sy_registry s) t") (auto simp: registry_get_setAutoSyncAll split: if_splits)
  qed
  have "distinct (map (\<lambda>(p, pos, n, what). (p, n)) auto_sync_callbacks)" by code_simp
  with hook_chain.register_callbacks_ok [OF assms(1) reg]
    hook_chain.removeAutoSyncCallbacks_installed [OF assms(1), of w] flags
  show ?thesis by simp
qed

theorem EnableAutoSync_installs_once_witness:
  "\<exists>s' w'. EnableAutoSync mem_sync sync_types [''Article''] sync_syncer
       (sync_world [(''create'', ''other''), (''create'', cbAfterCreate)]) = (None, s', w')
     \<and> yw_callbacks w' = (''create'', ''other'') # map (\<lambda>(p, pos, n, what). (p, n)) auto_sync_callbacks"
proof -
  let ?w = "sync_world [(''create'', ''other''), (''create'', cbAfterCreate)]"
  have "fst (EnableAutoSync mem_sync sync_types [''Article''] sync_syncer ?w) = None" by code_simp
  then obtain s' w' where run: "EnableAutoSync mem_sync sync_types [''Article''] sync_syncer ?w = (None, s', w')"
    by (metis prod.collapse)
  have "filter (\<lambda>c. c \<notin> set (map (\<lambda>(p, pos, n, what). (p, n)) auto_sync_callbacks)) (yw_callbacks ?w)
      = [(''create'', ''other'')]" by code_simp
  with EnableAutoSync_installs_once [OF mem_hooks.hook_chain_axioms run] run show ?thesis by auto
qed

text \<open>
  Naming an unknown model first disables what worked: the call reports the error, but by then
  auto-sync is off for every registered model, while the callbacks stay as they were.
\<close>

lemma EnableAutoSync_unknown_model:
  assumes "getByModel mt (sy_registry s) m = None"
  shows "\<exists>err s'. EnableAutoSync env mt (m # models) s w = (Some err, s', w)
    \<and> (\<forall>t e. registry_get (sy_registry s') t = Some e \<longrightarrow> \<not> me_autoSync e)
    \<and> (\<forall>t. registry_get (sy_registry s') t = None \<longleftrightarrow> registry_get (sy_registry s) t = None)"
proof -
  have "setAutoSyncForModels mt True (m # models) (setAutoSyncAll False (sy_registry s))
      = (Some (not_registered mt m), setAutoSyncAll False (sy_registry s))"
    using assms by (auto simp: getByModel_def registry_get_setAutoSyncAll split: sum.splits option.splits)
  then show ?thesis
    by (auto simp: EnableAutoSync_def registry_get_setAutoSyncAll)
qed

lemma EnableAutoSync_unknown_model_witness:
  "\<exists>err s'. EnableAutoSync mem_sync sync_types [''Tag'', ''Article''] sync_syncer (sync_world [])
       = (Some err, s', sync_world [])
     \<and> (\<forall>e. registry_get (sy_registry s') ''articles'' = Some e \<longrightarrow> \<not> me_autoSync e)"
proof -
  have "getByModel sync_types (sy_registry sync_syncer) ''Tag'' = None" by code_simp
  from EnableAutoSync_unknown_model [OF this, of mem_sync "[''Article'']" "sync_world []"]
  show ?thesis by blast
qed

end
