(* ===== verification/Delivery.thy ===== *)
theory Delivery imports AutoSync OutboxRelay begin

text \<open>
  From a write to its delivery: a claim takes the oldest rows that can be claimed, a batch settles
  them, and what auto-sync has written in a transaction is among them once the backlog fits a batch.
\<close>

section \<open>A claim takes the oldest rows\<close>

context outbox_table
begin

lemma tryClaimRow_claims:
  assumes "tryClaimRow env ctx (ev_ID c) now u tok w = (Inr b, w')"
    and "c \<in> set (rows w)" "claimable now c" "now < cell u"
  shows b
proof -
  obtain n where n: "db_updates env ctx (\<lambda>r. ev_ID r = ev_ID c \<and> claimable now r) (claim_set u tok) w = (Inr n, w')"
    "b = (n = 1)"
    using assms(1) by (auto simp: tryClaimRow_def split: prod.splits sum.splits)
  have "store_row cell (claim_set u tok c) \<noteq> c"
    using claimed_not_claimable [where now' = now and cell = cell and leaseUntil = u and token = tok and r = c]
      assms(3,4) by metis
  with assms(2,3) have "0 < changed_rows cell (\<lambda>r. ev_ID r = ev_ID c \<and> claimable now r) (claim_set u tok) (rows w)"
    by (auto simp: changed_rows_def filter_empty_conv)
  with updates_ok [OF n(1)] updates_by_id(1) [OF n(1), of "ev_ID c"] n(2) show ?thesis by simp
qed

lemma tryClaimRow_others:
  assumes "tryClaimRow env ctx i now u tok w = (Inr True, w')" "x \<in> set (rows w)" "ev_ID x \<noteq> i"
  shows "x \<in> set (rows w')"
  using tryClaimRow_True [OF assms(1)] assms(2,3) by auto

lemma claim_loop_oldest:
  assumes "claim_loop env ctx k now u claimed cands w = (Inr cs, w')"
    and "distinct (map ev_ID cands)" "set cands \<subseteq> set (rows w)" "\<forall>c \<in> set cands. claimable now c"
    and "now < cell u"
  shows "map ev_ID cs = map ev_ID claimed @ take (nat (k - int (length claimed))) (map ev_ID cands)"
  using assms
proof (induction cands arbitrary: claimed w)
  case Nil
  then show ?case by simp
next
  case (Cons c cands)
  show ?case
  proof (cases "k \<le> int (length claimed)")
    case True
    with Cons.prems(1) show ?thesis by simp
  next
    case False
    obtain tok w1 where tok: "newLeaseToken env w = (tok, w1)" by fastforce
    then have w1: "rows w1 = rows w" using newLeaseToken_facts by auto
    from Cons.prems(1) False tok obtain b w2
      where claim: "tryClaimRow env ctx (ev_ID c) now u tok w1 = (Inr b, w2)"
        and rest: "claim_loop env ctx k now u
          (if b then claimed @ [claim_set u tok c] else claimed) cands w2 = (Inr cs, w')"
      by (auto simp: claim_set_def split: prod.splits sum.splits bool.splits)
    have b: b using tryClaimRow_claims [OF claim] w1 Cons.prems by simp
    have "set cands \<subseteq> set (rows w2)"
    proof
      fix x assume x: "x \<in> set cands"
      have "ev_ID c \<notin> ev_ID ` set cands" using Cons.prems(2) by simp
      with x have "ev_ID x \<noteq> ev_ID c" by (metis imageI)
      moreover have "x \<in> set (rows w1)" using x Cons.prems(3) w1 by auto
      moreover have "tryClaimRow env ctx (ev_ID c) now u tok w1 = (Inr True, w2)" using claim b by simp
      ultimately show "x \<in> set (rows w2)" using tryClaimRow_others by blast
    qed
    with Cons.IH [of "claimed @ [claim_set u tok c]" w2] rest b Cons.prems
    have "map ev_ID cs = map ev_ID (claimed @ [claim_set u tok c])
        @ take (nat (k - int (length (claimed @ [claim_set u tok c])))) (map ev_ID cands)" by simp
    moreover have "nat (k - int (length claimed)) = Suc (nat (k - int (length claimed) - 1))"
      using False by simp
    ultimately show ?thesis by (simp add: algebra_simps)
  qed
qed

lemma claimPending_oldest:
  assumes "claimPending env ctx k lease w = (Inr cs, w')" "0 < k"
    and "fst (rt_now env w) < cell (fst (rt_now env w) + lease)"
  shows "map ev_ID cs = map ev_ID (take (nat k) (filter (claimable (fst (rt_now env w))) (rows w)))"
proof -
  obtain now w1 where now: "rt_now env w = (now, w1)" by fastforce
  from assms(1,2) now obtain cands w2
    where find: "db_find env ctx (claimable now) IdAsc (candidateLimit k) w1 = (Inr cands, w2)"
      and loop: "claim_loop env ctx k now (now + lease) [] cands w2 = (Inr cs, w')"
    by (auto simp: claimPending_def split: if_splits prod.splits sum.splits)
  have lim: "k \<le> candidateLimit k" by (rule candidateLimit_ge)
  then have "0 \<le> candidateLimit k" using assms(2) by linarith
  from find_ok [OF find this] now_rows [OF now]
  have cands: "cands = take (nat (candidateLimit k)) (filter (claimable now) (rows w))"
    and w2: "rows w2 = rows w" by (simp_all add: sql_select_def)
  have "distinct (map ev_ID (filter (claimable now) (rows w)))"
    using distinct_rows by (rule distinct_map_filter)
  then have "distinct (map ev_ID cands)" by (simp add: cands take_map [symmetric])
  moreover have "set cands \<subseteq> set (rows w2)" "\<forall>c \<in> set cands. claimable now c"
    using set_take_subset [of "nat (candidateLimit k)" "filter (claimable now) (rows w)"]
    by (auto simp: cands w2)
  moreover have "now < cell (now + lease)" using assms(3) now by simp
  ultimately have "map ev_ID cs = take (nat k) (map ev_ID cands)"
    using claim_loop_oldest [OF loop] by simp
  with lim now show ?thesis by (simp add: cands take_map min_def nat_mono)
qed

end

section \<open>A batch delivers them\<close>

text \<open>The requests of a batch: each claimed row with the state in which it is sent.\<close>

fun sends ::
  "('w, 'm) relay_env_scheme \<Rightarrow> go_ctx \<Rightarrow> OutboxEvent list \<Rightarrow> Syncer \<Rightarrow> 'w
     \<Rightarrow> (OutboxEvent \<times> Syncer \<times> 'w) list" where
  "sends env ctx [] s w = []"
| "sends env ctx (row # rws) s w =
     (row, s, w) # (case processOutboxRow env ctx row s w of
                      (Inl err, s, w) \<Rightarrow> []
                    | (Inr outcome, s, w) \<Rightarrow> sends env ctx rws s w)"

definition batch_sends ::
  "('w, 'm) relay_env_scheme \<Rightarrow> go_ctx \<Rightarrow> Syncer \<Rightarrow> 'w \<Rightarrow> (OutboxEvent \<times> Syncer \<times> 'w) list" where
  "batch_sends env ctx s w =
     (case claimPending env ctx (oc_BatchSize (cfg_Outbox (sy_cfg s))) (oc_Lease (cfg_Outbox (sy_cfg s))) w of
        (Inl err, w) \<Rightarrow> []
      | (Inr rws, w) \<Rightarrow> sends env ctx rws s w)"

text \<open>
  One of these requests was the one of \<open>row\<close>, for the table's row with the key \<open>i\<close>, and Elasticsearch
  answered it there without an error.
\<close>

definition acknowledged ::
  "('w, 'm) relay_env_scheme \<Rightarrow> go_ctx \<Rightarrow> (OutboxEvent \<times> Syncer \<times> 'w) list \<Rightarrow> int \<Rightarrow> OutboxEvent \<Rightarrow> bool" where
  "acknowledged env ctx log i row \<longleftrightarrow> (\<exists>(c, s, w) \<in> set log. ev_ID c = i \<and> row_request c = row_request row
     \<and> (\<exists>req resp w'. row_request c = Some req
         \<and> es_do env (WithTimeout ctx (outboxSendTimeout s)) req w = (Inr resp, w') \<and> \<not> er_IsError resp))"

lemma acknowledged_same_request:
  "row_request row = row_request row' \<Longrightarrow> acknowledged env ctx log i row = acknowledged env ctx log i row'"
  by (simp add: acknowledged_def)

lemma acknowledged_later: "acknowledged env ctx log i row \<Longrightarrow> acknowledged env ctx (x # log) i row"
  by (auto simp: acknowledged_def)

lemma row_request_claim_set: "row_request (claim_set u tok r) = row_request r"
  by (simp add: row_request_def claim_set_def)

lemma process_rows_sent:
  assumes "relay_table env rows cell"
  shows "process_rows env ctx batch rws s w = (res, s', w') \<Longrightarrow> r \<in> set (rows w') \<Longrightarrow>
     ev_Status r = OutboxStatusSent \<Longrightarrow> r \<notin> set (rows w) \<Longrightarrow>
     \<exists>c \<in> set rws. ev_ID r = ev_ID c \<and> acknowledged env ctx (sends env ctx rws s w) (ev_ID r) c"
proof (induction rws arbitrary: batch s w)
  case Nil
  then show ?case by simp
next
  case (Cons row rws)
  obtain q s1 w1 where q: "processOutboxRow env ctx row s w = (q, s1, w1)" by (metis prod.collapse)
  show ?case
  proof (cases "r \<in> set (rows w1)")
    case True
    from processOutboxRow_sent [OF assms q True Cons.prems(3,4)]
    have "ev_ID r = ev_ID row" "acknowledged env ctx [(row, s, w)] (ev_ID r) row"
      unfolding acknowledged_def by fastforce+
    then show ?thesis by (auto simp: acknowledged_def)
  next
    case False
    then obtain outcome where "q = Inr outcome" using Cons.prems q by (cases q) auto
    with Cons.prems(1) q have "process_rows env ctx (count_outcome outcome batch) rws s1 w1 = (res, s', w')"
      by simp
    from Cons.IH [OF this Cons.prems(2,3) False] obtain c where
      "c \<in> set rws" "ev_ID r = ev_ID c" "acknowledged env ctx (sends env ctx rws s1 w1) (ev_ID r) c" by blast
    with q \<open>q = Inr outcome\<close> show ?thesis by (intro bexI [of _ c]) (simp_all add: acknowledged_later)
  qed
qed

lemma runOutboxBatch_delivers:
  assumes "relay_table env rows cell"
    and "runOutboxBatch env ctx s w = ((b, None), s', w')"
    and "now = fst (rt_now env w)" "now < cell (now + oc_Lease (cfg_Outbox (sy_cfg s)))"
    and "r \<in> set (take (nat (oc_BatchSize (cfg_Outbox (sy_cfg s)))) (filter (claimable now) (rows w)))"
  shows "\<exists>r' \<in> set (rows w'). ev_ID r' = ev_ID r \<and> is_outcome (ev_Status r')
     \<and> (ev_Status r' = OutboxStatusSent \<longrightarrow> acknowledged env ctx (batch_sends env ctx s w) (ev_ID r) r)"
proof -
  let ?k = "oc_BatchSize (cfg_Outbox (sy_cfg s))" and ?lease = "oc_Lease (cfg_Outbox (sy_cfg s))"
  note outbox = relay_table.axioms(1) [OF assms(1)]
  have k: "0 < ?k" using assms(5) by (cases "0 < ?k") simp_all
  obtain cs w1 outs where claim: "claimPending env ctx ?k ?lease w = (Inr cs, w1)"
    and proc: "process_rows env ctx (zero_batch\<lparr>br_Claimed := int (length cs)\<rparr>) cs s w1 = ((b, None), s', w')"
    and outs: "\<forall>d \<in> set outs. is_outcome d" "length outs = length cs"
    "\<forall>(c, d) \<in> set (zip cs outs). \<exists>r \<in> set (rows w'). ev_ID r = ev_ID c \<and> ev_Status r = d"
    using runOutboxBatch_outcomes [OF assms(1,2)] assms(2)
    by (fastforce simp: runOutboxBatch_def split: prod.splits sum.splits option.splits)
  note facts = claimPending_facts [OF outbox claim]
  have sends: "batch_sends env ctx s w = sends env ctx cs s w1" by (simp add: batch_sends_def claim)
  from outbox_table.claimPending_oldest [OF outbox claim k] assms(3,4)
  have "map ev_ID cs = map ev_ID (take (nat ?k) (filter (claimable now) (rows w)))" by simp
  with assms(5) obtain c where c: "c \<in> set cs" "ev_ID c = ev_ID r" by (metis imageE imageI list.set_map)
  with outs obtain d where d: "(c, d) \<in> set (zip cs outs)" by (metis in_set_impl_in_set_zip1)
  with outs obtain r' where r': "r' \<in> set (rows w')" "ev_ID r' = ev_ID c" "is_outcome (ev_Status r')"
    by (fastforce dest: set_zip_rightD)
  have same: "row_request x = row_request r" if "x \<in> set cs" "ev_ID x = ev_ID r" for x
  proof -
    from facts that(1) obtain y where y: "y \<in> set (rows w)" "x = claim_set (fst (rt_now env w) + ?lease) (ev_LeaseToken x) y"
      by blast
    have "ev_ID y = ev_ID x" by (subst y(2)) simp
    moreover have "r \<in> set (rows w)" using assms(5) by (auto dest: in_set_takeD)
    ultimately have "y = r"
      using that(2) y(1) table_ok_unique [OF outbox_table.rows_ok [OF outbox]] by metis
    then show ?thesis using y(2) row_request_claim_set by metis
  qed
  have "acknowledged env ctx (batch_sends env ctx s w) (ev_ID r) r" if sent: "ev_Status r' = OutboxStatusSent"
  proof -
    have "r' \<notin> set (rows w1)"
    proof
      assume "r' \<in> set (rows w1)"
      moreover have "store_row cell c \<in> set (rows w1)" "ev_Status c = OutboxStatusProcessing"
        using facts c(1) by (metis claim_set_fields(2))+
      ultimately have "r' = store_row cell c"
        using r'(2) table_ok_unique [OF outbox_table.rows_ok [OF outbox]] by (metis store_row_frame(1))
      with sent show False using \<open>ev_Status c = OutboxStatusProcessing\<close> by simp
    qed
    from process_rows_sent [OF assms(1) proc r'(1) sent this] obtain x where
      "x \<in> set cs" "ev_ID r' = ev_ID x" "acknowledged env ctx (sends env ctx cs s w1) (ev_ID r') x" by blast
    with same [of x] r'(2) c(2) sends show ?thesis by (metis acknowledged_same_request)
  qed
  with r' c(2) show ?thesis by auto
qed

section \<open>Inserts\<close>

text \<open>An insert that succeeds appends its rows under new keys, with one time of creation.\<close>

definition created :: "(time \<Rightarrow> time) \<Rightarrow> time \<Rightarrow> int \<Rightarrow> OutboxEvent \<Rightarrow> OutboxEvent" where
  "created cell t i r = store_row cell (r\<lparr>ev_ID := i, ev_CreatedAt := t\<rparr>)"

locale outbox_inserts = outbox_table env rows cell
  for env :: "('w, 'm) outbox_db_scheme" and rows and cell +
  assumes create_ok: "db_create env ctx h batch new w = (None, w') \<Longrightarrow>
    \<exists>ids t. length ids = length new \<and> rows w' = rows w @ map2 (created cell t) ids new"

lemma created_claimable: "claimable now (created cell t i (pending_row ev payload))"
  by (simp add: claimable_def created_def pending_row_def)

lemma created_request: "row_request (created cell t i r) = row_request r"
  by (simp add: row_request_def created_def)

lemma created_ID [simp]: "ev_ID (created cell t i r) = i"
  by (simp add: created_def)

lemma rows_of_events_claimable:
  "r \<in> set (rows_of_events env events) \<Longrightarrow> claimable now (created cell t i r)"
  by (auto simp: rows_of_events_def created_claimable)

text \<open>The rows of a write, from the callback to the end of a batch that is large enough.\<close>

lemma batch_delivers_created:
  assumes "relay_table env rows cell" "runOutboxBatch env ctx s w = ((b, None), s', w')"
    and "now = fst (rt_now env w)" "now < cell (now + oc_Lease (cfg_Outbox (sy_cfg s)))"
    and "rows w = old @ map2 (created cell t) ids new" "length ids = length new"
    and "\<forall>r \<in> set new. \<forall>i. claimable now (created cell t i r)"
    and "int (length (filter (claimable now) (rows w))) \<le> oc_BatchSize (cfg_Outbox (sy_cfg s))"
    and "(i, r) \<in> set (zip ids new)"
  shows "\<exists>r' \<in> set (rows w'). ev_ID r' = i \<and> is_outcome (ev_Status r')
     \<and> (ev_Status r' = OutboxStatusSent \<longrightarrow> acknowledged env ctx (batch_sends env ctx s w) i r)"
proof -
  let ?r = "created cell t i r"
  have "?r \<in> set (rows w)" using assms(5,9) by (auto simp: image_iff intro!: bexI [of _ "(i, r)"])
  moreover have "r \<in> set new" using assms(9) by (rule set_zip_rightD)
  ultimately have "?r \<in> set (filter (claimable now) (rows w))" using assms(7) by auto
  moreover have "take (nat (oc_BatchSize (cfg_Outbox (sy_cfg s)))) (filter (claimable now) (rows w))
      = filter (claimable now) (rows w)" using assms(8) by (intro take_all) linarith
  ultimately obtain r' where "r' \<in> set (rows w')" "ev_ID r' = ev_ID ?r" "is_outcome (ev_Status r')"
    "ev_Status r' = OutboxStatusSent \<longrightarrow> acknowledged env ctx (batch_sends env ctx s w) i ?r"
    using runOutboxBatch_delivers [OF assms(1-4), of ?r] by auto
  moreover have "acknowledged env ctx (batch_sends env ctx s w) i ?r
      = acknowledged env ctx (batch_sends env ctx s w) i r" by (rule acknowledged_same_request [OF created_request])
  ultimately show ?thesis by (intro bexI [of _ r']) simp_all
qed

lemma after_write_inserts:
  assumes "gd_Statement db = Some st" "gd_Error db = None"
    and "resolveModels s st = (models, Some entry, True)" "me_autoSync entry" "sy_outbox s"
    and "events = write_events env k entry st models w" "events \<noteq> []"
    and "after_write env k db s w = (db', s', w')" "gd_Error db' = None"
  shows "db_create env (flushContext (st_Context st)) (gd_handle db) 100 (rows_of_events env events)
      (write_world env k w) = (None, w')"
proof -
  have src: "\<forall>ev \<in> set events. se_source ev \<noteq> failureSourceFullSync"
    using write_events_source assms(6)
    by (fastforce simp: failureSourceCallback_def failureSourceFullSync_def)
  have "enqueueEvents env db events s (write_world env k w) = (db', s', w')"
    using after_write_identified [OF assms(1-4), of env k w, symmetric] assms(6,8) by simp
  from enqueueEvents_outcome [OF this assms(1,2,7,5) src] assms(9) show ?thesis by blast
qed

section \<open>Inserts of the reference world\<close>

lemma mem_create_rows_created:
  "mem_create_rows now new rs = rs @ map2 (created datetime_cell now)
     (map (\<lambda>k. (if rs = [] then 0 else ev_ID (last rs)) + 1 + int k) [0..<length new]) new"
  by (simp add: mem_create_rows_def created_def split_def)

lemma sorted_last_le: "sorted_wrt (<) (map ev_ID rs) \<Longrightarrow> r \<in> set rs \<Longrightarrow> ev_ID r \<le> ev_ID (last rs)"
proof (induction rs)
  case Nil
  then show ?case by simp
next
  case (Cons x rs)
  show ?case
  proof (cases "rs = []")
    case True
    with Cons.prems show ?thesis by simp
  next
    case False
    with Cons.prems have "ev_ID x < ev_ID (last rs)" by simp
    from less_imp_le [OF this] Cons False show ?thesis by auto
  qed
qed

lemma table_ok_append:
  "table_ok cell rs \<Longrightarrow> table_ok cell new \<Longrightarrow>
     (\<And>x y. x \<in> set rs \<Longrightarrow> y \<in> set new \<Longrightarrow> ev_ID x < ev_ID y) \<Longrightarrow> table_ok cell (rs @ new)"
  by (auto simp: table_ok_def sorted_wrt_append)

lemma table_ok_mem_create:
  assumes "table_ok datetime_cell rs"
  shows "table_ok datetime_cell (mem_create_rows now new rs)"
proof -
  let ?b = "if rs = [] then 0 else ev_ID (last rs)"
  let ?new = "map2 (created datetime_cell now) (map (\<lambda>k. ?b + 1 + int k) [0..<length new]) new"
  have low: "0 \<le> ?b" "ev_ID r \<le> ?b" if "r \<in> set rs" for r
    using assms that sorted_last_le [of rs r] by (fastforce simp: table_ok_def)+
  have "0 \<le> ?b" using assms by (auto simp: table_ok_def intro: less_imp_le)
  moreover have ids: "map ev_ID ?new = map (\<lambda>k. ?b + 1 + int k) [0..<length new]"
    by (simp add: comp_def split_def)
  moreover have "sorted_wrt (<) (map (\<lambda>k. ?b + 1 + int k) [0..<length new])"
    by (simp add: sorted_wrt_map)
  moreover have "store_row datetime_cell r = r" if "r \<in> set ?new" for r
    using that by (auto simp: created_def intro!: store_row_idem mem.cell_idem)
  moreover have later: "ev_ID x < ev_ID y" if "x \<in> set rs" "y \<in> set ?new" for x y
  proof -
    from that(2) have "ev_ID y \<in> set (map ev_ID ?new)" by (metis imageI list.set_map)
    then have "?b < ev_ID y" unfolding ids by auto
    with low(2) [OF that(1)] show ?thesis by simp
  qed
  moreover have "0 < ev_ID y" if "y \<in> set ?new" for y
  proof -
    from that have "ev_ID y \<in> set (map ev_ID ?new)" by (metis imageI list.set_map)
    with \<open>0 \<le> ?b\<close> show ?thesis unfolding ids by auto
  qed
  ultimately have new: "table_ok datetime_cell ?new" unfolding table_ok_def ids by blast
  show ?thesis unfolding mem_create_rows_created
    by (rule table_ok_append [OF assms new]) (rule later)
qed

interpretation mem_inserts: outbox_inserts "mem_db ext" mem_rows datetime_cell
proof (unfold_locales, goal_cases)
  case (1 ctx h batch new w w')
  then obtain w0 where "mem_rows w0 = mem_rows w"
    "w' = w0\<lparr>mw_table := mem_create_rows (mw_now w0) new (mem_rows w0)\<rparr>"
    by (auto simp: mem_db_def split: prod.splits sum.splits dest!: mem_stmt_Inr)
  then have "mem_rows w' = mem_create_rows (mw_now w0) new (mem_rows w)"
    by (simp add: mem_rows_set table_ok_mem_create)
  then show ?case
    by (intro exI [of _ "map (\<lambda>k. (if mem_rows w = [] then 0 else ev_ID (last (mem_rows w))) + 1 + int k) [0..<length new]"]
        exI [of _ "mw_now w0"]) (simp add: mem_create_rows_created)
qed

lemma length_one: "length xs = 1 \<Longrightarrow> \<exists>x. xs = [x]"
  by (cases xs) auto

lemma mem_rows_relay_world: "table_ok datetime_cell rs \<Longrightarrow> mem_rows (relay_world rs replies n) = rs"
  by (simp add: mem_rows_def relay_world_def)

section \<open>Properties\<close>

text \<open>
  C8. A claim takes the oldest rows: when it succeeds, under a lease that outlasts the precision of the
  column, it has claimed exactly the first rows, by key, of those that could be claimed, a full batch
  of them where there are enough; so no row starves behind younger ones.
\<close>

theorem claim_takes_oldest:
  assumes "outbox_table env rows cell"
    and "claimPending env ctx batchSize lease w = (Inr cs, w')" "0 < batchSize"
    and "fst (rt_now env w) < cell (fst (rt_now env w) + lease)"
  shows "map ev_ID cs =
      map ev_ID (take (nat batchSize) (filter (claimable (fst (rt_now env w))) (rows w)))"
  by (rule outbox_table.claimPending_oldest [OF assms])

theorem claim_takes_oldest_witness:
  "\<exists>cs w'. claimPending (mem_db ()) Background 2 (30 * Second)
       (sample_world [(sample_row 1)\<lparr>ev_Status := OutboxStatusDead\<rparr>, sample_row 2, sample_row 3, sample_row 4]) = (Inr cs, w')
     \<and> map ev_ID cs = [2, 3]"
proof -
  let ?w = "sample_world [(sample_row 1)\<lparr>ev_Status := OutboxStatusDead\<rparr>, sample_row 2, sample_row 3, sample_row 4]"
  let ?x = "claimPending (mem_db ()) Background 2 (30 * Second) ?w"
  have "\<not> isl (fst ?x)" by code_simp
  then obtain cs w' where x: "?x = (Inr cs, w')" by (metis prod.collapse sum.collapse(2))
  have lease: "fst (rt_now (mem_db ()) ?w) < datetime_cell (fst (rt_now (mem_db ()) ?w) + 30 * Second)"
    by code_simp
  have "map ev_ID (take (nat 2) (filter (claimable (fst (rt_now (mem_db ()) ?w))) (mem_rows ?w))) = [2, 3]"
    by code_simp
  with claim_takes_oldest [OF mem.outbox_table_axioms x _ lease] x show ?thesis by simp
qed

text \<open>
  C2. What auto-sync writes is delivered: when a callback has written its events without an error and the
  transaction is committed, and a batch then runs without an error whose size covers the backlog, the
  table has one new row for each event, in order, behind the old ones, and the batch has settled each
  of them as sent, retried or dead; the sent ones only after Elasticsearch has answered the request of
  their event, in this batch, without an error.
\<close>

theorem written_events_are_delivered:
  assumes "outbox_inserts senv srows cell" "relay_table renv rows cell"
    and "gd_Statement db = Some st" "gd_Error db = None"
    and "resolveModels s st = (models, Some entry, True)" "me_autoSync entry" "sy_outbox s"
    and "events = write_events senv k entry st models w" "events \<noteq> []"
    and "after_write senv k db s w = (db', s', w')" "gd_Error db' = None"
    and "rows v = srows w'"
    and "runOutboxBatch renv ctx relay v = ((b, None), relay', v')"
    and "now = fst (rt_now renv v)" "now < cell (now + oc_Lease (cfg_Outbox (sy_cfg relay)))"
    and "int (length (filter (claimable now) (rows v))) \<le> oc_BatchSize (cfg_Outbox (sy_cfg relay))"
  shows "\<exists>ids. length ids = length events \<and> map ev_ID (rows v) = map ev_ID (srows w) @ ids
    \<and> (\<forall>(i, r) \<in> set (zip ids (rows_of_events senv events)).
         \<exists>r' \<in> set (rows v'). ev_ID r' = i \<and> is_outcome (ev_Status r')
           \<and> (ev_Status r' = OutboxStatusSent \<longrightarrow> acknowledged renv ctx (batch_sends renv ctx relay v) i r))"
proof -
  note table = outbox_inserts.axioms(1) [OF assms(1)]
  have "srows (write_world senv k w) = srows w"
    using outbox_table.now_rows [OF table] by (simp add: write_world_def) (metis prod.collapse)
  moreover have "db_create senv (flushContext (st_Context st)) (gd_handle db) 100 (rows_of_events senv events)
      (write_world senv k w) = (None, w')"
    by (rule after_write_inserts [OF assms(3-11)])
  from outbox_inserts.create_ok [OF assms(1) this] obtain ids t where
    ids: "length ids = length (rows_of_events senv events)"
    "srows w' = srows (write_world senv k w) @ map2 (created cell t) ids (rows_of_events senv events)"
    by blast
  ultimately have rows: "rows v = srows w @ map2 (created cell t) ids (rows_of_events senv events)"
    using assms(12) by simp
  have "\<exists>r' \<in> set (rows v'). ev_ID r' = i \<and> is_outcome (ev_Status r')
      \<and> (ev_Status r' = OutboxStatusSent \<longrightarrow> acknowledged renv ctx (batch_sends renv ctx relay v) i r)"
    if "(i, r) \<in> set (zip ids (rows_of_events senv events))" for i r
    by (rule batch_delivers_created [OF assms(2,13,14,15) rows ids(1) _ assms(16) that])
      (simp add: rows_of_events_claimable)
  moreover have "map ev_ID (rows v) = map ev_ID (srows w) @ ids"
    using ids(1) by (simp add: rows comp_def split_def)
  ultimately show ?thesis
    using ids(1) by (intro exI [of _ ids]) (auto simp: rows_of_events_def)
qed

theorem written_events_are_delivered_witness:
  "\<exists>ids v'. length ids = 1
     \<and> snd (snd (runOutboxBatch (mem_relay ()) Background relay_syncer (relay_world
         (mem_rows (snd (snd (after_write mem_sync OnUpdate (stmt_db (update_stmt (article 7) 1)) sync_syncer
            (sync_world []))))) [] 0))) = v'
     \<and> (\<forall>i \<in> set ids. \<exists>r' \<in> set (mem_rows v'). ev_ID r' = i \<and> is_outcome (ev_Status r'))"
proof -
  let ?st = "update_stmt (article 7) 1" and ?w = "sync_world []"
  let ?e = "the (registry_get (sy_registry sync_syncer) ''articles'')"
  let ?evs = "write_events mem_sync OnUpdate ?e ?st [RPtr (Some (article 7))] ?w"
  obtain db' s' w' where run: "after_write mem_sync OnUpdate (stmt_db ?st) sync_syncer ?w = (db', s', w')"
    by (metis prod.collapse)
  let ?v = "relay_world (mem_rows w') [] 0"
  have res: "resolveModels sync_syncer ?st = ([RPtr (Some (article 7))], Some ?e, True)"
    and auto: "me_autoSync ?e" and out: "sy_outbox sync_syncer" and len: "length ?evs = 1"
    by code_simp+
  have noerr: "gd_Error (fst (after_write mem_sync OnUpdate (stmt_db ?st) sync_syncer ?w)) = None"
    by code_simp
  then have noerr: "gd_Error db' = None" by (simp add: run)
  have "snd (fst (runOutboxBatch (mem_relay ()) Background relay_syncer (relay_world (mem_rows
      (snd (snd (after_write mem_sync OnUpdate (stmt_db ?st) sync_syncer ?w)))) [] 0))) = None"
    by code_simp
  then have "snd (fst (runOutboxBatch (mem_relay ()) Background relay_syncer ?v)) = None" by (simp add: run)
  then obtain b s2 v' where batch: "runOutboxBatch (mem_relay ()) Background relay_syncer ?v = ((b, None), s2, v')"
    by (metis prod.collapse)
  have ins: "outbox_inserts (mem_sync :: sync_world sync_env) mem_rows datetime_cell"
    unfolding mem_sync_def by (rule mem_inserts.outbox_inserts_axioms)
  have "int (length (filter (claimable 0) (mem_rows (snd (snd (after_write mem_sync OnUpdate (stmt_db ?st)
      sync_syncer ?w)))))) \<le> oc_BatchSize (cfg_Outbox (sy_cfg relay_syncer))" by code_simp
  then have size: "int (length (filter (claimable 0) (mem_rows w'))) \<le> oc_BatchSize (cfg_Outbox (sy_cfg relay_syncer))"
    by (simp add: run)
  have now: "0 = fst (rt_now (mem_relay ()) ?v)" by (simp add: mem_relay_def mem_db_def relay_world_def)
  have rows: "mem_rows ?v = mem_rows w'" by (rule mem_rows_relay_world) simp
  have lease: "0 < datetime_cell (0 + oc_Lease (cfg_Outbox (sy_cfg relay_syncer)))" by code_simp
  have "?evs \<noteq> []" using len by auto
  have db: "gd_Statement (stmt_db ?st) = Some ?st" "gd_Error (stmt_db ?st) = None"
    by (simp_all add: stmt_db_def)
  have size': "int (length (filter (claimable 0) (mem_rows ?v))) \<le> oc_BatchSize (cfg_Outbox (sy_cfg relay_syncer))"
    using size unfolding rows .
  note delivered = written_events_are_delivered [OF ins mem_relay.relay_table_axioms db res auto out refl
      \<open>?evs \<noteq> []\<close> run noerr rows batch now lease size']
  have "length (rows_of_events (mem_sync :: sync_world sync_env) ?evs) = 1" using len by (simp add: rows_of_events_def)
  then obtain r where r: "rows_of_events (mem_sync :: sync_world sync_env) ?evs = [r]" using length_one by metis
  from delivered show ?thesis
  proof (elim exE conjE)
    fix ids assume ids: "length ids = length ?evs"
      "\<forall>(i, r) \<in> set (zip ids (rows_of_events (mem_sync :: sync_world sync_env) ?evs)). \<exists>r' \<in> set (mem_rows v'). ev_ID r' = i
         \<and> is_outcome (ev_Status r') \<and> (ev_Status r' = OutboxStatusSent \<longrightarrow> acknowledged (mem_relay ()) Background
          (batch_sends (mem_relay ()) Background relay_syncer ?v) i r)"
    from ids(1) len have one: "length ids = 1" by simp
    then obtain i where i: "ids = [i]" using length_one by metis
    from ids(2) have "\<forall>i \<in> set ids. \<exists>r' \<in> set (mem_rows v'). ev_ID r' = i \<and> is_outcome (ev_Status r')"
      unfolding i r by auto
    with one show ?thesis
      by (intro exI [of _ ids] exI [of _ v']) (simp add: run batch)
  qed
qed

end
