(* ===== verification/Drains.thy ===== *)
theory Drains imports Delivery OutboxOps begin

text \<open>
  A drain without a limit (\<open>DrainOutbox\<close> of \<open>ops.go\<close>): why its loop ends.  Every row has a credit, the
  attempts that it has left; a claim keeps the credits, and each row that a batch settles loses some.
  This needs Elasticsearch to answer: a transport failure puts its row back at any number of attempts.
\<close>

section \<open>The credit of a table\<close>

definition credit :: "int \<Rightarrow> OutboxEvent \<Rightarrow> nat" where
  "credit maxAttempts r = (if unfinished r then 1 + nat (maxAttempts - ev_Attempts r) else 0)"

definition total_credit :: "int \<Rightarrow> OutboxEvent list \<Rightarrow> nat" where
  "total_credit maxAttempts rs = sum_list (map (credit maxAttempts) rs)"

lemma credit_store [simp]: "credit m (store_row cell r) = credit m r"
  by (simp add: credit_def unfinished_def)

lemma credit_claim: "claimable now r \<Longrightarrow> credit m (claim_set u tok r) = credit m r"
  by (auto simp: credit_def unfinished_def claimable_def)

lemma sum_list_le_less:
  fixes f :: "'a \<Rightarrow> nat"
  assumes "list_all2 (\<lambda>x y. f y \<le> f x) xs ys"
  shows "sum_list (map f ys) \<le> sum_list (map f xs)
    \<and> ((\<exists>(x, y) \<in> set (zip xs ys). f y < f x) \<longrightarrow> sum_list (map f ys) < sum_list (map f xs))"
  using assms by (induction rule: list_all2_induct) auto

text \<open>Two states of a table, compared row by row.\<close>

lemma total_credit_step:
  assumes "distinct (map ev_ID rs')" "map ev_ID rs' = map ev_ID rs"
    and "\<And>r. r \<in> set rs \<Longrightarrow> \<exists>r' \<in> set rs'. ev_ID r' = ev_ID r \<and> credit m r' \<le> credit m r"
  shows "total_credit m rs' \<le> total_credit m rs"
    and "r \<in> set rs \<Longrightarrow> r' \<in> set rs' \<Longrightarrow> ev_ID r' = ev_ID r \<Longrightarrow> credit m r' < credit m r \<Longrightarrow>
      total_credit m rs' < total_credit m rs"
proof -
  have len: "length rs' = length rs" using assms(2) by (rule map_eq_imp_length_eq)
  have nth: "rs' ! i = y" if "i < length rs" "y \<in> set rs'" "ev_ID y = ev_ID (rs ! i)" for i y
  proof -
    from that(2) obtain j where j: "j < length rs'" "y = rs' ! j" by (metis in_set_conv_nth)
    moreover have "map ev_ID rs' ! i = map ev_ID rs ! i" using assms(2) by simp
    ultimately have "map ev_ID rs' ! j = map ev_ID rs' ! i" using that len by simp
    with that j len nth_eq_iff_index_eq [OF assms(1), of j i] show ?thesis by simp
  qed
  have all: "list_all2 (\<lambda>x y. credit m y \<le> credit m x) rs rs'"
  proof (rule list_all2_all_nthI)
    fix i assume i: "i < length rs"
    from assms(3) [OF nth_mem [OF i]] obtain y where "y \<in> set rs'" "ev_ID y = ev_ID (rs ! i)"
      "credit m y \<le> credit m (rs ! i)" by blast
    with nth [OF i] show "credit m (rs' ! i) \<le> credit m (rs ! i)" by simp
  qed (simp add: len)
  show "total_credit m rs' \<le> total_credit m rs"
    using sum_list_le_less [OF all] by (simp add: total_credit_def)
  assume r: "r \<in> set rs" "r' \<in> set rs'" "ev_ID r' = ev_ID r" "credit m r' < credit m r"
  from r(1) obtain i where i: "i < length rs" "r = rs ! i" by (metis in_set_conv_nth)
  with nth [OF i(1) r(2)] r(3) have "r' = rs' ! i" by simp
  with i len have "(r, r') \<in> set (zip rs rs')" by (auto simp: set_zip)
  with r(4) sum_list_le_less [OF all] show "total_credit m rs' < total_credit m rs"
    by (auto simp: total_credit_def)
qed

section \<open>A delivery spends credit\<close>

text \<open>Elasticsearch answers: every request gets a response with a status.\<close>

definition answers :: "('w, 'm) relay_env_scheme \<Rightarrow> bool" where
  "answers env \<longleftrightarrow> (\<forall>ctx req w. \<exists>resp w'. es_do env ctx req w = (Inr resp, w') \<and> er_StatusCode resp \<noteq> 0)"

lemma answered_no_transport_failure:
  assumes "answers env" "sendOutboxRow env ctx row w = ((status, Some e), w')"
  shows "\<not> is_transport_failure status e"
proof (cases "row_request row")
  case None
  with assms(2) sendOutboxRow_unsupported [OF None, of env ctx w] show ?thesis by auto
next
  case (Some req)
  from assms(1) obtain resp w1 where "es_do env ctx req w = (Inr resp, w1)" "er_StatusCode resp \<noteq> 0"
    unfolding answers_def by blast
  with assms(2) Some show ?thesis
    by (auto simp: sendOutboxRow_def is_transport_failure_def split: if_splits sum.splits)
qed

lemma wrap64_succ: "in_int64 m \<Longrightarrow> a < m \<Longrightarrow> a < wrap64 (a + 1)"
proof (cases "in_int64 (a + 1)")
  case False
  assume "in_int64 m" "a < m"
  with False have "a + 1 < - (2 ^ 63)" by (auto simp: in_int64_def)
  moreover have "- (2 ^ 63) \<le> wrap64 (a + 1)" using in_int64_wrap64 [of "a + 1"] by (simp add: in_int64_def)
  ultimately show ?thesis by linarith
qed simp

lemma relay_assignment_credit:
  assumes "d = relay_decision s row status sendErr" "\<And>e. sendErr = Some e \<Longrightarrow> \<not> is_transport_failure status e"
    and "m = oc_MaxAttempts (cfg_Outbox (sy_cfg s))" "in_int64 m" "unfinished row"
  shows "credit m (relay_assignment s row d sendErr now x) < credit m row"
proof (cases "d = OutboxStatusPending")
  case True
  with assms have "ev_Attempts row < m"
    by (auto simp: relay_decision_def split: option.splits if_splits)
  with wrap64_succ [OF assms(4) this] show ?thesis
    using True assms(5) by (simp add: credit_def unfinished_def)
next
  case False
  with assms(1) relay_decision_cases [of s row status sendErr] have "d = OutboxStatusSent \<or> d = OutboxStatusDead"
    by auto
  with assms(5) show ?thesis by (auto simp: credit_def unfinished_def)
qed

lemma processOutboxRow_spends:
  assumes "relay_table env rows cell" "answers env"
    and run: "processOutboxRow env ctx row s w = (Inr d, s', w')"
    and m: "m = oc_MaxAttempts (cfg_Outbox (sy_cfg s))" "in_int64 m"
    and row: "store_row cell row \<in> set (rows w)" "ev_Status row = OutboxStatusProcessing"
  shows "(\<exists>r \<in> set (rows w'). ev_ID r = ev_ID row \<and> credit m r < credit m row)
    \<and> (\<forall>r \<in> set (rows w). ev_ID r \<noteq> ev_ID row \<longrightarrow> r \<in> set (rows w')) \<and> sy_cfg s' = sy_cfg s"
proof -
  note outbox = relay_table.axioms(1) [OF assms(1)]
  obtain status sendErr w1 where
    send: "sendOutboxRow env (WithTimeout ctx (outboxSendTimeout s)) row w = ((status, sendErr), w1)"
    by (metis prod.collapse)
  let ?f = "\<lambda>now. relay_assignment s row (relay_decision s row status sendErr) sendErr now"
  obtain w2 what wres w3 now where wb: "rows w2 = rows w" "rows w' = rows w3"
    "writeback env (flushContext ctx) row what (?f now) w2 = (wres, w3)"
    "Inr d = (case wres of None \<Rightarrow> Inr (relay_decision s row status sendErr) | Some err \<Rightarrow> Inl err)"
    "sy_cfg s' = sy_cfg s"
    using relay_table.processOutboxRow_writeback [OF assms(1) run send refl] by blast
  then have "wres = None" by (cases wres) simp_all
  with outbox_table.writeback_success [OF outbox _ relay_assignment_keeps_id] wb
  have upd: "rows w' = sql_update cell (fenced (ev_ID row) (ev_LeaseToken row)) (?f now) (rows w)" by metis
  have "unfinished row" using row(2) by (simp add: unfinished_def)
  from relay_assignment_credit [OF refl _ m this]
  have "credit m (?f now (store_row cell row)) < credit m row"
    using answered_no_transport_failure [OF assms(2)] send by metis
  moreover have "store_row cell (?f now (store_row cell row)) \<in> set (rows w')"
    using row stored_fenced [of row cell] by (auto simp: upd in_sql_update intro!: bexI)
  moreover have "ev_ID (?f now (store_row cell row)) = ev_ID row"
    using relay_assignment_keeps_id by (simp add: keeps_id_def)
  ultimately have "\<exists>r \<in> set (rows w'). ev_ID r = ev_ID row \<and> credit m r < credit m row"
    by (metis credit_store store_row_frame(1))
  moreover have "r \<in> set (rows w')" if "r \<in> set (rows w)" "ev_ID r \<noteq> ev_ID row" for r
    using that by (auto simp: upd in_sql_update fenced_def)
  ultimately show ?thesis using wb(5) by blast
qed

lemma process_rows_spend:
  assumes "relay_table env rows cell" "answers env" "in_int64 m"
  shows "process_rows env ctx batch rws s w = ((b, None), s', w') \<Longrightarrow> distinct (map ev_ID rws) \<Longrightarrow>
     m = oc_MaxAttempts (cfg_Outbox (sy_cfg s)) \<Longrightarrow>
     \<forall>c \<in> set rws. store_row cell c \<in> set (rows w) \<and> ev_Status c = OutboxStatusProcessing \<Longrightarrow>
     (\<forall>c \<in> set rws. \<exists>r \<in> set (rows w'). ev_ID r = ev_ID c \<and> credit m r < credit m c)
     \<and> (\<forall>r \<in> set (rows w). ev_ID r \<notin> ev_ID ` set rws \<longrightarrow> r \<in> set (rows w')) \<and> sy_cfg s' = sy_cfg s"
proof (induction rws arbitrary: batch s w)
  case Nil
  then show ?case by simp
next
  case (Cons row rws)
  obtain q s1 w1 where q: "processOutboxRow env ctx row s w = (q, s1, w1)" by (metis prod.collapse)
  with Cons.prems(1) obtain d where d: "q = Inr d" by (cases q) simp_all
  with q Cons.prems(1) have rest: "process_rows env ctx (count_outcome d batch) rws s1 w1 = ((b, None), s', w')"
    by simp
  have row: "store_row cell row \<in> set (rows w)" "ev_Status row = OutboxStatusProcessing"
    using Cons.prems(4) by auto
  note spends = processOutboxRow_spends [OF assms(1,2) q [unfolded d] Cons.prems(3) assms(3) row]
  have other: "ev_ID c \<noteq> ev_ID row" if "c \<in> set rws" for c
    using Cons.prems(2) that by (metis distinct.simps(2) image_eqI list.set_map list.simps(9))
  have "\<forall>c \<in> set rws. store_row cell c \<in> set (rows w1) \<and> ev_Status c = OutboxStatusProcessing"
    using Cons.prems(4) spends other by auto
  with Cons.IH [OF rest] Cons.prems(2,3) spends have ih:
    "\<forall>c \<in> set rws. \<exists>r \<in> set (rows w'). ev_ID r = ev_ID c \<and> credit m r < credit m c"
    "\<forall>r \<in> set (rows w1). ev_ID r \<notin> ev_ID ` set rws \<longrightarrow> r \<in> set (rows w')" "sy_cfg s' = sy_cfg s1"
    by auto
  from spends obtain r where r: "r \<in> set (rows w1)" "ev_ID r = ev_ID row" "credit m r < credit m row" by blast
  with ih(2) other have "r \<in> set (rows w')" by (metis imageE)
  with r ih spends show ?case by auto
qed

lemma runOutboxBatch_spends:
  assumes "relay_table env rows cell" "answers env"
    and run: "runOutboxBatch env ctx s w = ((b, None), s', w')" "br_Claimed b \<noteq> 0"
    and m: "m = oc_MaxAttempts (cfg_Outbox (sy_cfg s))" "in_int64 m"
  shows "total_credit m (rows w') < total_credit m (rows w) \<and> sy_cfg s' = sy_cfg s"
proof -
  note outbox = relay_table.axioms(1) [OF assms(1)]
  let ?k = "oc_BatchSize (cfg_Outbox (sy_cfg s))" and ?lease = "oc_Lease (cfg_Outbox (sy_cfg s))"
  obtain cs w1 where claim: "claimPending env ctx ?k ?lease w = (Inr cs, w1)"
    and proc: "process_rows env ctx (zero_batch\<lparr>br_Claimed := int (length cs)\<rparr>) cs s w1 = ((b, None), s', w')"
    using run(1) by (auto simp: runOutboxBatch_def split: prod.splits sum.splits option.splits)
  note facts = claimPending_facts [OF outbox claim]
  have claimed: "store_row cell c \<in> set (rows w1) \<and> ev_Status c = OutboxStatusProcessing" if "c \<in> set cs" for c
    using facts that by (metis claim_set_fields(2))
  have ids: "distinct (map ev_ID cs)" using facts by (simp add: strict_sorted_iff)
  note spent = process_rows_spend [OF assms(1,2) m(2) proc ids m(1)] claimed
  have same: "map ev_ID (rows w') = map ev_ID (rows w)"
    using relay_table.runOutboxBatch_only_open [OF assms(1) run(1)] by (simp add: only_open_def)
  have dist: "distinct (map ev_ID (rows w'))"
    using table_ok_distinct [OF outbox_table.rows_ok [OF outbox]] .
  have origin: "\<exists>x \<in> set (rows w). ev_ID x = ev_ID c \<and> credit m x = credit m c" if "c \<in> set cs" for c
  proof -
    from facts that obtain x where x: "x \<in> set (rows w)" "claimable (fst (rt_now env w)) x"
      "c = claim_set (fst (rt_now env w) + ?lease) (ev_LeaseToken c) x" by blast
    from credit_claim [OF x(2)] x(3) have "credit m x = credit m c" by metis
    moreover have "ev_ID x = ev_ID c" by (subst x(3)) simp
    ultimately show ?thesis using x(1) by blast
  qed
  have down: "\<exists>r' \<in> set (rows w'). ev_ID r' = ev_ID r \<and> credit m r' \<le> credit m r" if r: "r \<in> set (rows w)" for r
  proof (cases "ev_ID r \<in> ev_ID ` set cs")
    case True
    then obtain c where c: "c \<in> set cs" "ev_ID c = ev_ID r" by auto
    with origin obtain x where "x \<in> set (rows w)" "ev_ID x = ev_ID c" "credit m x = credit m c" by blast
    with r c(2) table_ok_unique [OF outbox_table.rows_ok [OF outbox]] have "credit m r = credit m c" by metis
    with spent c show ?thesis by (metis order_less_imp_le)
  next
    case False
    with facts r spent show ?thesis by blast
  qed
  from proc fold_count_outcome run(2) have "cs \<noteq> []"
    by (cases cs) (auto simp: zero_batch_def)
  then obtain c where c: "c \<in> set cs" by (cases cs) auto
  from origin [OF c] obtain x where "x \<in> set (rows w)" "ev_ID x = ev_ID c" "credit m x = credit m c" by blast
  moreover from spent c obtain r where "r \<in> set (rows w')" "ev_ID r = ev_ID c" "credit m r < credit m c" by blast
  ultimately have "total_credit m (rows w') < total_credit m (rows w)"
    by (intro total_credit_step(2) [OF dist same down, of x r]) simp_all
  with spent show ?thesis by blast
qed

section \<open>The loop\<close>

text \<open>The state is the one that a batch without an error has left which claimed no row.\<close>

definition after_empty_batch ::
  "('w, 'm) relay_env_scheme \<Rightarrow> go_ctx \<Rightarrow> Config \<Rightarrow> Syncer \<Rightarrow> 'w \<Rightarrow> bool" where
  "after_empty_batch env ctx cfg s' w' \<longleftrightarrow>
     (\<exists>b s v. runOutboxBatch env ctx s v = ((b, None), s', w') \<and> br_Claimed b = 0 \<and> sy_cfg s = cfg)"

lemma drain_loop_spends:
  assumes "relay_table env rows cell" "answers env" "in_int64 m"
  shows "m = oc_MaxAttempts (cfg_Outbox (sy_cfg s)) \<Longrightarrow>
     \<exists>res err s' w'. drain_loop env ctx k result s w = Some ((res, err), s', w')
       \<and> dr_Batches res \<le> dr_Batches result + int (total_credit m (rows w))
       \<and> (k \<le> 0 \<longrightarrow> err = None \<longrightarrow> after_empty_batch env ctx (sy_cfg s) s' w')"
proof (induction "total_credit m (rows w)" arbitrary: result s w rule: less_induct)
  case less
  obtain b err s1 w1 where step: "runOutboxBatch env ctx s w = ((b, err), s1, w1)" by (metis prod.collapse)
  consider "\<not> (k \<le> 0 \<or> dr_Batches result < k)"
    | "k \<le> 0 \<or> dr_Batches result < k" "err \<noteq> None \<or> br_Claimed b = 0"
    | "k \<le> 0 \<or> dr_Batches result < k" "err = None" "br_Claimed b \<noteq> 0" by blast
  then show ?case
  proof cases
    case 1
    then show ?thesis by (subst drain_loop.simps) simp
  next
    case 2
    then show ?thesis using step
      by (cases err) (subst drain_loop.simps, auto simp: Let_def after_empty_batch_def)+
  next
    case 3
    note spent = runOutboxBatch_spends [OF assms(1,2) step [unfolded 3(2)] 3(3) less.prems assms(3)]
    from less.hyps [of w1 s1 "add_batch b result"] spent less.prems obtain res e s' w' where
      "drain_loop env ctx k (add_batch b result) s1 w1 = Some ((res, e), s', w')"
      "dr_Batches res \<le> dr_Batches (add_batch b result) + int (total_credit m (rows w1))"
      "k \<le> 0 \<longrightarrow> e = None \<longrightarrow> after_empty_batch env ctx (sy_cfg s1) s' w'"
      by auto
    with step 3 spent show ?thesis
      by (subst drain_loop.simps) (auto simp: Let_def add_batch_def)
  qed
qed

lemma empty_batch:
  assumes "relay_table env rows cell" "runOutboxBatch env ctx s w = ((b, None), s', w')" "br_Claimed b = 0"
    and "0 < oc_BatchSize (cfg_Outbox (sy_cfg s))" "\<And>t. t < cell (t + oc_Lease (cfg_Outbox (sy_cfg s)))"
  shows "rows w' = rows w \<and> (\<forall>r \<in> set (rows w). \<not> claimable (fst (rt_now env w)) r)"
proof -
  note outbox = relay_table.axioms(1) [OF assms(1)]
  let ?k = "oc_BatchSize (cfg_Outbox (sy_cfg s))" and ?lease = "oc_Lease (cfg_Outbox (sy_cfg s))"
  obtain cs w1 where claim: "claimPending env ctx ?k ?lease w = (Inr cs, w1)"
    and proc: "process_rows env ctx (zero_batch\<lparr>br_Claimed := int (length cs)\<rparr>) cs s w1 = ((b, None), s', w')"
    using assms(2) by (auto simp: runOutboxBatch_def split: prod.splits sum.splits option.splits)
  obtain outs where "b = fold count_outcome outs (zero_batch\<lparr>br_Claimed := int (length cs)\<rparr>)"
    using runOutboxBatch_outcomes [OF assms(1,2)] claim by auto
  with assms(3) fold_count_outcome [of outs "zero_batch\<lparr>br_Claimed := int (length cs)\<rparr>"]
  have cs: "cs = []" by (simp add: zero_batch_def)
  with outbox_table.claimPending_oldest [OF outbox claim assms(4) assms(5)] assms(4)
  have "filter (claimable (fst (rt_now env w))) (rows w) = []" by simp
  moreover have "rows w1 = rows w"
  proof (rule nth_equalityI)
    have ids: "map ev_ID (rows w1) = map ev_ID (rows w)" and in1: "\<And>r. r \<in> set (rows w) \<Longrightarrow> r \<in> set (rows w1)"
      using claimPending_facts [OF outbox claim] cs by auto
    then show len: "length (rows w1) = length (rows w)" by (metis length_map)
    fix i assume i: "i < length (rows w1)"
    with len have "rows w ! i \<in> set (rows w1)" "rows w1 ! i \<in> set (rows w1)" using in1 by simp_all
    moreover have "ev_ID (rows w1 ! i) = ev_ID (rows w ! i)" using ids i len by (metis nth_map)
    ultimately show "rows w1 ! i = rows w ! i"
      using table_ok_unique [OF outbox_table.rows_ok [OF outbox]] by metis
  qed
  ultimately show ?thesis using proc cs by (auto simp: filter_empty_conv)
qed

section \<open>A server that always refuses\<close>

definition busy_relay :: "(relay_world, unit) relay_env_scheme" where
  "busy_relay = mem_db (relay_env_ext (\<lambda>ctx req w. (Inr (es_status 503), w)) (\<lambda>body. None) (\<lambda>s. s) mem_select ())"

lemma busy_relay_table: "relay_table busy_relay mem_rows datetime_cell"
  by (intro_locales, unfold busy_relay_def, rule mem.outbox_table_axioms, unfold_locales)
    (auto simp: mem_db_def mem_select_def split: nat.splits)

lemma busy_relay_answers: "answers busy_relay"
  by (simp add: answers_def busy_relay_def mem_db_def es_status_def)

section \<open>Property\<close>

text \<open>
  C32. A drain ends also without a limit when Elasticsearch answers, whatever its answers and however
  fast the clock runs: it makes at most as many batches as the unfinished rows have attempts left,
  with one more for each; and one that ends without an error leaves no row that could be claimed at
  the time of its last batch.
\<close>

theorem DrainOutbox_ends:
  assumes "relay_table env rows cell" "answers env"
    and "m = oc_MaxAttempts (cfg_Outbox (sy_cfg s))" "in_int64 m"
    and "0 < oc_BatchSize (cfg_Outbox (sy_cfg s))" "\<And>t. t < cell (t + oc_Lease (cfg_Outbox (sy_cfg s)))"
  shows "\<exists>result err s' w'. DrainOutbox env ctx maxBatches s w = Some ((result, err), s', w')
    \<and> dr_Batches result \<le> int (total_credit m (rows w))
    \<and> (maxBatches \<le> 0 \<longrightarrow> err = None \<longrightarrow>
        (\<exists>b s1 v v'. runOutboxBatch env ctx s1 v = ((b, None), s', v')
          \<and> db_count env ctx unfinished v' = (Inr (dr_Remaining result), w')
          \<and> rows w' = rows v \<and> (\<forall>r \<in> set (rows w'). \<not> claimable (fst (rt_now env v)) r)))"
proof -
  note outbox = relay_table.axioms(1) [OF assms(1)]
  obtain e s0 where ens: "ensureOutboxStore s = (e, s0)" by fastforce
  show ?thesis
  proof (cases e)
    case (Some err)
    with ens show ?thesis by (simp add: DrainOutbox_def zero_drain_def)
  next
    case None
    with ens have cfg: "sy_cfg s0 = sy_cfg s" by (auto simp: ensureOutboxStore_def split: if_splits)
    with drain_loop_spends [OF assms(1,2,4), of s0 ctx maxBatches zero_drain w] assms(3) obtain res err s' w1
      where loop: "drain_loop env ctx maxBatches zero_drain s0 w = Some ((res, err), s', w1)"
        "dr_Batches res \<le> int (total_credit m (rows w))"
        "maxBatches \<le> 0 \<longrightarrow> err = None \<longrightarrow> after_empty_batch env ctx (sy_cfg s) s' w1"
      by (auto simp: zero_drain_def)
    obtain q w2 where cnt: "db_count env ctx unfinished w1 = (q, w2)" by fastforce
    from outbox_table.count_rows [OF outbox cnt] have w2: "rows w2 = rows w1" by simp
    show ?thesis
    proof (cases "err = None \<and> \<not> isl q")
      case False
      with ens None loop(1,2) cnt show ?thesis
        by (cases err; cases q) (auto simp: DrainOutbox_def)
    next
      case True
      then obtain n where n: "q = Inr n" by (cases q) simp_all
      have run: "DrainOutbox env ctx maxBatches s w = Some ((res\<lparr>dr_Remaining := n\<rparr>, None), s', w2)"
        using ens None loop(1) cnt n True by (simp add: DrainOutbox_def)
      have "\<exists>b s1 v v'. runOutboxBatch env ctx s1 v = ((b, None), s', v')
          \<and> db_count env ctx unfinished v' = (Inr n, w2)
          \<and> rows w2 = rows v \<and> (\<forall>r \<in> set (rows w2). \<not> claimable (fst (rt_now env v)) r)"
        if last: "maxBatches \<le> 0"
      proof -
        from loop(3) last True obtain b s1 v where b: "runOutboxBatch env ctx s1 v = ((b, None), s', w1)"
          "br_Claimed b = 0" "sy_cfg s1 = sy_cfg s" by (auto simp: after_empty_batch_def)
        from empty_batch [OF assms(1) b(1,2)] assms(5,6) b(3)
        have "rows w1 = rows v" "\<forall>r \<in> set (rows v). \<not> claimable (fst (rt_now env v)) r" by simp_all
        with b(1) cnt n w2 show ?thesis by metis
      qed
      with run loop(2) show ?thesis by auto
    qed
  qed
qed

theorem DrainOutbox_ends_witness:
  "\<exists>result err s' w'. DrainOutbox busy_relay Background 0 relay_syncer
       (relay_world [sample_row 1, sample_row 2] [] 0) = Some ((result, err), s', w') \<and> dr_Batches result \<le> 18"
proof -
  let ?c = "cfg_Outbox (sy_cfg relay_syncer)"
  have cfg: "oc_MaxAttempts ?c = 8" "oc_BatchSize ?c = 100" "oc_Lease ?c = 30000000000" by code_simp+
  have m: "in_int64 (8 :: int)" by (simp add: in_int64_def)
  have rows: "mem_rows (relay_world [sample_row 1, sample_row 2] [] 0) = [sample_row 1, sample_row 2]"
    by code_simp
  have credit: "int (total_credit 8 [sample_row 1, sample_row 2]) = 18" by code_simp
  have lease: "t < datetime_cell (t + oc_Lease ?c)" for t
    using datetime_cell_close(1) [of "t + oc_Lease ?c"] cfg(3) by linarith
  from DrainOutbox_ends [OF busy_relay_table busy_relay_answers cfg(1) [symmetric] m _ lease,
      of Background 0 "relay_world [sample_row 1, sample_row 2] [] 0"]
  show ?thesis unfolding rows credit using cfg(2) by (simp; blast)
qed

end
