(* ===== verification/IndexAlias.thy ===== *)
theory IndexAlias imports OutboxOps begin

text \<open>
  Aliases and the physical indices behind them (\<open>index_alias.go\<close>), and \<open>EnsureIndex\<close> of
  \<open>syncer.go\<close>.  The index operations of the Elasticsearch client are arguments.  Request bodies are
  kept as values: what the source marshals are maps of strings and booleans and what it has decoded
  from JSON before, which \<open>encoding/json\<close> always encodes.  A mapping is taken to be a JSON object.
\<close>

section \<open>The services\<close>

datatype go_json = JObj "(string \<times> go_json) list" | JString string | JBool bool | JRaw string

record status_response =
  sr_StatusCode :: int
  sr_IsError :: bool
  sr_String :: string

text \<open>The decoded body of an alias request: each index with the aliases it carries.\<close>

record alias_response =
  ar_StatusCode :: int
  ar_payload :: "go_error + (string \<times> string list) list"
  ar_String :: string

datatype alias_action =
    RemoveIndex string
  | RemoveAlias string string
  | AddAlias string string bool

record 'w index_env = "'w ops_env" +
  es_get_alias :: "go_ctx \<Rightarrow> string \<Rightarrow> 'w \<Rightarrow> (go_error + alias_response) \<times> 'w"
  es_exists :: "go_ctx \<Rightarrow> string \<Rightarrow> 'w \<Rightarrow> (go_error + status_response) \<times> 'w"
  es_create :: "go_ctx \<Rightarrow> string \<Rightarrow> go_json option \<Rightarrow> 'w \<Rightarrow> (go_error + status_response) \<times> 'w"
  es_update_aliases :: "go_ctx \<Rightarrow> alias_action list \<Rightarrow> 'w \<Rightarrow> (go_error + status_response) \<times> 'w"
  es_delete_indices :: "go_ctx \<Rightarrow> string list \<Rightarrow> 'w \<Rightarrow> (go_error + status_response) \<times> 'w"
  json_object :: "string \<Rightarrow> go_error + (string \<times> go_json) list"
  fmt_list :: "string list \<Rightarrow> string"

section \<open>Resolving an alias\<close>

record aliasState =
  as_aliasName :: string
  as_targets :: "string list"
  as_legacyConcreteIdx :: bool

definition newBootstrapIndexName :: "modelEntry \<Rightarrow> time \<Rightarrow> string" where
  "newBootstrapIndexName e now = newManagedIndexName e ''bootstrap'' now"

definition newRebuildIndexName :: "modelEntry \<Rightarrow> time \<Rightarrow> string" where
  "newRebuildIndexName e now = newManagedIndexName e ''fullsync'' now"

definition indexExists ::
  "('w, 'm) index_env_scheme \<Rightarrow> go_ctx \<Rightarrow> string \<Rightarrow> 'w \<Rightarrow> (go_error + bool) \<times> 'w" where
  "indexExists env ctx index w =
     (case es_exists env ctx index w of
        (Inl err, w) \<Rightarrow> (Inl (Errorf (''essyncer: check index '' @ index @ '': '') err []), w)
      | (Inr res, w) \<Rightarrow>
          if sr_StatusCode res = 200 then (Inr True, w)
          else if sr_StatusCode res = 404 then (Inr False, w)
          else (Inl (Err (''essyncer: check index '' @ index @ '': '' @ sr_String res)), w))"

definition resolveAliasState ::
  "('w, 'm) index_env_scheme \<Rightarrow> go_ctx \<Rightarrow> string \<Rightarrow> 'w \<Rightarrow> (go_error + aliasState) \<times> 'w" where
  "resolveAliasState env ctx alias w =
     (let state = \<lparr>as_aliasName = alias, as_targets = [], as_legacyConcreteIdx = False\<rparr>
      in case es_get_alias env ctx alias w of
           (Inl err, w) \<Rightarrow> (Inl (Errorf (''essyncer: get alias '' @ alias @ '': '') err []), w)
         | (Inr res, w) \<Rightarrow>
             if ar_StatusCode res = 200
             then (case ar_payload res of
                     Inl err \<Rightarrow>
                       (Inl (Errorf (''essyncer: decode alias '' @ alias @ '': '') err []), w)
                   | Inr payload \<Rightarrow>
                       (Inr (state\<lparr>as_targets :=
                          sort (map fst (filter (\<lambda>(index, aliases). alias \<in> set aliases) payload))\<rparr>), w))
             else if ar_StatusCode res = 404
             then (case indexExists env ctx alias w of
                     (Inl err, w) \<Rightarrow> (Inl err, w)
                   | (Inr True, w) \<Rightarrow>
                       (Inr (state\<lparr>as_targets := [alias], as_legacyConcreteIdx := True\<rparr>), w)
                   | (Inr False, w) \<Rightarrow> (Inr state, w))
             else (Inl (Err (''essyncer: get alias '' @ alias @ '': '' @ ar_String res)), w))"

section \<open>Creating an index\<close>

definition buildIndexCreateBody ::
  "(string \<Rightarrow> go_error + (string \<times> go_json) list) \<Rightarrow> string option \<Rightarrow> string list
     \<Rightarrow> go_error + go_json option" where
  "buildIndexCreateBody decode mapping aliases =
     (if mapping = None \<and> aliases = [] then Inr None
      else
        case (case mapping of None \<Rightarrow> Inr [] | Some m \<Rightarrow> decode m) of
          Inl err \<Rightarrow> Inl (Errorf ''unmarshal index mapping: '' err [])
        | Inr payload \<Rightarrow>
            if aliases = [] then Inr (Some (JObj payload))
            else
              let existing = (case map_of payload ''aliases'' of Some (JObj m) \<Rightarrow> m | _ \<Rightarrow> []);
                  aliasPayload = fold (\<lambda>alias m.
                    AList.update alias (JObj [(''is_write_index'', JBool True)]) m) aliases existing
              in Inr (Some (JObj (AList.update ''aliases'' (JObj aliasPayload) payload))))"

definition createManagedIndex ::
  "('w, 'm) index_env_scheme \<Rightarrow> go_ctx \<Rightarrow> modelEntry \<Rightarrow> string \<Rightarrow> string list \<Rightarrow> 'w
     \<Rightarrow> go_error option \<times> 'w" where
  "createManagedIndex env ctx entry physicalIndex aliases w =
     (case buildIndexCreateBody (json_object env) (me_mapping entry) aliases of
        Inl err \<Rightarrow>
          (Some (Errorf (''essyncer: build index body for '' @ physicalIndex @ '': '') err []), w)
      | Inr body \<Rightarrow>
          (case es_create env ctx physicalIndex body w of
             (Inl err, w) \<Rightarrow>
               (Some (Errorf (''essyncer: create index '' @ physicalIndex @ '': '') err []), w)
           | (Inr res, w) \<Rightarrow>
               if sr_IsError res
               then (Some (Err (''essyncer: create index '' @ physicalIndex @ '': '' @ sr_String res)), w)
               else (None, w)))"

section \<open>Switching and deleting\<close>

definition buildAliasUpdateBody :: "aliasState \<Rightarrow> string \<Rightarrow> alias_action list" where
  "buildAliasUpdateBody state newIndex =
     map (\<lambda>current.
            if as_legacyConcreteIdx state \<and> current = as_aliasName state
            then RemoveIndex current
            else RemoveAlias current (as_aliasName state)) (as_targets state)
     @ [AddAlias newIndex (as_aliasName state) True]"

definition switchAliasToIndex ::
  "('w, 'm) index_env_scheme \<Rightarrow> go_ctx \<Rightarrow> aliasState \<Rightarrow> string \<Rightarrow> 'w \<Rightarrow> go_error option \<times> 'w" where
  "switchAliasToIndex env ctx state newIndex w =
     (let what = ''essyncer: switch alias '' @ as_aliasName state @ '' to '' @ newIndex @ '': ''
      in case es_update_aliases env ctx (buildAliasUpdateBody state newIndex) w of
           (Inl err, w) \<Rightarrow> (Some (Errorf what err []), w)
         | (Inr res, w) \<Rightarrow>
             if sr_IsError res then (Some (Err (what @ sr_String res)), w) else (None, w))"

definition deleteIndices ::
  "('w, 'm) index_env_scheme \<Rightarrow> go_ctx \<Rightarrow> string list \<Rightarrow> 'w \<Rightarrow> go_error option \<times> 'w" where
  "deleteIndices env ctx indices w =
     (if indices = [] then (None, w)
      else
        let what = ''essyncer: delete indices '' @ fmt_list env indices @ '': ''
        in case es_delete_indices env ctx indices w of
             (Inl err, w) \<Rightarrow> (Some (Errorf what err []), w)
           | (Inr res, w) \<Rightarrow>
               if sr_IsError res then (Some (Err (what @ sr_String res)), w) else (None, w))"

definition deleteReplacedIndices ::
  "('w, 'm) index_env_scheme \<Rightarrow> go_ctx \<Rightarrow> aliasState \<Rightarrow> 'w \<Rightarrow> go_error option \<times> 'w" where
  "deleteReplacedIndices env ctx state w =
     (if as_legacyConcreteIdx state \<or> as_targets state = [] then (None, w)
      else deleteIndices env ctx (as_targets state) w)"

text \<open>An error is only logged.\<close>

definition cleanupDetachedIndex ::
  "('w, 'm) index_env_scheme \<Rightarrow> go_ctx \<Rightarrow> string \<Rightarrow> 'w \<Rightarrow> 'w" where
  "cleanupDetachedIndex env ctx index w =
     (if index = [] then w else snd (deleteIndices env ctx [index] w))"

section \<open>Ensuring\<close>

definition ensureIndexEntry ::
  "('w, 'm) index_env_scheme \<Rightarrow> go_ctx \<Rightarrow> modelEntry \<Rightarrow> 'w \<Rightarrow> go_error option \<times> 'w" where
  "ensureIndexEntry env ctx entry w =
     (case resolveAliasState env ctx (me_indexName entry) w of
        (Inl err, w) \<Rightarrow> (Some err, w)
      | (Inr state, w) \<Rightarrow>
          if as_targets state \<noteq> [] then (None, w)
          else let (now, w) = rt_now env w
               in createManagedIndex env ctx entry (newBootstrapIndexName entry now)
                    [me_indexName entry] w)"

definition EnsureIndex ::
  "('w, 'm) index_env_scheme \<Rightarrow> model_types \<Rightarrow> go_ctx \<Rightarrow> string \<Rightarrow> Syncer \<Rightarrow> 'w
     \<Rightarrow> go_error option \<times> 'w" where
  "EnsureIndex env mt ctx model s w =
     (case getByModel mt (sy_registry s) model of
        None \<Rightarrow> (Some (Err ''essyncer: model not registered''), w)
      | Some entry \<Rightarrow> ensureIndexEntry env ctx entry w)"

text \<open>The loop stops at the first error; \<open>ensureIndices\<close> also gives the entry it occurred at.\<close>

fun ensureIndices ::
  "('w, 'm) index_env_scheme \<Rightarrow> go_ctx \<Rightarrow> modelEntry list \<Rightarrow> 'w
     \<Rightarrow> (modelEntry \<times> go_error) option \<times> 'w" where
  "ensureIndices env ctx [] w = (None, w)"
| "ensureIndices env ctx (entry # entries) w =
     (case ensureIndexEntry env ctx entry w of
        (Some err, w) \<Rightarrow> (Some (entry, err), w)
      | (None, w) \<Rightarrow> ensureIndices env ctx entries w)"

definition EnsureAllIndices ::
  "('w, 'm) index_env_scheme \<Rightarrow> go_ctx \<Rightarrow> Syncer \<Rightarrow> 'w \<Rightarrow> go_error option \<times> 'w" where
  "EnsureAllIndices env ctx s w =
     forEach (\<lambda>tableName entry (firstErr, w).
         case ensureIndexEntry env ctx entry w of
           (Some err, w) \<Rightarrow> (False, (Some err, w))
         | (None, w) \<Rightarrow> (True, (firstErr, w)))
       (sy_registry s) (None, w)"

text \<open>Both loops ensure the same indices: this one over the registry is that one over its entries.\<close>

lemma EnsureAllIndices_ensures:
  "EnsureAllIndices env ctx s w =
     map_prod (map_option snd) id (ensureIndices env ctx (allEntries (sy_registry s)) w)"
proof -
  have "forEach (\<lambda>tableName entry (firstErr, w).
         case ensureIndexEntry env ctx entry w of
           (Some err, w) \<Rightarrow> (False, (Some err, w))
         | (None, w) \<Rightarrow> (True, (firstErr, w))) r (None, w)
      = map_prod (map_option snd) id (ensureIndices env ctx (allEntries r) w)" for r
    by (induction r arbitrary: w) (auto simp: allEntries_def Let_def split: prod.splits option.splits)
  then show ?thesis by (simp add: EnsureAllIndices_def)
qed

section \<open>What a cluster does with these requests\<close>

text \<open>
  The documented behaviour of the requests, in terms of the aliases of a world: pairs of an index
  and an alias, together with the indices that exist.  The alias request is atomic.
\<close>

record cluster =
  cl_indices :: "string set"
  cl_aliases :: "(string \<times> string) set"

definition delete_index :: "string \<Rightarrow> cluster \<Rightarrow> cluster" where
  "delete_index i c =
     c\<lparr>cl_indices := cl_indices c - {i}, cl_aliases := {(x, a) \<in> cl_aliases c. x \<noteq> i}\<rparr>"

fun apply_action :: "alias_action \<Rightarrow> cluster \<Rightarrow> cluster" where
  "apply_action (RemoveIndex i) c = delete_index i c"
| "apply_action (RemoveAlias i a) c = c\<lparr>cl_aliases := cl_aliases c - {(i, a)}\<rparr>"
| "apply_action (AddAlias i a wr) c = c\<lparr>cl_aliases := insert (i, a) (cl_aliases c)\<rparr>"

definition targets :: "cluster \<Rightarrow> string \<Rightarrow> string set" where
  "targets c a = {i. (i, a) \<in> cl_aliases c}"

lemma targets_delete_index: "targets (delete_index i c) a = targets c a - {i}"
  by (auto simp: targets_def delete_index_def)

lemma targets_apply_action:
  "targets (apply_action act c) a =
     (case act of
        RemoveIndex i \<Rightarrow> targets c a - {i}
      | RemoveAlias i b \<Rightarrow> (if b = a then targets c a - {i} else targets c a)
      | AddAlias i b wr \<Rightarrow> (if b = a then insert i (targets c a) else targets c a))"
  by (cases act) (simp_all add: apply_action.simps targets_delete_index, auto simp: targets_def)

declare apply_action.simps [simp del]

lemma cl_indices_apply_action:
  "cl_indices (apply_action act c) =
     (case act of RemoveIndex i \<Rightarrow> cl_indices c - {i} | _ \<Rightarrow> cl_indices c)"
  by (cases act) (simp_all add: apply_action.simps delete_index_def)

text \<open>
  The body of the switch moves the alias: afterwards it points to the new index and to no index that
  it pointed to when its state was resolved; other aliases keep their indices, unless the index with
  the alias's own name had to give way.
\<close>

definition removals :: "bool \<Rightarrow> string \<Rightarrow> string list \<Rightarrow> alias_action list" where
  "removals legacy a is = map (\<lambda>i. if legacy \<and> i = a then RemoveIndex i else RemoveAlias i a) is"

lemma removals_simps:
  "removals legacy a [] = []"
  "removals legacy a (i # is) =
     (if legacy \<and> i = a then RemoveIndex i else RemoveAlias i a) # removals legacy a is"
  by (simp_all add: removals_def)

lemma switch_body:
  "buildAliasUpdateBody state newIndex =
     removals (as_legacyConcreteIdx state) (as_aliasName state) (as_targets state)
     @ [AddAlias newIndex (as_aliasName state) True]"
  by (simp add: buildAliasUpdateBody_def removals_def)

lemma fold_removals:
  "targets (fold apply_action (removals legacy a is) c) a = targets c a - set is"
  "\<not> legacy \<Longrightarrow> b \<noteq> a \<Longrightarrow> targets (fold apply_action (removals legacy a is) c) b = targets c b"
  "cl_indices (fold apply_action (removals legacy a is) c)
     = cl_indices c - (if legacy \<and> a \<in> set is then {a} else {})"
  by (induction "is" arbitrary: c)
    (auto simp: removals_simps targets_apply_action cl_indices_apply_action)

lemma switch_targets:
  "targets (fold apply_action (buildAliasUpdateBody state newIndex) c) (as_aliasName state)
     = insert newIndex (targets c (as_aliasName state) - set (as_targets state))"
  "cl_indices (fold apply_action (buildAliasUpdateBody state newIndex) c)
     = cl_indices c - (if as_legacyConcreteIdx state \<and> as_aliasName state \<in> set (as_targets state)
                       then {as_aliasName state} else {})"
  unfolding switch_body by (auto simp: targets_apply_action cl_indices_apply_action fold_removals)


end
