(* ===== verification/FullSync.thy ===== *)
theory FullSync imports IndexAlias begin

text \<open>
  Full synchronisation (\<open>fullsync.go\<close>, \<open>fullsync_strategy.go\<close>): scan cursors, the copy of a table
  into a fresh index, the switch of the alias, and the pool that runs several models.

  A cursor is what the Go interface \<open>FullSyncScanCursor\<close> offers, a record of three functions on a
  state; strategies of the application supply their own.  \<open>bulk_new\<close>, \<open>bulk_add\<close> and
  \<open>bulk_close\<close> are the bulk indexer of a target index; the errors it hands to its \<open>OnError\<close>
  callback during a call come with the result of the call.  \<open>db_scan\<close> is the query of a batch.
\<close>

section \<open>Scan cursors\<close>

record FullSyncModelInfo =
  fi_TableName :: string
  fi_IndexAlias :: string
  fi_HasSoftDelete :: bool

text \<open>The clauses that a cursor adds to the query of a batch.\<close>

datatype scan_scope = AfterKey string go_any int | OwnScope string go_any int

record 'c cursor_ops =
  cur_Scope :: "'c \<Rightarrow> int \<Rightarrow> scan_scope"
  cur_Advance :: "'c \<Rightarrow> go_any \<Rightarrow> go_error + 'c"
  cur_Checkpoint :: "'c \<Rightarrow> go_any"

definition fullSyncInfo :: "modelEntry \<Rightarrow> FullSyncModelInfo" where
  "fullSyncInfo e =
     \<lparr>fi_TableName = me_tableName e, fi_IndexAlias = me_indexName e,
      fi_HasSoftDelete = me_hasSoftDelete e\<rparr>"

text \<open>The column of a model instance; an instance without it has the nil value.\<close>

definition column_of :: "string \<Rightarrow> go_any \<Rightarrow> go_any" where
  "column_of name row =
     (case row of
        GoModel t cols \<Rightarrow> (case map_of cols name of Some v \<Rightarrow> v | None \<Rightarrow> GoNil)
      | _ \<Rightarrow> GoNil)"

text \<open>\<open>fmt_T\<close> is the verb \<open>%T\<close>.\<close>

definition key_valueOf :: "(go_any \<Rightarrow> string) \<Rightarrow> fullSyncKey \<Rightarrow> go_any \<Rightarrow> go_error + go_any" where
  "key_valueOf fmt_T k row =
     (case column_of (fk_columnName k) row of
        GoNil \<Rightarrow> Inl (Err (''primary key '' @ fk_columnName k @ '' is nil''))
      | GoInt n \<Rightarrow> Inr (GoInt n)
      | GoUint n \<Rightarrow> Inr (GoUint n)
      | v \<Rightarrow> Inl (Err (''primary key '' @ fk_columnName k @ '' is not an integer (''
                       @ fmt_T v @ '')'')))"

record integerPrimaryKeyScanCursor =
  ic_key :: fullSyncKey
  ic_checkpoint :: go_any

definition integer_cursor_ops :: "(go_any \<Rightarrow> string) \<Rightarrow> integerPrimaryKeyScanCursor cursor_ops" where
  "integer_cursor_ops fmt_T =
     \<lparr>cur_Scope = (\<lambda>c batchSize. AfterKey (fk_columnName (ic_key c)) (ic_checkpoint c) batchSize),
      cur_Advance = (\<lambda>c row.
        case key_valueOf fmt_T (ic_key c) row of
          Inl err \<Rightarrow> Inl err | Inr v \<Rightarrow> Inr (c\<lparr>ic_checkpoint := v\<rparr>)),
      cur_Checkpoint = ic_checkpoint\<rparr>"

definition integer_Prepare ::
  "fullSyncKey option \<Rightarrow> FullSyncModelInfo \<Rightarrow> int \<Rightarrow> go_error + integerPrimaryKeyScanCursor" where
  "integer_Prepare key info startID =
     (case key of
        None \<Rightarrow>
          Inl (Err (''essyncer: full sync table '' @ fi_TableName info
                    @ '' requires exactly one integer primary key''))
      | Some k \<Rightarrow>
          if fk_unsigned k
          then if startID < 0
               then Inl (Err (''essyncer: full sync table '' @ fi_TableName info
                    @ '' does not support negative checkpoints for unsigned primary key ''
                    @ fk_columnName k))
               else Inr \<lparr>ic_key = k, ic_checkpoint = GoUint startID\<rparr>
          else Inr \<lparr>ic_key = k, ic_checkpoint = GoInt startID\<rparr>)"

definition unsupported_Prepare :: "go_error \<Rightarrow> FullSyncModelInfo \<Rightarrow> go_error" where
  "unsupported_Prepare err info =
     Errorf (''essyncer: full sync table '' @ fi_TableName info @ '' '') err []"

text \<open>A cursor of the library or of the application.\<close>

datatype 'c scan_cursor = IntegerCursor integerPrimaryKeyScanCursor | OwnCursor 'c

record 'c own_scans =
  own_Prepare :: "nat \<Rightarrow> FullSyncModelInfo \<Rightarrow> int \<Rightarrow> go_error + 'c"
  own_ops :: "'c cursor_ops"
  own_T :: "go_any \<Rightarrow> string"

definition scan_ops :: "'c own_scans \<Rightarrow> 'c scan_cursor cursor_ops" where
  "scan_ops own =
     \<lparr>cur_Scope = (\<lambda>c n. case c of
        IntegerCursor i \<Rightarrow> cur_Scope (integer_cursor_ops (own_T own)) i n
      | OwnCursor o' \<Rightarrow> cur_Scope (own_ops own) o' n),
      cur_Advance = (\<lambda>c row. case c of
        IntegerCursor i \<Rightarrow> map_sum id IntegerCursor (cur_Advance (integer_cursor_ops (own_T own)) i row)
      | OwnCursor o' \<Rightarrow> map_sum id OwnCursor (cur_Advance (own_ops own) o' row)),
      cur_Checkpoint = (\<lambda>c. case c of
        IntegerCursor i \<Rightarrow> ic_checkpoint i
      | OwnCursor o' \<Rightarrow> cur_Checkpoint (own_ops own) o')\<rparr>"

definition fullSyncCursor :: "'c own_scans \<Rightarrow> modelEntry \<Rightarrow> int \<Rightarrow> go_error + 'c scan_cursor" where
  "fullSyncCursor own e startID =
     (case me_fullSyncScan e of
        None \<Rightarrow> Inl (Err (''essyncer: full sync table '' @ me_tableName e @ '' has no scan strategy''))
      | Some strategy \<Rightarrow>
          (case (case strategy of
                   UnsupportedScan err \<Rightarrow> Inl (unsupported_Prepare err (fullSyncInfo e))
                 | IntegerPrimaryKeyScan key \<Rightarrow>
                     map_sum id IntegerCursor (integer_Prepare key (fullSyncInfo e) startID)
                 | CustomScan n \<Rightarrow> map_sum id OwnCursor (own_Prepare own n (fullSyncInfo e) startID)) of
             Inl err \<Rightarrow>
               Inl (Errorf (''essyncer: prepare full sync cursor for '' @ me_tableName e @ '': '') err [])
           | Inr cursor \<Rightarrow> Inr cursor))"

section \<open>The copy of a table\<close>

record 'w fs_env = "'w index_env" +
  db_scan :: "go_ctx \<Rightarrow> string \<Rightarrow> bool \<Rightarrow> scan_scope \<Rightarrow> 'w \<Rightarrow> (go_error + go_any list) \<times> 'w"
  bulk_new :: "string \<Rightarrow> 'w \<Rightarrow> go_error option \<times> 'w"
  bulk_add :: "go_ctx \<Rightarrow> string \<Rightarrow> string \<Rightarrow> string \<Rightarrow> 'w \<Rightarrow> (go_error option \<times> go_error list) \<times> 'w"
  bulk_close :: "go_ctx \<Rightarrow> string \<Rightarrow> 'w \<Rightarrow> (go_error option \<times> go_error list) \<times> 'w"
  model_id :: "go_any \<Rightarrow> string option"
  std_marshal :: "go_any \<Rightarrow> go_error + string"

definition full_sync_failure :: "modelEntry \<Rightarrow> string \<Rightarrow> go_error \<Rightarrow> FailureEvent" where
  "full_sync_failure entry documentID err =
     zero_FailureEvent\<lparr>fe_Source := failureSourceFullSync, fe_Index := me_indexName entry,
       fe_Action := actionIndex, fe_DocumentID := documentID, fe_Error := err_text err\<rparr>"

definition recordFullSyncFailure ::
  "('w, 'm) runtime_scheme \<Rightarrow> modelEntry \<Rightarrow> string \<Rightarrow> go_error option \<Rightarrow> Syncer \<Rightarrow> 'w \<Rightarrow> Syncer \<times> 'w"
  where
  "recordFullSyncFailure env entry documentID err s w =
     (case err of
        None \<Rightarrow> (s, w)
      | Some e \<Rightarrow> recordFailure env (full_sync_failure entry documentID e) s w)"

text \<open>The \<open>OnError\<close> callback of the indexer of a full sync.\<close>

fun bulk_errors ::
  "('w, 'm) runtime_scheme \<Rightarrow> modelEntry \<Rightarrow> go_error list \<Rightarrow> Syncer \<Rightarrow> 'w \<Rightarrow> Syncer \<times> 'w" where
  "bulk_errors env entry [] s w = (s, w)"
| "bulk_errors env entry (err # errs) s w =
     (let (s, w) = recordFailure env (full_sync_failure entry [] err) s w
      in bulk_errors env entry errs s w)"

definition indexer_add ::
  "('w, 'm) fs_env_scheme \<Rightarrow> go_ctx \<Rightarrow> modelEntry \<Rightarrow> string \<Rightarrow> string \<Rightarrow> string \<Rightarrow> Syncer \<Rightarrow> 'w
     \<Rightarrow> go_error option \<times> Syncer \<times> 'w" where
  "indexer_add env ctx entry target docID data s w =
     (let ((err, errs), w) = bulk_add env ctx target docID data w;
          (s, w) = bulk_errors env entry errs s w
      in (err, s, w))"

definition indexer_close ::
  "('w, 'm) fs_env_scheme \<Rightarrow> go_ctx \<Rightarrow> modelEntry \<Rightarrow> string \<Rightarrow> Syncer \<Rightarrow> 'w
     \<Rightarrow> go_error option \<times> Syncer \<times> 'w" where
  "indexer_close env ctx entry target s w =
     (let ((err, errs), w) = bulk_close env ctx target w;
          (s, w) = bulk_errors env entry errs s w
      in (err, s, w))"

fun syncFullSyncBatch ::
  "('w, 'm) fs_env_scheme \<Rightarrow> 'c cursor_ops \<Rightarrow> go_ctx \<Rightarrow> modelEntry \<Rightarrow> string \<Rightarrow> 'c \<Rightarrow> go_any list \<Rightarrow> int
     \<Rightarrow> Syncer \<Rightarrow> 'w \<Rightarrow> (int \<times> 'c \<times> go_error option) \<times> Syncer \<times> 'w" where
  "syncFullSyncBatch env cops ctx entry target cursor [] syncedCount s w =
     ((syncedCount, cursor, None), s, w)"
| "syncFullSyncBatch env cops ctx entry target cursor (elem # elems) syncedCount s w =
     (case model_id env elem of
        None \<Rightarrow>
          let err = Err (''essyncer: model '' @ me_tableName entry @ '' does not implement Syncable'');
              (s, w) = recordFullSyncFailure env entry [] (Some err) s w
          in ((syncedCount, cursor, Some err), s, w)
      | Some docID \<Rightarrow>
          (case std_marshal env elem of
             Inl err \<Rightarrow>
               let (s, w) = recordFullSyncFailure env entry docID (Some err) s w
               in ((syncedCount, cursor,
                    Some (Errorf (''essyncer: marshal '' @ me_tableName entry @ '' id '' @ docID @ '': '')
                      err [])), s, w)
           | Inr data \<Rightarrow>
               (case indexer_add env ctx entry target docID data s w of
                  (Some err, s, w) \<Rightarrow>
                    let (s, w) = recordFullSyncFailure env entry docID (Some err) s w
                    in ((syncedCount, cursor,
                         Some (Errorf (''essyncer: add to full sync indexer '' @ me_tableName entry
                                @ '' id '' @ docID @ '': '') err [])), s, w)
                | (None, s, w) \<Rightarrow>
                    let s = bump (\<lambda>m. m\<lparr>mx_FullSyncDocs := mx_FullSyncDocs m + 1\<rparr>) s
                    in (case cur_Advance cops cursor elem of
                          Inl err \<Rightarrow>
                            let (s, w) = recordFullSyncFailure env entry docID (Some err) s w
                            in ((syncedCount + 1, cursor,
                                 Some (Errorf (''essyncer: advance full sync cursor ''
                                        @ me_tableName entry @ '' id '' @ docID @ '': '') err [])), s, w)
                        | Inr cursor \<Rightarrow>
                            syncFullSyncBatch env cops ctx entry target cursor elems (syncedCount + 1)
                              s w))))"

text \<open>Whether the query of a full sync is \<open>Unscoped\<close>.\<close>

definition fullSyncQuery_unscoped :: "modelEntry \<Rightarrow> bool" where
  "fullSyncQuery_unscoped entry \<longleftrightarrow>
     me_hasSoftDelete entry \<and> me_softDeleteMode entry = SoftDeleteModeUpdate"

text \<open>One round of the loop: \<open>Inl\<close> an early return, \<open>Inr\<close> the state after it and whether to go on.\<close>

definition scan_round ::
  "('w, 'm) fs_env_scheme \<Rightarrow> 'c cursor_ops \<Rightarrow> go_ctx \<Rightarrow> modelEntry \<Rightarrow> string \<Rightarrow> int \<Rightarrow> 'c \<Rightarrow> int
     \<Rightarrow> Syncer \<Rightarrow> 'w
     \<Rightarrow> ((int \<times> go_error) \<times> Syncer \<times> 'w) + (bool \<times> 'c \<times> int \<times> Syncer \<times> 'w)" where
  "scan_round env cops ctx entry target batchSize cursor synced s w =
     (case rt_ctx_err env ctx w of
        Some cerr \<Rightarrow>
          let (_, s, w) = indexer_close env ctx entry target s w
          in Inl ((synced, Errorf (''essyncer: full sync canceled for '' @ me_tableName entry @ '': '')
                     cerr []), s, w)
      | None \<Rightarrow>
          let before = cur_Checkpoint cops cursor
          in case db_scan env ctx (me_tableName entry) (fullSyncQuery_unscoped entry)
                    (cur_Scope cops cursor batchSize) w of
               (Inl err, w) \<Rightarrow>
                 let (_, s, w) = indexer_close env ctx entry target s w;
                     (s, w) = recordFullSyncFailure env entry [] (Some err) s w
                 in Inl ((synced, Errorf (''essyncer: query '' @ me_tableName entry @ '': '') err []), s, w)
             | (Inr found, w) \<Rightarrow>
                 if found = [] then Inr (False, cursor, synced, s, w)
                 else
                   let ((n, cursor, err), s, w) =
                         syncFullSyncBatch env cops ctx entry target cursor found 0 s w;
                       synced = synced + n
                   in case err of
                        Some e \<Rightarrow>
                          let (_, s, w) = indexer_close env ctx entry target s w
                          in Inl ((synced, e), s, w)
                      | None \<Rightarrow>
                          if int (length found) = batchSize \<and> before = cur_Checkpoint cops cursor
                          then
                            let (_, s, w) = indexer_close env ctx entry target s w;
                                stallErr = Err (''essyncer: full sync scan strategy for ''
                                             @ me_tableName entry @ '' did not advance'');
                                (s, w) = recordFailure env (full_sync_failure entry [] stallErr) s w
                            in Inl ((synced, stallErr), s, w)
                          else Inr (\<not> int (length found) < batchSize, cursor, synced, s, w))"

text \<open>The loop, and the close of the indexer behind it; \<open>None\<close> where the loop never ends.\<close>

definition scan_end ::
  "('w, 'm) fs_env_scheme \<Rightarrow> go_ctx \<Rightarrow> modelEntry \<Rightarrow> string \<Rightarrow> int \<Rightarrow> Syncer \<Rightarrow> 'w
     \<Rightarrow> (int \<times> go_error option) \<times> Syncer \<times> 'w" where
  "scan_end env ctx entry target synced s w =
     (case indexer_close env ctx entry target s w of
        (Some err, s, w) \<Rightarrow>
          ((synced, Some (Errorf ''essyncer: close full sync indexer: '' err [])), s, w)
      | (None, s, w) \<Rightarrow> ((synced, None), s, w))"

partial_function (option) scan_loop ::
  "('w, 'm) fs_env_scheme \<Rightarrow> 'c cursor_ops \<Rightarrow> go_ctx \<Rightarrow> modelEntry \<Rightarrow> string \<Rightarrow> int \<Rightarrow> 'c \<Rightarrow> int
     \<Rightarrow> Syncer \<Rightarrow> 'w \<Rightarrow> ((int \<times> go_error option) \<times> Syncer \<times> 'w) option" where
  "scan_loop env cops ctx entry target batchSize cursor synced s w =
     (let rnd = scan_round env cops ctx entry target batchSize cursor synced s w
      in if isl rnd
         then Some ((fst (fst (projl rnd)), Some (snd (fst (projl rnd)))), snd (projl rnd))
         else let st = projr rnd
              in if fst st
                 then scan_loop env cops ctx entry target batchSize (fst (snd st)) (fst (snd (snd st)))
                        (fst (snd (snd (snd st)))) (snd (snd (snd (snd st))))
                 else Some (scan_end env ctx entry target (fst (snd (snd st)))
                        (fst (snd (snd (snd st)))) (snd (snd (snd (snd st))))))"

declare scan_loop.simps [code]

definition fullSyncFrom ::
  "('w, 'm) fs_env_scheme \<Rightarrow> 'c cursor_ops \<Rightarrow> go_ctx \<Rightarrow> modelEntry \<Rightarrow> string \<Rightarrow> 'c \<Rightarrow> Syncer \<Rightarrow> 'w
     \<Rightarrow> ((int \<times> go_error option) \<times> Syncer \<times> 'w) option" where
  "fullSyncFrom env cops ctx entry target cursor s w =
     (let batchSize = (if me_batchSize entry \<le> 0 then sc_DefaultBatchSize (cfg_Sync (sy_cfg s))
                       else me_batchSize entry)
      in case bulk_new env target w of
           (Some err, w) \<Rightarrow>
             Some ((0, Some (Errorf ''essyncer: create full sync indexer: '' err [])), s, w)
         | (None, w) \<Rightarrow> scan_loop env cops ctx entry target batchSize cursor 0 s w)"

section \<open>A full sync of one model\<close>

definition fail_full_sync ::
  "('w, 'm) runtime_scheme \<Rightarrow> modelEntry \<Rightarrow> int \<Rightarrow> go_error \<Rightarrow> Syncer \<Rightarrow> 'w
     \<Rightarrow> (int \<times> go_error option) \<times> Syncer \<times> 'w" where
  "fail_full_sync env entry n err s w =
     (let (s, w) = recordFailure env (full_sync_failure entry [] err) s w in ((n, Some err), s, w))"

definition fullSyncTableAt ::
  "('w, 'm) fs_env_scheme \<Rightarrow> 'c own_scans \<Rightarrow> go_ctx \<Rightarrow> modelEntry \<Rightarrow> int \<Rightarrow> Syncer \<Rightarrow> 'w
     \<Rightarrow> ((int \<times> go_error option) \<times> Syncer \<times> 'w) option" where
  "fullSyncTableAt env own ctx entry startID s w =
     (case fullSyncCursor own entry startID of
        Inl err \<Rightarrow> Some (fail_full_sync env entry 0 err s w)
      | Inr _ \<Rightarrow>
          (case resolveAliasState env ctx (me_indexName entry) w of
             (Inl err, w) \<Rightarrow> Some (fail_full_sync env entry 0 err s w)
           | (Inr state, w) \<Rightarrow>
               let (now, w) = rt_now env w;
                   rebuildIndex = newRebuildIndexName entry now
               in case createManagedIndex env ctx entry rebuildIndex [] w of
                    (Some err, w) \<Rightarrow> Some (fail_full_sync env entry 0 err s w)
                  | (None, w) \<Rightarrow>
                      (case fullSyncCursor own entry startID of
                         Inl err \<Rightarrow> Some (fail_full_sync env entry 0 err s w)
                       | Inr cursor \<Rightarrow>
                           (case fullSyncFrom env (scan_ops own) ctx entry rebuildIndex cursor s w of
                              None \<Rightarrow> None
                            | Some ((synced, Some err), s, w) \<Rightarrow>
                                Some ((synced, Some err), s, cleanupDetachedIndex env ctx rebuildIndex w)
                            | Some ((synced, None), s, w) \<Rightarrow>
                                (case switchAliasToIndex env ctx state rebuildIndex w of
                                   (Some err, w) \<Rightarrow> Some (fail_full_sync env entry synced err s w)
                                 | (None, w) \<Rightarrow>
                                     (case deleteReplacedIndices env ctx state w of
                                        (Some err, w) \<Rightarrow> Some (fail_full_sync env entry synced err s w)
                                      | (None, w) \<Rightarrow> Some ((synced, None), s, w)))))))"

definition FullSyncWithCheckpoint ::
  "('w, 'm) fs_env_scheme \<Rightarrow> 'c own_scans \<Rightarrow> model_types \<Rightarrow> go_ctx \<Rightarrow> string \<Rightarrow> int \<Rightarrow> Syncer \<Rightarrow> 'w
     \<Rightarrow> ((int \<times> go_error option) \<times> Syncer \<times> 'w) option" where
  "FullSyncWithCheckpoint env own mt ctx model startID s w =
     (case getByModel mt (sy_registry s) model of
        None \<Rightarrow> Some ((0, Some (Err ''essyncer: model not registered'')), s, w)
      | Some entry \<Rightarrow> fullSyncTableAt env own ctx entry startID s w)"

definition FullSyncTable ::
  "('w, 'm) fs_env_scheme \<Rightarrow> 'c own_scans \<Rightarrow> model_types \<Rightarrow> go_ctx \<Rightarrow> string \<Rightarrow> Syncer \<Rightarrow> 'w
     \<Rightarrow> ((int \<times> go_error option) \<times> Syncer \<times> 'w) option" where
  "FullSyncTable env own mt ctx model s w =
     (case getByModel mt (sy_registry s) model of
        None \<Rightarrow> Some ((0, Some (Err ''essyncer: model not registered'')), s, w)
      | Some entry \<Rightarrow> fullSyncTableAt env own ctx entry 0 s w)"

definition fullSyncTable ::
  "('w, 'm) fs_env_scheme \<Rightarrow> 'c own_scans \<Rightarrow> go_ctx \<Rightarrow> modelEntry \<Rightarrow> Syncer \<Rightarrow> 'w
     \<Rightarrow> ((int \<times> go_error option) \<times> Syncer \<times> 'w) option" where
  "fullSyncTable env own ctx entry s w = fullSyncTableAt env own ctx entry 0 s w"

section \<open>Several models\<close>

record FullSyncResult =
  fsr_Table :: string
  fsr_IndexName :: string
  fsr_TotalSynced :: int
  fsr_Err :: "go_error option"

text \<open>How a call ends: it returns, or it panics with a value of this text.\<close>

datatype 'a call_outcome = Returned 'a | Panicked string

definition fullSyncTableGuarded ::
  "('w, 'm) runtime_scheme \<Rightarrow> modelEntry \<Rightarrow> (int \<times> go_error option) call_outcome \<Rightarrow> Syncer \<Rightarrow> 'w
     \<Rightarrow> FullSyncResult \<times> Syncer \<times> 'w" where
  "fullSyncTableGuarded env entry out s w =
     (let result = \<lparr>fsr_Table = me_tableName entry, fsr_IndexName = me_indexName entry,
                    fsr_TotalSynced = 0, fsr_Err = None\<rparr>
      in case out of
           Returned (n, err) \<Rightarrow> (result\<lparr>fsr_TotalSynced := n, fsr_Err := err\<rparr>, s, w)
         | Panicked v \<Rightarrow>
             let err = Err (''essyncer: full sync '' @ me_tableName entry @ '' panicked: '' @ v);
                 (s, w) = recordFailure env (full_sync_failure entry [] err) s w
             in (result\<lparr>fsr_Err := Some err\<rparr>, s, w))"

fun validateFullSyncEntries ::
  "'c own_scans \<Rightarrow> int \<Rightarrow> modelEntry list \<Rightarrow> (modelEntry \<times> go_error) option" where
  "validateFullSyncEntries own startID [] = None"
| "validateFullSyncEntries own startID (entry # entries) =
     (case fullSyncCursor own entry startID of
        Inl err \<Rightarrow> Some (entry, err)
      | Inr _ \<Rightarrow> validateFullSyncEntries own startID entries)"

text \<open>
  The workers take entries from the queue.  The schedule lists which worker takes the next one; a
  worker that sees the context done reports the entry it holds and leaves.  A call of the body is
  not interleaved with the others here: what concurrent bodies share are counters and the failure
  recorder, whose operations are atomic.
\<close>

fun pool_run ::
  "('w, 'm) runtime_scheme \<Rightarrow> go_ctx
     \<Rightarrow> (modelEntry \<Rightarrow> Syncer \<Rightarrow> 'w \<Rightarrow> ((int \<times> go_error option) call_outcome \<times> Syncer \<times> 'w) option)
     \<Rightarrow> nat list \<Rightarrow> nat list \<Rightarrow> modelEntry list \<Rightarrow> FullSyncResult list \<Rightarrow> Syncer \<Rightarrow> 'w
     \<Rightarrow> (FullSyncResult list \<times> Syncer \<times> 'w) option" where
  "pool_run env ctx body alive [] queue results s w = Some (results, s, w)"
| "pool_run env ctx body alive (k # ks) [] results s w = Some (results, s, w)"
| "pool_run env ctx body alive (k # ks) (entry # queue) results s w =
     (if k \<notin> set alive then pool_run env ctx body alive ks (entry # queue) results s w
      else case rt_ctx_err env ctx w of
        Some cerr \<Rightarrow>
          pool_run env ctx body (removeAll k alive) ks queue
            (results @ [\<lparr>fsr_Table = me_tableName entry, fsr_IndexName = [], fsr_TotalSynced = 0,
                        fsr_Err = Some cerr\<rparr>]) s w
      | None \<Rightarrow>
          (case body entry s w of
             None \<Rightarrow> None
           | Some (out, s, w) \<Rightarrow>
               let (r, s, w) = fullSyncTableGuarded env entry out s w
               in pool_run env ctx body alive ks queue (results @ [r]) s w))"

definition count_tables :: "FullSyncResult list \<Rightarrow> Syncer \<Rightarrow> Syncer" where
  "count_tables results s =
     fold (\<lambda>r. if fsr_Err r = None then bump (\<lambda>m. m\<lparr>mx_FullSyncTables := mx_FullSyncTables m + 1\<rparr>)
               else id) results s"

definition FullSync ::
  "('w, 'm) fs_env_scheme \<Rightarrow> 'c own_scans \<Rightarrow> model_types \<Rightarrow> go_ctx
     \<Rightarrow> (modelEntry \<Rightarrow> Syncer \<Rightarrow> 'w \<Rightarrow> ((int \<times> go_error option) call_outcome \<times> Syncer \<times> 'w) option)
     \<Rightarrow> nat list \<Rightarrow> string list \<Rightarrow> Syncer \<Rightarrow> 'w \<Rightarrow> (FullSyncResult list \<times> Syncer \<times> 'w) option" where
  "FullSync env own mt ctx body schedule models s w =
     (case entriesForModels mt (sy_registry s) models of
        Inl err \<Rightarrow>
          Some ([\<lparr>fsr_Table = [], fsr_IndexName = [], fsr_TotalSynced = 0, fsr_Err = Some err\<rparr>], s, w)
      | Inr entries \<Rightarrow>
          if entries = [] then Some ([], s, w)
          else case validateFullSyncEntries own 0 entries of
            Some (entry, err) \<Rightarrow>
              let (s, w) = recordFailure env (full_sync_failure entry [] err) s w
              in Some ([\<lparr>fsr_Table = me_tableName entry, fsr_IndexName = me_indexName entry,
                        fsr_TotalSynced = 0, fsr_Err = Some err\<rparr>], s, w)
          | None \<Rightarrow>
              let workers = max (sc_Workers (cfg_Sync (sy_cfg s))) 1;
                  alive = [0..<nat (min workers (int (length entries)))]
              in (case pool_run env ctx body alive schedule entries [] s w of
                    None \<Rightarrow> None
                  | Some (results, s, w) \<Rightarrow> Some (results, count_tables results s, w)))"

text \<open>The body that the workers run when nothing panics.\<close>

definition full_sync_body ::
  "('w, 'm) fs_env_scheme \<Rightarrow> 'c own_scans \<Rightarrow> go_ctx \<Rightarrow> modelEntry \<Rightarrow> Syncer \<Rightarrow> 'w
     \<Rightarrow> ((int \<times> go_error option) call_outcome \<times> Syncer \<times> 'w) option" where
  "full_sync_body env own ctx entry s w =
     map_option (\<lambda>(res, s, w). (Returned res, s, w)) (fullSyncTable env own ctx entry s w)"

section \<open>Lists sorted by a key\<close>

lemma filter_after_take:
  fixes key :: "'a \<Rightarrow> int"
  assumes "sorted_wrt (\<lambda>x y. key x < key y) xs" "xs \<noteq> []" "0 < n"
  shows "filter (\<lambda>x. key (last (take n xs)) < key x) xs = drop n xs"
proof -
  let ?l = "last (take n xs)"
  have ne: "take n xs \<noteq> []" using assms(2,3) by simp
  have split: "sorted_wrt (\<lambda>x y. key x < key y) (take n xs @ drop n xs)" using assms(1) by simp
  have low: "key x \<le> key ?l" if "x \<in> set (take n xs)" for x
  proof -
    have "sorted_wrt (\<lambda>x y. key x < key y) (butlast (take n xs) @ [?l])"
      using assms(1) ne by (simp add: sorted_wrt_take)
    moreover have "x \<in> set (butlast (take n xs)) \<or> x = ?l"
      using that ne by (metis append_butlast_last_id in_set_conv_decomp Un_iff set_append
          singletonD list.set(1) list.set(2) insert_iff)
    ultimately show ?thesis by (auto simp: sorted_wrt_append)
  qed
  have high: "key ?l < key x" if "x \<in> set (drop n xs)" for x
    using split [unfolded sorted_wrt_append] last_in_set [OF ne] that by blast
  have "filter (\<lambda>x. key ?l < key x) (take n xs) = []"
    using low by (fastforce simp: filter_empty_conv)
  moreover have "filter (\<lambda>x. key ?l < key x) (drop n xs) = drop n xs"
    using high by (simp add: filter_id_conv)
  ultimately show ?thesis by (metis append_Nil append_take_drop_id filter_append)
qed

lemma sorted_key_strict:
  fixes key :: "'a \<Rightarrow> int"
  assumes "inj_on key (set xs)" "distinct xs"
  shows "sorted_wrt (\<lambda>x y. key x < key y) (sort_key key xs)"
proof -
  have "distinct (map key (sort_key key xs))"
    using assms by (simp add: distinct_map)
  moreover have "sorted (map key (sort_key key xs))" by simp
  ultimately have "sorted_wrt (<) (map key (sort_key key xs))" by (simp add: strict_sorted_iff)
  then show ?thesis by (simp add: sorted_wrt_map)
qed

section \<open>The contract of a scan cursor\<close>

text \<open>
  What the loop relies on: rows have positions (\<open>key\<close>), a cursor stands at a position (\<open>pos\<close>),
  advancing over a row moves it to the position of the row, the checkpoint shows the position, and
  the scope selects the next rows behind it.  \<open>selects\<close> is the meaning of a scope on the rows of a
  table.
\<close>

locale scan_cursor =
  fixes cops :: "'c cursor_ops"
    and ok :: "'c \<Rightarrow> bool"
    and row_ok :: "go_any \<Rightarrow> bool"
    and key :: "go_any \<Rightarrow> int"
    and pos :: "'c \<Rightarrow> int"
    and selects :: "scan_scope \<Rightarrow> go_any list \<Rightarrow> go_any list"
  assumes advance: "ok c \<Longrightarrow> row_ok r \<Longrightarrow> cur_Advance cops c r = Inr c' \<Longrightarrow> ok c' \<and> pos c' = key r"
    and advance_ok: "ok c \<Longrightarrow> row_ok r \<Longrightarrow> \<exists>c'. cur_Advance cops c r = Inr c'"
    and checkpoint: "ok c \<Longrightarrow> ok c' \<Longrightarrow>
      (cur_Checkpoint cops c = cur_Checkpoint cops c') = (pos c = pos c')"
    and scope: "ok c \<Longrightarrow> \<forall>r \<in> set rs. row_ok r \<Longrightarrow> 0 < n \<Longrightarrow>
      selects (cur_Scope cops c n) rs
        = take (nat n) (sort_key key (filter (\<lambda>r. pos c < key r) rs))"
begin

definition remaining :: "'c \<Rightarrow> go_any list \<Rightarrow> go_any list" where
  "remaining c rs = sort_key key (filter (\<lambda>r. pos c < key r) rs)"

definition keyed :: "go_any list \<Rightarrow> bool" where
  "keyed rs \<longleftrightarrow> distinct rs \<and> inj_on key (set rs) \<and> (\<forall>r \<in> set rs. row_ok r)"

lemma remaining_sorted:
  "keyed rs \<Longrightarrow> sorted_wrt (\<lambda>x y. key x < key y) (remaining c rs)"
  unfolding remaining_def keyed_def
  by (rule sorted_key_strict) (auto intro: inj_on_subset)

lemma set_remaining: "set (remaining c rs) = {r \<in> set rs. pos c < key r}"
  by (simp add: remaining_def)

text \<open>A batch advances the scan by exactly its rows.\<close>

lemma remaining_step:
  assumes "keyed rs" "0 < n" "remaining c rs \<noteq> []" "pos c' = key (last (take n (remaining c rs)))"
  shows "remaining c' rs = drop n (remaining c rs)"
proof -
  have ne: "take n (remaining c rs) \<noteq> []" using assms(2,3) by simp
  have "last (take n (remaining c rs)) \<in> set (remaining c rs)"
    using last_in_set [OF ne] in_set_takeD by metis
  then have "pos c < pos c'" using assms(4) by (simp add: set_remaining)
  then have "filter (\<lambda>r. pos c' < key r) rs
      = filter (\<lambda>r. pos c' < key r) (filter (\<lambda>r. pos c < key r) rs)"
    by (auto intro!: filter_cong)
  then have "remaining c' rs = filter (\<lambda>r. pos c' < key r) (remaining c rs)"
    by (simp add: remaining_def filter_sort)
  with filter_after_take [OF remaining_sorted [OF assms(1)] assms(3,2)] assms(4)
  show ?thesis by simp
qed

end

section \<open>Copying with such a cursor\<close>

text \<open>
  \<open>handed\<close> are the documents that bulk indexers have accepted for an index, as \<open>(index, id, body)\<close>.
  \<open>Add\<close> only queues a document: whether Elasticsearch takes it shows later (locale \<open>rebuild\<close>).
\<close>

locale hand_over = scan_cursor cops ok row_ok key pos selects
  for cops :: "'c cursor_ops" and ok row_ok key pos selects +
  fixes env :: "('w, 'm) fs_env_scheme"
    and handed :: "'w \<Rightarrow> (string \<times> string \<times> string) list"
  assumes scan_handed: "db_scan env ctx t u sc w = (res, w') \<Longrightarrow> handed w' = handed w"
    and add_handed: "bulk_add env ctx i d b w = ((None, errs), w') \<Longrightarrow> handed w' = handed w @ [(i, d, b)]"
    and close_handed: "bulk_close env ctx i w = (res2, w') \<Longrightarrow> handed w' = handed w"
    and new_handed: "bulk_new env i w = (err, w') \<Longrightarrow> handed w' = handed w"
    and clock_handed: "rt_now env w = (now, w') \<Longrightarrow> handed w' = handed w"
begin

text \<open>The document that a row becomes.\<close>

definition doc_of :: "string \<Rightarrow> go_any \<Rightarrow> string \<times> string \<times> string" where
  "doc_of target r = (target, the (model_id env r), projr (std_marshal env r))"

lemma bulk_errors_handed: "bulk_errors env entry errs s w = (s', w') \<Longrightarrow> handed w' = handed w"
proof (induction errs arbitrary: s w)
  case (Cons e errs)
  obtain s1 w1 where rec: "recordFailure env (full_sync_failure entry [] e) s w = (s1, w1)" by fastforce
  with recordFailure_world [of env "full_sync_failure entry [] e" s w] clock_handed
  have "handed w1 = handed w" by (metis prod.collapse snd_conv)
  with Cons.IH [of s1 w1] Cons.prems rec show ?case by simp
qed simp

lemma indexer_add_handed:
  "indexer_add env ctx entry target d b s w = (None, s', w') \<Longrightarrow> handed w' = handed w @ [(target, d, b)]"
  by (auto simp: indexer_add_def split: prod.splits dest!: add_handed bulk_errors_handed)

lemma scan_end_handed:
  "scan_end env ctx entry target synced s w = ((k, None), s', w') \<Longrightarrow> k = synced \<and> handed w' = handed w"
  by (auto simp: scan_end_def indexer_close_def split: prod.splits option.splits
      dest!: close_handed bulk_errors_handed)

lemma syncFullSyncBatch_hands:
  assumes "syncFullSyncBatch env cops ctx entry target c elems k s w = ((n, c', None), s', w')"
    and "ok c" "\<forall>r \<in> set elems. row_ok r"
  shows "n = k + int (length elems) \<and> handed w' = handed w @ map (doc_of target) elems
     \<and> ok c' \<and> pos c' = (if elems = [] then pos c else key (last elems))"
  using assms
proof (induction elems arbitrary: c k s w)
  case Nil
  then show ?case by simp
next
  case (Cons r elems)
  from Cons.prems(1) obtain d b c1 s1 w1 where step: "model_id env r = Some d" "std_marshal env r = Inr b"
    "indexer_add env ctx entry target d b s w = (None, s1, w1)" "cur_Advance cops c r = Inr c1"
    "syncFullSyncBatch env cops ctx entry target c1 elems (k + 1)
       (bump (\<lambda>m. m\<lparr>mx_FullSyncDocs := mx_FullSyncDocs m + 1\<rparr>) s1) w1 = ((n, c', None), s', w')"
    by (auto simp: Let_def split: option.splits sum.splits prod.splits)
  have c1: "ok c1" "pos c1 = key r" using advance [OF Cons.prems(2) _ step(4)] Cons.prems(3) by auto
  from Cons.IH [OF step(5) c1(1)] Cons.prems(3) indexer_add_handed [OF step(3)] c1(2) step(1,2)
  show ?case by (auto simp: doc_of_def)
qed

text \<open>A round that did not return: what the query found has been handed over, in its order.\<close>

lemma scan_round_hands:
  assumes "scan_round env cops ctx entry target n c synced s w = Inr (going, c', synced', s', w')"
    and "db_scan env ctx (me_tableName entry) (fullSyncQuery_unscoped entry) (cur_Scope cops c n) w = (res, w1)"
    and "ok c" "\<And>found. res = Inr found \<Longrightarrow> \<forall>r \<in> set found. row_ok r"
  obtains found where "res = Inr found" "ok c'" "synced' = synced + int (length found)"
    "handed w' = handed w @ map (doc_of target) found"
    "pos c' = (if found = [] then pos c else key (last found))"
    "going = (found \<noteq> [] \<and> \<not> int (length found) < n)"
proof -
  from assms(1,2) obtain found where res: "res = Inr found"
    by (auto simp: scan_round_def Let_def split: option.splits prod.splits sum.splits)
  note same = scan_handed [OF assms(2)]
  show thesis
  proof (cases "found = []")
    case True
    with assms(1-3) res same show thesis
      by (intro that) (auto simp: scan_round_def Let_def split: option.splits prod.splits)
  next
    case False
    obtain m c1 err s1 w2 where batch:
      "syncFullSyncBatch env cops ctx entry target c found 0 s w1 = ((m, c1, err), s1, w2)"
      by (metis prod.collapse)
    from assms(1,2) res False batch have none: "err = None" and eq: "c' = c1" "w' = w2"
      "synced' = synced + m" "going = (\<not> int (length found) < n)"
      by (auto simp: scan_round_def Let_def split: option.splits prod.splits if_splits)
    from syncFullSyncBatch_hands [OF batch [unfolded none] assms(3,4)] res same eq False
    show thesis by (intro that [OF res]) auto
  qed
qed

end

section \<open>The scan of a table that stays as it is\<close>

locale table_scan = hand_over cops ok row_ok key pos selects env handed
  for cops :: "'c cursor_ops" and ok row_ok key pos selects
    and env :: "('w, 'm) fs_env_scheme" and handed +
  fixes tbl :: "string \<Rightarrow> bool \<Rightarrow> 'w \<Rightarrow> go_any list"
  assumes scan_law: "db_scan env ctx t u sc w = (res, w') \<Longrightarrow>
      tbl t' u' w' = tbl t' u' w \<and> (\<forall>found. res = Inr found \<longrightarrow> found = selects sc (tbl t u w))"
    and add_law: "bulk_add env ctx i d b w = (ares, w') \<Longrightarrow> tbl t' u' w' = tbl t' u' w"
    and new_law: "bulk_new env i w = (err, w') \<Longrightarrow> tbl t' u' w' = tbl t' u' w"
    and clock_law: "rt_now env w = (now, w') \<Longrightarrow> tbl t' u' w' = tbl t' u' w"
begin

lemma bulk_errors_world: "bulk_errors env entry errs s w = (s', w') \<Longrightarrow> tbl t u w' = tbl t u w"
proof (induction errs arbitrary: s w)
  case (Cons e errs)
  obtain s1 w1 where rec: "recordFailure env (full_sync_failure entry [] e) s w = (s1, w1)" by fastforce
  with recordFailure_world [of env "full_sync_failure entry [] e" s w] clock_law
  have "tbl t u w1 = tbl t u w" by (metis prod.collapse snd_conv)
  with Cons.IH [of s1 w1] Cons.prems rec show ?case by simp
qed simp

lemma batch_world:
  "syncFullSyncBatch env cops ctx entry target c elems k s w = ((n, c', None), s', w') \<Longrightarrow> tbl t u w' = tbl t u w"
proof (induction elems arbitrary: c k s w)
  case (Cons r elems)
  then show ?case
    by (auto simp: Let_def indexer_add_def split: option.splits sum.splits prod.splits
        dest!: add_law [where t' = t and u' = u] bulk_errors_world [where t = t and u = u])
qed simp

lemma scan_round_copies:
  assumes round: "scan_round env cops ctx entry target n c synced s w = Inr (going, c', synced', s', w')"
    and ok: "ok c" "0 < n" "keyed rs" and rs: "rs = tbl (me_tableName entry) (fullSyncQuery_unscoped entry) w"
  shows "ok c' \<and> tbl (me_tableName entry) (fullSyncQuery_unscoped entry) w' = rs
     \<and> handed w' = handed w @ map (doc_of target) (take (nat n) (remaining c rs))
     \<and> synced' = synced + int (length (take (nat n) (remaining c rs)))
     \<and> remaining c' rs = drop (nat n) (remaining c rs)
     \<and> (going \<longrightarrow> remaining c rs \<noteq> [] \<and> length (take (nat n) (remaining c rs)) = nat n)
     \<and> (\<not> going \<longrightarrow> remaining c' rs = [])"
proof -
  let ?t = "me_tableName entry" and ?u = "fullSyncQuery_unscoped entry"
  obtain res w1 where scan: "db_scan env ctx ?t ?u (cur_Scope cops c n) w = (res, w1)" by fastforce
  note law = scan_law [OF scan]
  have sel: "found = take (nat n) (remaining c rs)" if "res = Inr found" for found
    using law that scope [OF ok(1), of rs n] ok rs by (simp add: remaining_def keyed_def)
  have "\<forall>r \<in> set found. row_ok r" if "res = Inr found" for found
    using sel [OF that] set_remaining ok(3) by (auto simp: keyed_def dest!: in_set_takeD)
  from scan_round_hands [OF round scan ok(1) this] obtain found where found: "res = Inr found" "ok c'"
    "synced' = synced + int (length found)" "handed w' = handed w @ map (doc_of target) found"
    "pos c' = (if found = [] then pos c else key (last found))"
    "going = (found \<noteq> [] \<and> \<not> int (length found) < n)" by metis
  have same: "tbl ?t ?u w' = rs"
    using round scan found(1) law rs
    by (auto simp: scan_round_def Let_def split: option.splits prod.splits if_splits dest: batch_world)
  show ?thesis
  proof (cases "found = []")
    case True
    with sel found(1) ok(2) have "remaining c rs = []" by simp
    moreover from this True found have "remaining c' rs = []" by (simp add: remaining_def)
    ultimately show ?thesis using found same sel by auto
  next
    case False
    with sel found(1) have ne: "remaining c rs \<noteq> []" by auto
    have rem: "remaining c' rs = drop (nat n) (remaining c rs)"
      by (rule remaining_step [OF ok(3) _ ne]) (use found False sel ok(2) in auto)
    show ?thesis using found rem same sel [OF found(1)] ok(2) ne by auto
  qed
qed

text \<open>A scan of a table with good keys always ends.\<close>

lemma scan_loop_ends:
  assumes "ok c" "0 < n" "keyed (tbl (me_tableName entry) (fullSyncQuery_unscoped entry) w)"
  shows "scan_loop env cops ctx entry target n c synced s w \<noteq> None"
  using assms
proof (induction "length (remaining c (tbl (me_tableName entry) (fullSyncQuery_unscoped entry) w))"
    arbitrary: c synced s w rule: less_induct)
  case less
  let ?rnd = "scan_round env cops ctx entry target n c synced s w"
  let ?rs = "tbl (me_tableName entry) (fullSyncQuery_unscoped entry) w"
  show ?case
  proof (cases "\<not> isl ?rnd \<and> fst (projr ?rnd)")
    case False
    then show ?thesis by (subst scan_loop.simps) (auto simp: Let_def, metis prod.collapse)
  next
    case True
    then obtain c' k s' w' where rnd: "?rnd = Inr (True, c', k, s', w')"
      by (cases ?rnd) (auto simp: prod_eq_iff)
    note copy = scan_round_copies [OF rnd less.prems refl]
    then have "length (remaining c' ?rs) < length (remaining c ?rs)"
      using less.prems(2) by auto
    with copy less.hyps [of c' w' k s'] less.prems(2,3)
    have "scan_loop env cops ctx entry target n c' k s' w' \<noteq> None" by simp
    with rnd show ?thesis by (subst scan_loop.simps) (simp add: Let_def)
  qed
qed

text \<open>A scan that ends without an error has handed over every remaining row, in order, once.\<close>

lemma scan_loop_copies:
  assumes "scan_loop env cops ctx entry target n c synced s w = Some ((k, None), s', w')"
    and "ok c" "0 < n" "keyed rs" "rs = tbl (me_tableName entry) (fullSyncQuery_unscoped entry) w"
  shows "handed w' = handed w @ map (doc_of target) (remaining c rs)
     \<and> k = synced + int (length (remaining c rs))"
  using assms
proof (induction "length (remaining c rs)" arbitrary: c synced s w rule: less_induct)
  case less
  let ?rnd = "scan_round env cops ctx entry target n c synced s w"
  obtain going c' synced' s1 w1 where rnd: "?rnd = Inr (going, c', synced', s1, w1)"
    using less.prems(1) by (subst (asm) scan_loop.simps)
      (cases ?rnd, auto simp: Let_def prod_eq_iff)
  note copy = scan_round_copies [OF rnd less.prems(2-5)]
  have split: "remaining c rs = take (nat n) (remaining c rs) @ drop (nat n) (remaining c rs)" by simp
  show ?case
  proof (cases going)
    case True
    with rnd less.prems(1) have rest:
      "scan_loop env cops ctx entry target n c' synced' s1 w1 = Some ((k, None), s', w')"
      by (subst (asm) scan_loop.simps) (simp add: Let_def)
    have "length (remaining c' rs) < length (remaining c rs)"
      using copy True less.prems(3) by auto
    from less.hyps [OF this rest _ less.prems(3,4)] copy
    have "handed w' = handed w1 @ map (doc_of target) (remaining c' rs)
       \<and> k = synced' + int (length (remaining c' rs))" by simp
    with copy show ?thesis
      by (subst (1 2) split) (simp only: map_append append_assoc length_append of_nat_add, simp)
  next
    case False
    with rnd less.prems(1) have fin: "scan_end env ctx entry target synced' s1 w1 = ((k, None), s', w')"
      by (subst (asm) scan_loop.simps) (simp add: Let_def)
    from scan_end_handed [OF fin] have w': "handed w' = handed w1" "k = synced'" by simp_all
    have "drop (nat n) (remaining c rs) = []" using copy False by metis
    then have "take (nat n) (remaining c rs) = remaining c rs" by simp
    with copy w' show ?thesis by metis
  qed
qed

end

section \<open>The cursor of integer primary keys\<close>

definition any_int :: "go_any \<Rightarrow> int" where
  "any_int v = (case v of GoInt n \<Rightarrow> n | GoUint n \<Rightarrow> n | _ \<Rightarrow> 0)"

text \<open>
  The rows that a scope selects: \<open>WHERE column > checkpoint ORDER BY column LIMIT n\<close>, where gorm
  writes no limit for a negative number.  The scopes of the application are its own.
\<close>

definition scan_select ::
  "(string \<Rightarrow> go_any \<Rightarrow> int \<Rightarrow> go_any list \<Rightarrow> go_any list) \<Rightarrow> scan_scope \<Rightarrow> go_any list \<Rightarrow> go_any list"
  where
  "scan_select own sc rs =
     (case sc of
        AfterKey col cp n \<Rightarrow>
          let found = sort_key (\<lambda>r. any_int (column_of col r))
                        (filter (\<lambda>r. any_int cp < any_int (column_of col r)) rs)
          in if n < 0 then found else take (nat n) found
      | OwnScope q cp n \<Rightarrow> own q cp n rs)"

definition key_value :: "fullSyncKey \<Rightarrow> int \<Rightarrow> go_any" where
  "key_value k n = (if fk_unsigned k then GoUint n else GoInt n)"

definition row_has_key :: "fullSyncKey \<Rightarrow> go_any \<Rightarrow> bool" where
  "row_has_key k r \<longleftrightarrow> (\<exists>n. column_of (fk_columnName k) r = key_value k n)"

definition row_key :: "fullSyncKey \<Rightarrow> go_any \<Rightarrow> int" where
  "row_key k r = any_int (column_of (fk_columnName k) r)"

definition cursor_at :: "fullSyncKey \<Rightarrow> 'c scan_cursor \<Rightarrow> bool" where
  "cursor_at k c \<longleftrightarrow>
     (\<exists>i n. c = IntegerCursor i \<and> ic_key i = k \<and> ic_checkpoint i = key_value k n)"

definition cursor_pos :: "'c scan_cursor \<Rightarrow> int" where
  "cursor_pos c = (case c of IntegerCursor i \<Rightarrow> any_int (ic_checkpoint i) | OwnCursor _ \<Rightarrow> 0)"

lemma any_int_key_value [simp]: "any_int (key_value k n) = n"
  by (simp add: any_int_def key_value_def)

lemma key_value_inject [simp]: "key_value k n = key_value k m \<longleftrightarrow> n = m"
  by (simp add: key_value_def)

lemma key_valueOf_key_value:
  "column_of (fk_columnName k) r = key_value k n \<Longrightarrow> key_valueOf fmt_T k r = Inr (key_value k n)"
  by (simp add: key_valueOf_def key_value_def split: if_splits)

interpretation integer_scan: scan_cursor "scan_ops own" "cursor_at k" "row_has_key k" "row_key k"
  cursor_pos "scan_select own_select"
proof
  fix c c' :: "'a scan_cursor" and r rs n
  assume c: "cursor_at k c"
  then obtain i m where i: "c = IntegerCursor i" "ic_key i = k" "ic_checkpoint i = key_value k m"
    by (auto simp: cursor_at_def)
  have adv: "cur_Advance (scan_ops own) c r = Inr (IntegerCursor (i\<lparr>ic_checkpoint := key_value k l\<rparr>))"
    if "column_of (fk_columnName k) r = key_value k l" for l r
    using i key_valueOf_key_value [OF that] by (simp add: scan_ops_def integer_cursor_ops_def)
  show "\<exists>c'. cur_Advance (scan_ops own) c r = Inr c'" if "row_has_key k r"
    using that adv by (auto simp: row_has_key_def)
  show "cursor_at k c' \<and> cursor_pos c' = row_key k r"
    if "row_has_key k r" "cur_Advance (scan_ops own) c r = Inr c'"
    using that adv i by (auto simp: row_has_key_def cursor_at_def cursor_pos_def row_key_def)
  show "(cur_Checkpoint (scan_ops own) c = cur_Checkpoint (scan_ops own) c')
      = (cursor_pos c = cursor_pos c')" if "cursor_at k c'"
    using that i by (auto simp: cursor_at_def scan_ops_def cursor_pos_def)
  show "scan_select own_select (cur_Scope (scan_ops own) c n) rs
      = take (nat n) (sort_key (row_key k) (filter (\<lambda>r. cursor_pos c < row_key k r) rs))"
    if "0 < n"
    using i that by (simp add: scan_ops_def integer_cursor_ops_def scan_select_def cursor_pos_def
        row_key_def [abs_def])
qed

text \<open>The cursor that a registered model with an integer key starts with.\<close>

lemma fullSyncCursor_integer:
  assumes "me_fullSyncScan e = Some (IntegerPrimaryKeyScan (Some k))" "fk_unsigned k \<longrightarrow> 0 \<le> startID"
  shows "\<exists>c. fullSyncCursor own e startID = Inr c \<and> cursor_at k c \<and> cursor_pos c = startID"
  using assms by (auto simp: fullSyncCursor_def integer_Prepare_def cursor_at_def cursor_pos_def
      key_value_def any_int_def)

end
