(* ===== verification/Rebuild.thy ===== *)
theory Rebuild imports FullSync "HOL-Library.Multiset" begin

text \<open>
  What a full sync leaves behind: the contracts of the index services as locales, the safety of the
  alias during a rebuild, and the contents of the rebuilt index.

  \<open>scan_frame\<close> carries any property of worlds that the services of a scan keep through the loop;
  \<open>alias_cluster\<close> states the documented effect of the index requests on the indices and aliases of a
  cluster; \<open>doc_store\<close> adds the documents, those that were handed to an indexer and those that an index
  holds, and \<open>rebuild\<close> a table.  \<open>mem_fs\<close> is a reference world with all of it.
\<close>

section \<open>What the services of a scan keep, the scan keeps\<close>

locale scan_frame =
  fixes env :: "('w, 'm) fs_env_scheme"
    and target :: string
    and R :: "'w \<Rightarrow> 'w \<Rightarrow> bool"
  assumes R_refl: "R w w"
    and R_trans: "R w w1 \<Longrightarrow> R w1 w2 \<Longrightarrow> R w w2"
    and R_now: "rt_now env w = (now, w') \<Longrightarrow> R w w'"
    and R_scan: "db_scan env ctx t u sc w = (res, w') \<Longrightarrow> R w w'"
    and R_new: "bulk_new env target w = (err, w') \<Longrightarrow> R w w'"
    and R_add: "bulk_add env ctx target d b w = (ares, w') \<Longrightarrow> R w w'"
    and R_close: "bulk_close env ctx target w = (ares, w') \<Longrightarrow> R w w'"
begin

lemma R_record: "recordFailure env event s w = (s', w') \<Longrightarrow> R w w'"
  using recordFailure_world [of env event s w] R_refl R_now
  by (metis prod.collapse snd_conv)

lemma R_recordFull: "recordFullSyncFailure env entry d err s w = (s', w') \<Longrightarrow> R w w'"
  by (auto simp: recordFullSyncFailure_def R_refl dest: R_record split: option.splits)

lemma R_bulk_errors: "bulk_errors env entry errs s w = (s', w') \<Longrightarrow> R w w'"
proof (induction errs arbitrary: s w)
  case Nil
  then show ?case by (simp add: R_refl)
next
  case (Cons e errs)
  then show ?case by (auto split: prod.splits dest!: R_record intro: R_trans)
qed

lemma R_indexer_add: "indexer_add env ctx entry target d b s w = (err, s', w') \<Longrightarrow> R w w'"
  by (auto simp: indexer_add_def split: prod.splits dest!: R_add R_bulk_errors intro: R_trans)

lemma R_indexer_close: "indexer_close env ctx entry target s w = (err, s', w') \<Longrightarrow> R w w'"
  by (auto simp: indexer_close_def split: prod.splits dest!: R_close R_bulk_errors intro: R_trans)

lemma R_batch:
  "syncFullSyncBatch env cops ctx entry target c elems k s w = (res, s', w') \<Longrightarrow> R w w'"
proof (induction elems arbitrary: c k s w)
  case Nil
  then show ?case by (simp add: R_refl)
next
  case (Cons e elems)
  from Cons.prems show ?case
    by (auto simp: Let_def split: option.splits sum.splits prod.splits
        dest!: R_recordFull R_indexer_add Cons.IH intro: R_trans)
qed

definition world_of ::
  "((int \<times> go_error) \<times> Syncer \<times> 'w) + (bool \<times> 'c \<times> int \<times> Syncer \<times> 'w) \<Rightarrow> 'w" where
  "world_of rnd = (case rnd of Inl (_, _, w) \<Rightarrow> w | Inr (_, _, _, _, w) \<Rightarrow> w)"

lemma R_round: "R w (world_of (scan_round env cops ctx entry target n c synced s w))"
proof (cases "rt_ctx_err env ctx w")
  case (Some cerr)
  then show ?thesis
    by (auto simp: scan_round_def world_of_def split: prod.splits dest: R_indexer_close)
next
  case None
  obtain res w1 where scan: "db_scan env ctx (me_tableName entry) (fullSyncQuery_unscoped entry)
      (cur_Scope cops c n) w = (res, w1)" by fastforce
  note R1 = R_scan [OF scan]
  show ?thesis
  proof (cases res)
    case (Inl err)
    with None scan R1 show ?thesis
      by (auto simp: scan_round_def world_of_def Let_def split: prod.splits
          dest!: R_indexer_close R_recordFull intro: R_trans)
  next
    case (Inr found)
    obtain m c1 err s1 w2 where batch:
      "syncFullSyncBatch env cops ctx entry target c found 0 s w1 = ((m, c1, err), s1, w2)"
      by (metis prod.collapse)
    note R2 = R_trans [OF R1 R_batch [OF batch]]
    obtain e2 s2 w3 where close: "indexer_close env ctx entry target s1 w2 = (e2, s2, w3)"
      by (metis prod.collapse)
    note R3 = R_trans [OF R2 R_indexer_close [OF close]]
    from None scan Inr R1 R2 R3 batch close show ?thesis
      by (auto simp: scan_round_def world_of_def Let_def split: prod.splits option.splits
          dest!: R_record intro: R_trans)
  qed
qed

lemma R_end: "scan_end env ctx entry target synced s w = (res, s', w') \<Longrightarrow> R w w'"
  by (auto simp: scan_end_def split: prod.splits option.splits dest!: R_indexer_close)

end

lemma scan_loop_frame:
  "scan_loop env cops ctx entry target n c synced s w = Some y \<Longrightarrow>
     scan_frame env target R \<longrightarrow> R w (snd (snd y))"
proof (erule scan_loop.raw_induct [rotated], goal_cases)
  case (1 rec env cops ctx entry target n c synced s w y)
  let ?rnd = "scan_round env cops ctx entry target n c synced s w"
  show ?case
  proof
    assume fr: "scan_frame env target R"
    note R1 = scan_frame.R_round [OF fr, of w cops ctx entry n c synced s]
    show "R w (snd (snd y))"
    proof (cases ?rnd)
      case (Inl early)
      with 1(2) R1 show ?thesis
        by (cases early) (auto simp: scan_frame.world_of_def [OF fr])
    next
      case (Inr st)
      obtain going c' k s1 w1 where st: "st = (going, c', k, s1, w1)" by (metis prod.collapse)
      with Inr R1 have R1: "R w w1" by (simp add: scan_frame.world_of_def [OF fr])
      show ?thesis
      proof (cases going)
        case True
        with 1(2) Inr st have "rec env cops ctx entry target n c' k s1 w1 = Some y" by simp
        from 1(1) [OF this] fr R1 scan_frame.R_trans [OF fr] show ?thesis by blast
      next
        case False
        with 1(2) Inr st have "scan_end env ctx entry target k s1 w1 = y" by simp
        then have "R w1 (snd (snd y))"
          using scan_frame.R_end [OF fr] by (metis prod.collapse)
        with R1 scan_frame.R_trans [OF fr] show ?thesis by blast
      qed
    qed
  qed
qed

lemma fullSyncFrom_frame:
  assumes "scan_frame env target R"
    and "fullSyncFrom env cops ctx entry target c s w = Some (res, s', w')"
  shows "R w w'"
proof -
  obtain err w1 where new: "bulk_new env target w = (err, w1)" by fastforce
  note R1 = scan_frame.R_new [OF assms(1) new]
  show ?thesis
  proof (cases err)
    case (Some e)
    with assms(2) new R1 show ?thesis by (auto simp: fullSyncFrom_def Let_def)
  next
    case None
    with assms(2) new obtain n where
      "scan_loop env cops ctx entry target n c 0 s w1 = Some (res, s', w')"
      by (auto simp: fullSyncFrom_def Let_def)
    from scan_loop_frame [OF this] assms(1) R1 scan_frame.R_trans [OF assms(1)]
    show ?thesis by auto
  qed
qed

section \<open>The indices and aliases of a cluster\<close>

text \<open>The aliases that the body of a create request gives to the new index.\<close>

definition body_aliases :: "go_json option \<Rightarrow> string list" where
  "body_aliases body =
     (case body of
        Some (JObj fields') \<Rightarrow> (case map_of fields' ''aliases'' of Some (JObj m) \<Rightarrow> map fst m | _ \<Rightarrow> [])
      | _ \<Rightarrow> [])"

definition create_index :: "string \<Rightarrow> go_json option \<Rightarrow> cluster \<Rightarrow> cluster" where
  "create_index i body c =
     \<lparr>cl_indices = insert i (cl_indices c),
      cl_aliases = cl_aliases c \<union> {(i, a) | a. a \<in> set (body_aliases body)}\<rparr>"

lemma targets_create_index:
  "targets (create_index i body c) a = targets c a \<union> (if a \<in> set (body_aliases body) then {i} else {})"
  by (auto simp: targets_def create_index_def)

lemma cl_indices_create_index: "cl_indices (create_index i body c) = insert i (cl_indices c)"
  by (simp add: create_index_def)

lemma cl_indices_delete_index: "cl_indices (delete_index i c) = cl_indices c - {i}"
  by (simp add: delete_index_def)

text \<open>A client error means that a request may or may not have been carried out.\<close>

definition accepted :: "go_error + status_response \<Rightarrow> bool" where
  "accepted res \<longleftrightarrow> (\<exists>r. res = Inr r \<and> \<not> sr_IsError r)"

locale alias_cluster =
  fixes env :: "('w, 'm) fs_env_scheme"
    and view :: "'w \<Rightarrow> cluster"
  assumes alias_exists: "(i, a) \<in> cl_aliases (view w) \<Longrightarrow> i \<in> cl_indices (view w)"
    and get_alias_law: "es_get_alias env ctx a w = (gres, w') \<Longrightarrow> view w' = view w
      \<and> (\<forall>r p. gres = Inr r \<longrightarrow> ar_StatusCode r = 200 \<longrightarrow> ar_payload r = Inr p \<longrightarrow>
           fst ` {e \<in> set p. a \<in> set (snd e)} = targets (view w) a)
      \<and> (\<forall>r. gres = Inr r \<longrightarrow> ar_StatusCode r = 404 \<longrightarrow> targets (view w) a = {})"
    and exists_law: "es_exists env ctx i w = (eres, w') \<Longrightarrow> view w' = view w"
    and create_law: "es_create env ctx i body w = (res, w') \<Longrightarrow>
      (view w' = view w \<or> i \<notin> cl_indices (view w) \<and> view w' = create_index i body (view w))
      \<and> (accepted res \<longrightarrow> i \<notin> cl_indices (view w) \<and> view w' = create_index i body (view w))"
    and switch_law: "es_update_aliases env ctx acts w = (res, w') \<Longrightarrow>
      (view w' = view w \<or> view w' = fold apply_action acts (view w))
      \<and> (accepted res \<longrightarrow> view w' = fold apply_action acts (view w))"
    and delete_law: "es_delete_indices env ctx is w = (res, w') \<Longrightarrow>
      (view w' = view w \<or> view w' = fold delete_index is (view w))
      \<and> (accepted res \<longrightarrow> view w' = fold delete_index is (view w))"
    and now_view: "rt_now env w = (now, w') \<Longrightarrow> view w' = view w"
    and scan_view: "db_scan env ctx t u sc w = (sres, w') \<Longrightarrow> view w' = view w"
    and new_view: "bulk_new env i w = (err, w') \<Longrightarrow> view w' = view w"
    and add_view: "i \<in> cl_indices (view w) \<Longrightarrow> bulk_add env ctx i d b w = (ares, w') \<Longrightarrow> view w' = view w"
    and close_view: "i \<in> cl_indices (view w) \<Longrightarrow> bulk_close env ctx i w = (ares, w') \<Longrightarrow> view w' = view w"

sublocale alias_cluster \<subseteq> frame: scan_frame env target
    "\<lambda>w w'. target \<in> cl_indices (view w) \<longrightarrow> view w' = view w" for target
  by unfold_locales (auto dest: now_view scan_view new_view add_view close_view)

context alias_cluster
begin

lemma resolveAliasState_view:
  assumes "resolveAliasState env ctx a w = (res, w')"
  shows "view w' = view w
    \<and> (\<forall>st. res = Inr st \<longrightarrow> as_aliasName st = a
         \<and> (\<not> as_legacyConcreteIdx st \<and> set (as_targets st) = targets (view w) a
            \<or> as_legacyConcreteIdx st \<and> as_targets st = [a] \<and> targets (view w) a = {}))"
proof -
  obtain g w1 where g: "es_get_alias env ctx a w = (g, w1)" by fastforce
  note law = get_alias_law [OF g]
  have pick: "set (map fst (filter (\<lambda>(index, aliases). a \<in> set aliases) p))
      = fst ` {e \<in> set p. a \<in> set (snd e)}" for p :: "(string \<times> string list) list"
    by (auto simp: image_iff)
  obtain x w2 where x: "indexExists env ctx a w1 = (x, w2)" by fastforce
  then have x2: "view w2 = view w1"
    by (auto simp: indexExists_def split: prod.splits sum.splits if_splits dest!: exists_law)
  from assms g law x x2 show ?thesis
    by (auto simp: resolveAliasState_def Let_def pick [simplified] split: sum.splits if_splits bool.splits)
qed

lemma createManagedIndex_view:
  assumes "createManagedIndex env ctx entry i [] w = (err, w')"
    and "\<And>body. buildIndexCreateBody (json_object env) (me_mapping entry) [] = Inr body \<Longrightarrow>
      me_indexName entry \<notin> set (body_aliases body)"
  shows "(view w' = view w \<or> i \<notin> cl_indices (view w) \<and> i \<in> cl_indices (view w'))
    \<and> cl_indices (view w) \<subseteq> cl_indices (view w')
    \<and> cl_indices (view w') \<subseteq> insert i (cl_indices (view w))
    \<and> targets (view w') (me_indexName entry) = targets (view w) (me_indexName entry)
    \<and> (err = None \<longrightarrow> i \<notin> cl_indices (view w) \<and> i \<in> cl_indices (view w'))"
proof (cases "buildIndexCreateBody (json_object env) (me_mapping entry) []")
  case (Inl e)
  with assms(1) show ?thesis by (auto simp: createManagedIndex_def)
next
  case (Inr body)
  obtain res w1 where c: "es_create env ctx i body w = (res, w1)" by fastforce
  have w': "w' = w1" "err = None \<longrightarrow> accepted res"
    using assms(1) Inr c
    by (auto simp: createManagedIndex_def accepted_def split: sum.splits if_splits)
  have "me_indexName entry \<notin> set (body_aliases body)" by (rule assms(2) [OF Inr])
  with w' create_law [OF c] show ?thesis
    by (auto simp: targets_create_index cl_indices_create_index)
qed

lemma switchAliasToIndex_view:
  assumes "switchAliasToIndex env ctx st i w = (err, w')"
  shows "(view w' = view w \<or> view w' = fold apply_action (buildAliasUpdateBody st i) (view w))
    \<and> (err = None \<longrightarrow> view w' = fold apply_action (buildAliasUpdateBody st i) (view w))"
proof -
  obtain res w1 where u: "es_update_aliases env ctx (buildAliasUpdateBody st i) w = (res, w1)"
    by fastforce
  have w': "w' = w1" "err = None \<longrightarrow> accepted res"
    using assms u by (auto simp: switchAliasToIndex_def accepted_def Let_def split: sum.splits if_splits)
  with switch_law [OF u] show ?thesis by simp
qed

lemma deleteIndices_view:
  assumes "deleteIndices env ctx is w = (err, w')"
  shows "(view w' = view w \<or> view w' = fold delete_index is (view w))
    \<and> (err = None \<longrightarrow> view w' = fold delete_index is (view w))"
proof (cases "is = []")
  case True
  with assms show ?thesis by (simp add: deleteIndices_def)
next
  case False
  obtain res w1 where u: "es_delete_indices env ctx is w = (res, w1)" by fastforce
  have w': "w' = w1" "err = None \<longrightarrow> accepted res"
    using assms u False by (auto simp: deleteIndices_def accepted_def Let_def split: sum.splits if_splits)
  with delete_law [OF u] show ?thesis by simp
qed

end

lemma fold_delete_index:
  "targets (fold delete_index is c) a = targets c a - set is"
  "cl_indices (fold delete_index is c) = cl_indices c - set is"
  by (induction "is" arbitrary: c) (auto simp: targets_delete_index cl_indices_delete_index)


text \<open>A managed index never has the name of its alias.\<close>

lemma newManagedIndexName_fresh: "newManagedIndexName e what now \<noteq> me_indexName e"
proof
  assume "newManagedIndexName e what now = me_indexName e"
  then have "length (newManagedIndexName e what now) = length (me_indexName e)" by simp
  then show False by (simp add: newManagedIndexName_def)
qed

text \<open>
  The alias of a model is safe: it is as it was, with every index still there, or it is on one new
  index; a sync without an error has moved it and removed what it replaced.
\<close>

definition alias_safe :: "string \<Rightarrow> cluster \<Rightarrow> cluster \<Rightarrow> bool" where
  "alias_safe a c c' \<longleftrightarrow>
     targets c' a = targets c a \<and> cl_indices c \<subseteq> cl_indices c'
   \<or> (\<exists>i. i \<notin> cl_indices c \<and> i \<in> cl_indices c' \<and> targets c' a = {i})"

definition alias_moved :: "string \<Rightarrow> string \<Rightarrow> cluster \<Rightarrow> cluster \<Rightarrow> bool" where
  "alias_moved a i c c' \<longleftrightarrow>
     i \<notin> cl_indices c \<and> i \<in> cl_indices c' \<and> targets c' a = {i} \<and> cl_indices c' \<inter> targets c a = {}"

lemma alias_moved_safe: "alias_moved a i c c' \<Longrightarrow> alias_safe a c c'"
  by (auto simp: alias_moved_def alias_safe_def)

definition plain_mapping :: "('w, 'm) index_env_scheme \<Rightarrow> modelEntry \<Rightarrow> bool" where
  "plain_mapping env entry \<longleftrightarrow>
     (case buildIndexCreateBody (json_object env) (me_mapping entry) [] of
        Inr body \<Rightarrow> me_indexName entry \<notin> set (body_aliases body)
      | Inl _ \<Rightarrow> True)"

lemma plain_mappingD:
  "plain_mapping env entry \<Longrightarrow>
     buildIndexCreateBody (json_object env) (me_mapping entry) [] = Inr body \<Longrightarrow>
     me_indexName entry \<notin> set (body_aliases body)"
  by (simp add: plain_mapping_def)

context alias_cluster
begin

lemma record_view: "recordFailure env event s w = (s', w') \<Longrightarrow> view w' = view w"
  using recordFailure_world [of env event s w] now_view by (metis prod.collapse snd_conv)

lemma fail_full_sync_view:
  "fail_full_sync env entry n err s w = ((m, e), s', w') \<Longrightarrow> view w' = view w \<and> e = Some err"
  by (auto simp: fail_full_sync_def split: prod.splits dest!: record_view)

text \<open>The last part of a rebuild, from a complete copy on.\<close>

lemma switch_and_delete:
  assumes st: "as_aliasName st = a"
      "\<not> as_legacyConcreteIdx st \<and> set (as_targets st) = targets c a
       \<or> as_legacyConcreteIdx st \<and> as_targets st = [a] \<and> targets c a = {}"
    and c: "targets (view w) a = targets c a" "cl_indices c \<subseteq> cl_indices (view w)"
      "i \<notin> cl_indices c" "i \<in> cl_indices (view w)" "i \<noteq> a" "targets c a \<subseteq> cl_indices c"
    and switch: "switchAliasToIndex env ctx st i w = (err, w1)"
    and delete: "deleteReplacedIndices env ctx st w1 = (err2, w2)"
  shows "alias_safe a c (view w1) \<and> (err = None \<longrightarrow> alias_safe a c (view w2))
    \<and> (err = None \<and> err2 = None \<longrightarrow> alias_moved a i c (view w2))"
proof -
  let ?sw = "fold apply_action (buildAliasUpdateBody st i) (view w)"
  have sw: "targets ?sw a = {i}" "i \<in> cl_indices ?sw"
    using switch_targets [of st i "view w"] st c by auto
  note law = switchAliasToIndex_view [OF switch]
  have del: "view w2 = view w1 \<and> (err2 = None \<longrightarrow> targets c a = {})
      \<or> view w2 = fold delete_index (as_targets st) (view w1) \<and> set (as_targets st) = targets c a"
    using delete st by (auto simp: deleteReplacedIndices_def dest!: deleteIndices_view split: if_splits)
  have safe: "alias_safe a c ?sw" "alias_safe a c (view w)"
    using sw c by (auto simp: alias_safe_def)
  have moved: "alias_moved a i c ?sw" if "targets c a = {}"
    using sw c that by (auto simp: alias_moved_def)
  have moved_del: "alias_moved a i c (fold delete_index (as_targets st) ?sw)"
    if "set (as_targets st) = targets c a"
    using sw c that by (auto simp: alias_moved_def fold_delete_index)
  from law safe have "alias_safe a c (view w1)" by auto
  moreover have "alias_safe a c (view w2) \<and> (err2 = None \<longrightarrow> alias_moved a i c (view w2))" if "err = None"
  proof -
    from law that have w1: "view w1 = ?sw" by simp
    from del show ?thesis
    proof
      assume "view w2 = view w1 \<and> (err2 = None \<longrightarrow> targets c a = {})"
      with w1 safe moved show ?thesis by auto
    next
      assume "view w2 = fold delete_index (as_targets st) (view w1)
        \<and> set (as_targets st) = targets c a"
      with w1 moved_del alias_moved_safe show ?thesis by metis
    qed
  qed
  ultimately show ?thesis by blast
qed

lemma fullSyncTableAt_safe:
  assumes run: "fullSyncTableAt env own ctx entry startID s w = Some ((n, err), s', w')"
    and plain: "plain_mapping env entry"
  shows "alias_safe (me_indexName entry) (view w) (view w')
    \<and> (err = None \<longrightarrow> (\<exists>i. alias_moved (me_indexName entry) i (view w) (view w')))"
proof -
  let ?a = "me_indexName entry"
  have same: "alias_safe ?a (view w) v" if "targets v ?a = targets (view w) ?a"
    "cl_indices (view w) \<subseteq> cl_indices v" for v using that by (simp add: alias_safe_def)
  have keep: "alias_safe ?a (view w) (view w)" by (rule same) simp_all
  obtain res w1 where resolve: "resolveAliasState env ctx ?a w = (res, w1)" by fastforce
  obtain now w2 where now: "rt_now env w1 = (now, w2)" by fastforce
  define i where "i = newRebuildIndexName entry now"
  obtain cerr w3 where create: "createManagedIndex env ctx entry i [] w2 = (cerr, w3)" by fastforce
  have sub: "targets (view w) ?a \<subseteq> cl_indices (view w)" using alias_exists by (auto simp: targets_def)
  have ne: "i \<noteq> []" by (simp add: i_def newRebuildIndexName_def newManagedIndexName_def)
  have fresh: "i \<noteq> ?a" by (simp add: i_def newRebuildIndexName_def newManagedIndexName_fresh)
  note v1 = resolveAliasState_view [OF resolve]
  have v2: "view w2 = view w1" by (rule now_view [OF now])
  note v3 = createManagedIndex_view [OF create plain_mappingD [OF plain]]
  have safe3: "alias_safe ?a (view w) (view w3)" by (rule same) (use v1 v2 v3 in auto)
  show ?thesis
  proof (cases "fullSyncCursor own entry startID")
    case (Inl e)
    with run keep show ?thesis by (auto simp: fullSyncTableAt_def dest!: fail_full_sync_view)
  next
    case cursor: (Inr c)
    show ?thesis
    proof (cases "isl res \<or> cerr \<noteq> None")
      case True
      with run cursor resolve now create keep safe3 v1 show ?thesis
        by (auto simp: fullSyncTableAt_def i_def [symmetric] split: sum.splits option.splits
            dest!: fail_full_sync_view)
    next
      case False
      then obtain st where st: "res = Inr st" and created: "cerr = None" by (cases res) auto
      with v1 v2 v3 have in3: "i \<in> cl_indices (view w3)" "i \<notin> cl_indices (view w)" by auto
      obtain m ferr s4 w4 where copy:
        "fullSyncFrom env (scan_ops own) ctx entry i c s w3 = Some ((m, ferr), s4, w4)"
        using run cursor resolve now create st created
        by (auto simp: fullSyncTableAt_def i_def [symmetric] split: option.splits)
      have v4: "view w4 = view w3" using fullSyncFrom_frame [OF frame.scan_frame_axioms copy] in3 by simp
      show ?thesis
      proof (cases ferr)
        case (Some e)
        obtain de w5 where clean: "deleteIndices env ctx [i] w4 = (de, w5)" by fastforce
        have "w' = w5 \<and> err = Some e"
          using run cursor resolve now create st created copy Some clean
          by (auto simp: fullSyncTableAt_def i_def [symmetric] cleanupDetachedIndex_def ne)
        with deleteIndices_view [OF clean] have "view w' = view w3 \<or> view w' = delete_index i (view w3)" "err = Some e"
          using v4 by auto
        moreover have "alias_safe ?a (view w) (delete_index i (view w3))"
          by (rule same) (use v1 v2 v3 in3 sub in \<open>auto simp: targets_delete_index cl_indices_delete_index\<close>)
        ultimately show ?thesis using safe3 by auto
      next
        case None
        obtain swerr w5 where switch: "switchAliasToIndex env ctx st i w4 = (swerr, w5)" by fastforce
        obtain delerr w6 where delete: "deleteReplacedIndices env ctx st w5 = (delerr, w6)" by fastforce
        have "alias_safe ?a (view w) (view w5) \<and> (swerr = None \<longrightarrow> alias_safe ?a (view w) (view w6))
          \<and> (swerr = None \<and> delerr = None \<longrightarrow> alias_moved ?a i (view w) (view w6))"
          by (rule switch_and_delete [OF _ _ _ _ _ _ _ _ switch delete])
            (use v1 v2 v3 v4 st in3 sub fresh in auto)
        moreover have "swerr = None \<and> delerr = None \<and> err = None \<and> w' = w6
          \<or> swerr = None \<and> err \<noteq> None \<and> view w' = view w6 \<or> err \<noteq> None \<and> view w' = view w5"
          using run cursor resolve now create st created copy None switch delete
          by (auto simp: fullSyncTableAt_def i_def [symmetric] split: option.splits
              dest!: fail_full_sync_view)
        ultimately show ?thesis by auto
      qed
    qed
  qed
qed

end

section \<open>The documents of the rebuilt index\<close>

text \<open>What comes before the copy: the alias is resolved and the new index created.\<close>

definition prepared ::
  "('w, 'm) fs_env_scheme \<Rightarrow> go_ctx \<Rightarrow> modelEntry \<Rightarrow> 'w \<Rightarrow> aliasState \<Rightarrow> string \<Rightarrow> 'w \<Rightarrow> bool" where
  "prepared env ctx entry w st i w3 \<longleftrightarrow>
     (\<exists>w1 now w2. resolveAliasState env ctx (me_indexName entry) w = (Inr st, w1)
        \<and> rt_now env w1 = (now, w2) \<and> i = newRebuildIndexName entry now
        \<and> createManagedIndex env ctx entry i [] w2 = (None, w3))"

lemma fullSyncTableAt_steps:
  assumes "fullSyncTableAt env own ctx entry startID s w = Some ((n, None), s', w')"
  obtains c st i w3 w4 w5 where
    "fullSyncCursor own entry startID = Inr c" "prepared env ctx entry w st i w3"
    "fullSyncFrom env (scan_ops own) ctx entry i c s w3 = Some ((n, None), s', w4)"
    "switchAliasToIndex env ctx st i w4 = (None, w5)" "deleteReplacedIndices env ctx st w5 = (None, w')"
  using assms
  by (auto simp: fullSyncTableAt_def Let_def fail_full_sync_def prepared_def
      split: sum.splits prod.splits option.splits)

lemma switchAliasToIndex_request:
  "switchAliasToIndex env ctx st i w = (err, w') \<Longrightarrow>
     \<exists>res. es_update_aliases env ctx (buildAliasUpdateBody st i) w = (res, w')"
  by (auto simp: switchAliasToIndex_def Let_def split: prod.splits sum.splits if_splits)

lemma deleteReplacedIndices_request:
  "deleteReplacedIndices env ctx st w = (err, w') \<Longrightarrow>
     w' = w \<or> (\<exists>res. es_delete_indices env ctx (as_targets st) w = (res, w'))"
  by (auto simp: deleteReplacedIndices_def deleteIndices_def Let_def split: prod.splits sum.splits if_splits)

text \<open>What the requests before the copy keep.\<close>

locale setup_frame =
  fixes env :: "('w, 'm) fs_env_scheme"
    and R :: "'w \<Rightarrow> 'w \<Rightarrow> bool"
  assumes setup_trans: "R w w1 \<Longrightarrow> R w1 w2 \<Longrightarrow> R w w2"
    and setup_get_alias: "es_get_alias env ctx a w = (gres, w') \<Longrightarrow> R w w'"
    and setup_exists: "es_exists env ctx i w = (eres, w') \<Longrightarrow> R w w'"
    and setup_create: "es_create env ctx i body w = (res, w') \<Longrightarrow> R w w'"
    and setup_now: "rt_now env w = (now, w') \<Longrightarrow> R w w'"
    and setup_refl: "R w w"
begin

lemma setup_resolve: "resolveAliasState env ctx a w = (res, w') \<Longrightarrow> R w w'"
  by (auto simp: resolveAliasState_def indexExists_def Let_def
      split: prod.splits sum.splits if_splits bool.splits dest!: setup_get_alias setup_exists intro: setup_trans)

lemma setup_created: "createManagedIndex env ctx entry i as w = (err, w') \<Longrightarrow> R w w'"
  by (auto simp: createManagedIndex_def split: prod.splits sum.splits if_splits
      dest!: setup_create intro: setup_refl)

lemma setup_prepared:
  assumes "prepared env ctx entry w st i w3"
  shows "R w w3"
proof -
  from assms obtain w1 now w2 where steps: "resolveAliasState env ctx (me_indexName entry) w = (Inr st, w1)"
    "rt_now env w1 = (now, w2)" "createManagedIndex env ctx entry i [] w2 = (None, w3)"
    by (auto simp: prepared_def)
  show ?thesis
    by (rule setup_trans [OF setup_resolve [OF steps(1)]], rule setup_trans [OF setup_now [OF steps(2)]],
        rule setup_created [OF steps(3)])
qed

end

text \<open>A copy without an error ends with a \<open>Close\<close> without an error.\<close>

definition closes ::
  "('w, 'm) fs_env_scheme \<Rightarrow> go_ctx \<Rightarrow> modelEntry \<Rightarrow> string \<Rightarrow> Syncer \<Rightarrow> 'w \<Rightarrow> bool" where
  "closes env ctx entry target s' w' \<longleftrightarrow>
     (\<exists>w1 errs w2 s2. bulk_close env ctx target w1 = ((None, errs), w2) \<and> bulk_errors env entry errs s2 w2 = (s', w'))"

lemma scan_end_closes:
  "scan_end env ctx entry target synced s w = ((k, None), s', w') \<Longrightarrow> closes env ctx entry target s' w'"
  by (auto simp: scan_end_def indexer_close_def closes_def split: prod.splits option.splits)

lemma scan_loop_closes:
  "scan_loop env cops ctx entry target n c synced s w = Some y \<Longrightarrow>
     snd (fst y) = None \<longrightarrow> closes env ctx entry target (fst (snd y)) (snd (snd y))"
proof (erule scan_loop.raw_induct [rotated], goal_cases)
  case (1 rec env cops ctx entry target n c synced s w y)
  show ?case
  proof (cases "scan_round env cops ctx entry target n c synced s w")
    case (Inl early)
    with 1(2) show ?thesis by auto
  next
    case (Inr st)
    obtain going c' k s1 w1 where st: "st = (going, c', k, s1, w1)" by (metis prod.collapse)
    show ?thesis
    proof (cases going)
      case True
      with 1(2) Inr st have "rec env cops ctx entry target n c' k s1 w1 = Some y" by simp
      then show ?thesis by (rule 1(1))
    next
      case False
      with 1(2) Inr st have "scan_end env ctx entry target k s1 w1 = y" by simp
      then show ?thesis using scan_end_closes by (metis prod.collapse)
    qed
  qed
qed

lemma fullSyncFrom_closes:
  "fullSyncFrom env cops ctx entry target c s w = Some ((n, None), s', w') \<Longrightarrow>
     closes env ctx entry target s' w'"
  by (auto simp: fullSyncFrom_def Let_def split: prod.splits option.splits dest!: scan_loop_closes)

definition index_docs :: "string \<Rightarrow> (string \<times> string \<times> string) list \<Rightarrow> (string \<times> string \<times> string) list" where
  "index_docs i ds = filter (\<lambda>d. fst d = i) ds"

lemma index_docs_append: "index_docs i (ds @ es) = index_docs i ds @ index_docs i es"
  by (simp add: index_docs_def)

definition effective_batch :: "Syncer \<Rightarrow> modelEntry \<Rightarrow> int" where
  "effective_batch s entry =
     (if me_batchSize entry \<le> 0 then sc_DefaultBatchSize (cfg_Sync (sy_cfg s)) else me_batchSize entry)"

text \<open>
  \<open>stored\<close> are the documents of the indices, \<open>refused\<close> those that an indexer was given but that the
  index did not take: a bulk request that failed, or an item that Elasticsearch rejected.  A \<open>Close\<close>
  without an error says that every document is one or the other, not that it was stored.
\<close>

locale doc_store = cluster: alias_cluster env view
    + hand_over "scan_ops own" ok row_ok key pos selects env handed
  for env :: "('w, 'm) fs_env_scheme" and view and own :: "'c own_scans"
    and ok row_ok key pos selects handed +
  fixes stored :: "'w \<Rightarrow> (string \<times> string \<times> string) list"
    and refused :: "'w \<Rightarrow> (string \<times> string \<times> string) list"
  assumes absent_docs: "i \<notin> cl_indices (view w) \<Longrightarrow> index_docs i (handed w) = []"
    and get_alias_docs: "es_get_alias env ctx a w = (gres, w') \<Longrightarrow> handed w' = handed w"
    and exists_docs: "es_exists env ctx i w = (eres, w') \<Longrightarrow> handed w' = handed w"
    and create_docs: "es_create env ctx i body w = (res, w') \<Longrightarrow> handed w' = handed w"
    and switch_docs: "es_update_aliases env ctx acts w = (res, w') \<Longrightarrow> RemoveIndex i \<notin> set acts \<Longrightarrow>
      index_docs i (stored w') = index_docs i (stored w) \<and> index_docs i (refused w') = index_docs i (refused w)"
    and delete_docs: "es_delete_indices env ctx is w = (res, w') \<Longrightarrow> i \<notin> set is \<Longrightarrow>
      index_docs i (stored w') = index_docs i (stored w) \<and> index_docs i (refused w') = index_docs i (refused w)"
    and flush_law: "bulk_close env ctx i w = ((None, errs), w') \<Longrightarrow>
      mset (index_docs i (stored w')) + mset (index_docs i (refused w')) = mset (index_docs i (handed w'))"
    and clock_docs: "rt_now env w = (now, w') \<Longrightarrow> stored w' = stored w \<and> refused w' = refused w"

sublocale doc_store \<subseteq> hand: setup_frame env "\<lambda>w w'. handed w' = handed w"
  by unfold_locales (auto dest: get_alias_docs exists_docs create_docs clock_handed)

context doc_store
begin

lemma prepared_handed: "prepared env ctx entry w st i w3 \<Longrightarrow> handed w3 = handed w"
  by (rule hand.setup_prepared)

lemma errors_docs:
  "bulk_errors env entry errs s w = (s', w') \<Longrightarrow> stored w' = stored w \<and> refused w' = refused w"
proof (induction errs arbitrary: s w)
  case (Cons e errs)
  obtain s1 w1 where rec: "recordFailure env (full_sync_failure entry [] e) s w = (s1, w1)" by fastforce
  with recordFailure_world [of env "full_sync_failure entry [] e" s w] clock_docs
  have "stored w1 = stored w \<and> refused w1 = refused w" by (metis prod.collapse snd_conv)
  with Cons.IH [of s1 w1] Cons.prems rec show ?case by simp
qed simp

lemma fullSyncFrom_flushes:
  assumes "fullSyncFrom env (scan_ops own) ctx entry target c s w = Some ((n, None), s', w')"
  shows "mset (index_docs target (stored w')) + mset (index_docs target (refused w'))
    = mset (index_docs target (handed w'))"
proof -
  from fullSyncFrom_closes [OF assms] obtain w1 errs w2 s2 where
    "bulk_close env ctx target w1 = ((None, errs), w2)" "bulk_errors env entry errs s2 w2 = (s', w')"
    by (auto simp: closes_def)
  with flush_law errors_docs bulk_errors_handed show ?thesis by metis
qed

text \<open>A rebuild without an error: its alias, and its index in terms of what the copy has handed over.\<close>

lemma rebuilt:
  assumes plain: "plain_mapping env entry" and prep: "prepared env ctx entry w st i w3"
    and copy: "fullSyncFrom env (scan_ops own) ctx entry i c s w3 = Some ((n, None), s', w4)"
    and switch: "switchAliasToIndex env ctx st i w4 = (None, w5)"
    and delete: "deleteReplacedIndices env ctx st w5 = (None, w')"
    and handed: "handed w4 = handed w @ map (doc_of i) rows"
  shows "targets (view w') (me_indexName entry) = {i} \<and> i \<notin> cl_indices (view w)
    \<and> mset (index_docs i (stored w')) + mset (index_docs i (refused w')) = mset (map (doc_of i) rows)"
proof -
  from prep obtain w1 now w2 where steps:
    "resolveAliasState env ctx (me_indexName entry) w = (Inr st, w1)" "rt_now env w1 = (now, w2)"
    "createManagedIndex env ctx entry i [] w2 = (None, w3)" and i: "i = newRebuildIndexName entry now"
    by (auto simp: prepared_def)
  note v = cluster.resolveAliasState_view [OF steps(1)] cluster.now_view [OF steps(2)]
    cluster.createManagedIndex_view [OF steps(3) plain_mappingD [OF plain]]
  have "index_docs i (handed w) = []" using absent_docs v by metis
  moreover have "index_docs i (map (doc_of i) xs) = map (doc_of i) xs" for xs
    by (simp add: index_docs_def doc_of_def filter_id_conv)
  ultimately have "index_docs i (handed w4) = map (doc_of i) rows" by (simp add: handed index_docs_append)
  with fullSyncFrom_flushes [OF copy] have docs4: "mset (index_docs i (stored w4)) + mset (index_docs i (refused w4))
      = mset (map (doc_of i) rows)" by simp
  have fresh: "i \<notin> cl_indices (view w)" "i \<noteq> me_indexName entry" "i \<notin> set (as_targets st)"
    using v newManagedIndexName_fresh [of entry] cluster.alias_exists
    by (auto simp: i newRebuildIndexName_def targets_def)
  then have "RemoveIndex i \<notin> set (buildAliasUpdateBody st i)" by (auto simp: buildAliasUpdateBody_def)
  with switch_docs switchAliasToIndex_request [OF switch] have docs5:
    "index_docs i (stored w5) = index_docs i (stored w4) \<and> index_docs i (refused w5) = index_docs i (refused w4)"
    by metis
  have docs6: "index_docs i (stored w') = index_docs i (stored w5) \<and> index_docs i (refused w') = index_docs i (refused w5)"
    using deleteReplacedIndices_request [OF delete] delete_docs fresh(3) by metis
  have v4: "view w4 = view w3"
    using fullSyncFrom_frame [OF cluster.frame.scan_frame_axioms copy] v by simp
  have "alias_moved (me_indexName entry) i (view w) (view w')"
    by (rule cluster.switch_and_delete [OF _ _ _ _ _ _ _ _ switch delete, THEN conjunct2, THEN conjunct2, rule_format])
      (use v v4 fresh cluster.alias_exists in \<open>auto simp: targets_def\<close>)
  then have "targets (view w') (me_indexName entry) = {i}" by (simp add: alias_moved_def)
  with docs4 docs5 docs6 fresh(1) show ?thesis by metis
qed

end

text \<open>The table stays as it is.\<close>

locale rebuild = doc_store env view own ok row_ok key pos selects handed stored refused
    + table_scan "scan_ops own" ok row_ok key pos selects env handed tbl
  for env :: "('w, 'm) fs_env_scheme" and view and own :: "'c own_scans"
    and ok row_ok key pos selects tbl handed stored refused +
  assumes get_alias_tbl: "es_get_alias env ctx a w = (gres, w') \<Longrightarrow> tbl t u w' = tbl t u w"
    and exists_tbl: "es_exists env ctx i w = (eres, w') \<Longrightarrow> tbl t u w' = tbl t u w"
    and create_tbl: "es_create env ctx i body w = (res, w') \<Longrightarrow> tbl t u w' = tbl t u w"

sublocale rebuild \<subseteq> table: setup_frame env "\<lambda>w w'. \<forall>t u. tbl t u w' = tbl t u w"
  by unfold_locales (auto dest: get_alias_tbl exists_tbl create_tbl clock_law)

context rebuild
begin

lemma fullSyncFrom_copies:
  assumes "fullSyncFrom env (scan_ops own) ctx entry target c s w = Some ((n, None), s', w')"
    and "ok c" "0 < effective_batch s entry"
    and "keyed (tbl (me_tableName entry) (fullSyncQuery_unscoped entry) w)"
  shows "handed w' = handed w @ map (doc_of target)
      (remaining c (tbl (me_tableName entry) (fullSyncQuery_unscoped entry) w))
    \<and> n = int (length (remaining c (tbl (me_tableName entry) (fullSyncQuery_unscoped entry) w)))"
proof -
  obtain err w1 where new: "bulk_new env target w = (err, w1)" by fastforce
  note same = new_law [OF new] new_handed [OF new]
  from assms(1) new have loop:
    "scan_loop env (scan_ops own) ctx entry target (effective_batch s entry) c 0 s w1
       = Some ((n, None), s', w')"
    by (auto simp: fullSyncFrom_def effective_batch_def Let_def split: option.splits)
  show ?thesis
    using scan_loop_copies [OF loop assms(2,3) assms(4)] same by simp
qed

lemma fullSyncFrom_ends:
  assumes "ok c" "0 < effective_batch s entry"
    and "keyed (tbl (me_tableName entry) (fullSyncQuery_unscoped entry) w)"
  shows "fullSyncFrom env (scan_ops own) ctx entry target c s w \<noteq> None"
proof -
  obtain err w1 where new: "bulk_new env target w = (err, w1)" by fastforce
  note same = new_law [OF new]
  have "scan_loop env (scan_ops own) ctx entry target (effective_batch s entry) c 0 s w1 \<noteq> None"
    by (rule scan_loop_ends) (use assms same in auto)
  with new show ?thesis by (auto simp: fullSyncFrom_def effective_batch_def Let_def split: option.splits)
qed

lemma fullSyncTableAt_ends:
  assumes "\<And>c. fullSyncCursor own entry startID = Inr c \<Longrightarrow> ok c" "0 < effective_batch s entry"
    and "keyed (tbl (me_tableName entry) (fullSyncQuery_unscoped entry) w)"
  shows "fullSyncTableAt env own ctx entry startID s w \<noteq> None"
proof -
  obtain res w1 where resolve: "resolveAliasState env ctx (me_indexName entry) w = (res, w1)" by fastforce
  obtain now w2 where now: "rt_now env w1 = (now, w2)" by fastforce
  obtain cerr w3 where create:
    "createManagedIndex env ctx entry (newRebuildIndexName entry now) [] w2 = (cerr, w3)" by fastforce
  note same = table.setup_resolve [OF resolve] clock_law [OF now] table.setup_created [OF create]
  have ends: "fullSyncFrom env (scan_ops own) ctx entry target c s w3 \<noteq> None"
    if "fullSyncCursor own entry startID = Inr c" for c target
    by (rule fullSyncFrom_ends) (use assms that same in auto)
  show ?thesis
    using resolve now create ends
    by (auto simp: fullSyncTableAt_def Let_def simp del: not_None_eq
        split: sum.splits prod.splits option.splits)
qed

lemma fullSyncTableAt_contents:
  assumes run: "fullSyncTableAt env own ctx entry startID s w = Some ((n, None), s', w')"
    and plain: "plain_mapping env entry"
    and start: "fullSyncCursor own entry startID = Inr c" "ok c" "0 < effective_batch s entry"
    and rows: "rs = tbl (me_tableName entry) (fullSyncQuery_unscoped entry) w" "keyed rs"
  shows "\<exists>i. targets (view w') (me_indexName entry) = {i} \<and> i \<notin> cl_indices (view w)
    \<and> mset (index_docs i (stored w')) + mset (index_docs i (refused w')) = mset (map (doc_of i) (remaining c rs))
    \<and> n = int (length (remaining c rs))"
proof -
  obtain st i w3 w4 w5 where steps: "prepared env ctx entry w st i w3"
    "fullSyncFrom env (scan_ops own) ctx entry i c s w3 = Some ((n, None), s', w4)"
    "switchAliasToIndex env ctx st i w4 = (None, w5)" "deleteReplacedIndices env ctx st w5 = (None, w')"
    by (rule fullSyncTableAt_steps [OF run]) (use start(1) in simp)
  have "handed w4 = handed w @ map (doc_of i) (remaining c rs) \<and> n = int (length (remaining c rs))"
    using fullSyncFrom_copies [OF steps(2) start(2,3)] rows prepared_handed [OF steps(1)]
      table.setup_prepared [OF steps(1)] by simp
  with rebuilt [OF plain steps] show ?thesis by blast
qed

end

end
