(* ===== verification/FullSyncRuns.thy ===== *)
theory FullSyncRuns imports Rebuild begin

text \<open>
  A reference world for full synchronisation, the interpretation of its contracts on the model's
  definitions, the properties of a full sync, and runs on concrete tables.
\<close>

section \<open>A reference world\<close>

text \<open>
  A world with tables, documents, indices and aliases in lists.  Entries of an index that is gone
  are kept in the lists but not visible.  A bulk write to a missing index and an alias request on
  one fail.  \<open>fw_docs\<close> are the documents that were handed to an indexer; those with an id in
  \<open>fw_refuses\<close> are rejected (say, a value that does not fit the mapping), the others are stored.
\<close>

record fs_world = relay_world +
  fw_rows :: "(string \<times> go_any list) list"
  fw_docs :: "(string \<times> string \<times> string) list"
  fw_indices :: "string list"
  fw_aliases :: "(string \<times> string) list"
  fw_switch_fails :: bool
  fw_refuses :: "string list"

definition fw_view :: "'x fs_world_scheme \<Rightarrow> cluster" where
  "fw_view w =
     \<lparr>cl_indices = set (fw_indices w),
      cl_aliases = {(i, a) \<in> set (fw_aliases w). i \<in> set (fw_indices w)}\<rparr>"

definition fw_live :: "'x fs_world_scheme \<Rightarrow> (string \<times> string \<times> string) list" where
  "fw_live w = filter (\<lambda>d. fst d \<in> set (fw_indices w)) (fw_docs w)"

definition fw_stored :: "'x fs_world_scheme \<Rightarrow> (string \<times> string \<times> string) list" where
  "fw_stored w = filter (\<lambda>d. fst (snd d) \<notin> set (fw_refuses w)) (fw_live w)"

definition fw_refused :: "'x fs_world_scheme \<Rightarrow> (string \<times> string \<times> string) list" where
  "fw_refused w = filter (\<lambda>d. fst (snd d) \<in> set (fw_refuses w)) (fw_live w)"

definition fw_table :: "string \<Rightarrow> bool \<Rightarrow> 'x fs_world_scheme \<Rightarrow> go_any list" where
  "fw_table t unscoped w = (case map_of (fw_rows w) t of Some rs \<Rightarrow> rs | None \<Rightarrow> [])"

definition status_ok :: status_response where
  "status_ok = \<lparr>sr_StatusCode = 200, sr_IsError = False, sr_String = ''[200 OK]''\<rparr>"

definition status_error :: "int \<Rightarrow> status_response" where
  "status_error n = \<lparr>sr_StatusCode = n, sr_IsError = True, sr_String = ''['' @ show_int n @ '']''\<rparr>"

fun mem_alias_action :: "alias_action \<Rightarrow> 'x fs_world_scheme \<Rightarrow> 'x fs_world_scheme" where
  "mem_alias_action (RemoveIndex i) w = w\<lparr>fw_indices := removeAll i (fw_indices w)\<rparr>"
| "mem_alias_action (RemoveAlias i a) w = w\<lparr>fw_aliases := removeAll (i, a) (fw_aliases w)\<rparr>"
| "mem_alias_action (AddAlias i a wr) w = w\<lparr>fw_aliases := (i, a) # removeAll (i, a) (fw_aliases w)\<rparr>"

definition mem_get_alias ::
  "go_ctx \<Rightarrow> string \<Rightarrow> 'x fs_world_scheme \<Rightarrow> (go_error + alias_response) \<times> 'x fs_world_scheme" where
  "mem_get_alias ctx alias w =
     (let holders = filter (\<lambda>i. (i, alias) \<in> set (fw_aliases w)) (fw_indices w)
      in (Inr \<lparr>ar_StatusCode = if holders = [] then 404 else 200,
               ar_payload = Inr (map (\<lambda>i. (i, [alias])) holders), ar_String = []\<rparr>, w))"

definition mem_create_index ::
  "go_ctx \<Rightarrow> string \<Rightarrow> go_json option \<Rightarrow> 'x fs_world_scheme
     \<Rightarrow> (go_error + status_response) \<times> 'x fs_world_scheme" where
  "mem_create_index ctx i body w =
     (if i \<in> set (fw_indices w) then (Inr (status_error 400), w)
      else (Inr status_ok,
        w\<lparr>fw_indices := fw_indices w @ [i],
          fw_aliases := map (Pair i) (body_aliases body) @ filter (\<lambda>(x, _). x \<noteq> i) (fw_aliases w),
          fw_docs := filter (\<lambda>(x, _). x \<noteq> i) (fw_docs w)\<rparr>))"

definition mem_update_aliases ::
  "go_ctx \<Rightarrow> alias_action list \<Rightarrow> 'x fs_world_scheme
     \<Rightarrow> (go_error + status_response) \<times> 'x fs_world_scheme" where
  "mem_update_aliases ctx acts w =
     (if fw_switch_fails w \<or> \<not> list_all (\<lambda>act. case act of
           AddAlias i a wr \<Rightarrow> i \<in> set (fw_indices w) \<and> RemoveIndex i \<notin> set acts | _ \<Rightarrow> True) acts
      then (Inr (status_error 500), w)
      else (Inr status_ok, fold mem_alias_action acts w))"

definition mem_delete_indices ::
  "go_ctx \<Rightarrow> string list \<Rightarrow> 'x fs_world_scheme
     \<Rightarrow> (go_error + status_response) \<times> 'x fs_world_scheme" where
  "mem_delete_indices ctx is w =
     (if set is \<subseteq> set (fw_indices w)
      then (Inr status_ok, fold (\<lambda>i. mem_alias_action (RemoveIndex i)) is w)
      else (Inr (status_error 404), w))"

definition mem_bulk_add ::
  "go_ctx \<Rightarrow> string \<Rightarrow> string \<Rightarrow> string \<Rightarrow> 'x fs_world_scheme
     \<Rightarrow> (go_error option \<times> go_error list) \<times> 'x fs_world_scheme" where
  "mem_bulk_add ctx i d b w =
     (if i \<in> set (fw_indices w) then ((None, []), w\<lparr>fw_docs := fw_docs w @ [(i, d, b)]\<rparr>)
      else ((Some (Err ''index_not_found_exception''), []), w))"

definition mem_fs :: "'m \<Rightarrow> ('x fs_world_scheme, 'm) fs_env_scheme" where
  "mem_fs m = mem_relay (ops_env_ext
     (\<lambda>ctx t u w. (Inr (int (length (fw_table t u w))), w))
     (\<lambda>ctx alias w. (Inr \<lparr>cr_IsError = False, cr_Status = ''200 OK'',
        cr_payload = Inr (int (length (fw_stored w)))\<rparr>, w))
     (index_env_ext mem_get_alias
        (\<lambda>ctx i w. (Inr (if i \<in> set (fw_indices w) then status_ok else status_error 404), w))
        mem_create_index mem_update_aliases mem_delete_indices (\<lambda>m. Inr []) concat
        (fs_env_ext
           (\<lambda>ctx t u sc w. (Inr (scan_select (\<lambda>_ _ _ rs. rs) sc (fw_table t u w)), w))
           (\<lambda>i w. (None, w)) mem_bulk_add (\<lambda>ctx i w. ((None, []), w))
           (\<lambda>r. case column_of ''id'' r of GoInt n \<Rightarrow> Some (show_int n) | _ \<Rightarrow> None)
           (\<lambda>r. Inr ''{}'') m)))"

lemma mem_fs_fields [simp]:
  "db_scan (mem_fs m) ctx t u sc w = (Inr (scan_select (\<lambda>_ _ _ rs. rs) sc (fw_table t u w)), w)"
  "bulk_add (mem_fs m) = mem_bulk_add"
  "bulk_close (mem_fs m) ctx i w = ((None, []), w)"
  "bulk_new (mem_fs m) i w = (None, w)"
  "rt_now (mem_fs m) w = (mw_now w, w)"
  "es_get_alias (mem_fs m) = mem_get_alias"
  "es_exists (mem_fs m) ctx i w =
     (Inr (if i \<in> set (fw_indices w) then status_ok else status_error 404), w)"
  "es_create (mem_fs m) = mem_create_index"
  "es_update_aliases (mem_fs m) = mem_update_aliases"
  "es_delete_indices (mem_fs m) = mem_delete_indices"
  "json_object (mem_fs m) = (\<lambda>m. Inr [])"
  by (simp_all add: mem_fs_def mem_relay_def mem_db_def)

lemma mem_accepted [simp]: "accepted (Inr status_ok)" "\<not> accepted (Inr (status_error n))"
  by (simp_all add: accepted_def status_ok_def status_error_def)

lemma mem_bulk_add_laws:
  "mem_bulk_add ctx i d b w = ((err, errs), w') \<Longrightarrow>
     fw_table t u w' = fw_table t u w \<and> fw_view w' = fw_view w
     \<and> (err = None \<longrightarrow> fw_live w' = fw_live w @ [(i, d, b)])"
  by (auto simp: mem_bulk_add_def fw_table_def fw_view_def fw_live_def split: if_splits)

lemma mem_remove_view: "fw_view (mem_alias_action (RemoveIndex i) w) = delete_index i (fw_view w)"
  by (auto simp: fw_view_def delete_index_def)

lemma mem_action_view:
  assumes "\<And>i a wr. act = AddAlias i a wr \<Longrightarrow> i \<in> set (fw_indices w)"
  shows "fw_view (mem_alias_action act w) = apply_action act (fw_view w)"
  using assms by (cases act) (auto simp: fw_view_def apply_action.simps delete_index_def)

lemma mem_switch_view:
  assumes "\<forall>i a wr. AddAlias i a wr \<in> set acts \<longrightarrow> i \<in> set (fw_indices w)"
    and "\<forall>i a wr. AddAlias i a wr \<in> set acts \<longrightarrow> RemoveIndex i \<notin> set acts"
  shows "fw_view (fold mem_alias_action acts w) = fold apply_action acts (fw_view w)"
  using assms
proof (induction acts arbitrary: w)
  case Nil
  then show ?case by simp
next
  case (Cons act acts)
  have "fw_view (mem_alias_action act w) = apply_action act (fw_view w)"
    using Cons.prems(1) by (intro mem_action_view) auto
  moreover have "\<forall>i a wr. AddAlias i a wr \<in> set acts \<longrightarrow> i \<in> set (fw_indices (mem_alias_action act w))"
    using Cons.prems by (cases act) auto
  then have "fw_view (fold mem_alias_action acts (mem_alias_action act w))
      = fold apply_action acts (fw_view (mem_alias_action act w))"
    by (rule Cons.IH) (use Cons.prems(2) in auto)
  ultimately show ?case by simp
qed

lemma mem_delete_view:
  "fw_view (fold (\<lambda>i. mem_alias_action (RemoveIndex i)) is w) = fold delete_index is (fw_view w)"
  by (induction "is" arbitrary: w) (simp_all add: mem_remove_view del: mem_alias_action.simps)

lemma mem_action_live:
  "RemoveIndex i \<noteq> act \<Longrightarrow> index_docs i (fw_live (mem_alias_action act w)) = index_docs i (fw_live w)"
  by (cases act) (auto simp: fw_live_def index_docs_def intro!: filter_cong)

text \<open>No service changes what is refused; what an index stores then follows what was handed over.\<close>

lemma mem_stored:
  "index_docs i (fw_stored w) = filter (\<lambda>d. fst (snd d) \<notin> set (fw_refuses w)) (index_docs i (fw_live w))"
  "index_docs i (fw_refused w) = filter (\<lambda>d. fst (snd d) \<in> set (fw_refuses w)) (index_docs i (fw_live w))"
  by (simp_all add: fw_stored_def fw_refused_def index_docs_def conj_commute)

lemma mset_filter_split: "mset (filter (\<lambda>x. \<not> P x) xs) + mset (filter P xs) = mset xs"
  by (induction xs) auto

lemma mem_flush:
  "mset (index_docs i (fw_stored w)) + mset (index_docs i (fw_refused w)) = mset (index_docs i (fw_live w))"
  unfolding mem_stored by (rule mset_filter_split)

lemma mem_refuses [simp]:
  "fw_refuses (mem_alias_action act w) = fw_refuses w"
  "fw_refuses (fold mem_alias_action acts w) = fw_refuses w"
proof -
  show one: "fw_refuses (mem_alias_action act w) = fw_refuses w" for act and w :: "'x fs_world_scheme"
    by (cases act) simp_all
  show "fw_refuses (fold mem_alias_action acts w) = fw_refuses w"
    by (induction acts arbitrary: w) (simp_all add: one)
qed

lemma mem_fold_delete: "fold (\<lambda>i. mem_alias_action (RemoveIndex i)) is w = fold mem_alias_action (map RemoveIndex is) w"
  by (induction "is" arbitrary: w) simp_all

lemma mem_actions_live:
  "RemoveIndex i \<notin> set acts \<Longrightarrow>
     index_docs i (fw_live (fold mem_alias_action acts w)) = index_docs i (fw_live w)"
  by (induction acts arbitrary: w) (simp_all add: mem_action_live)

interpretation mem_scan: table_scan "scan_ops own" "cursor_at k" "row_has_key k" "row_key k" cursor_pos
  "scan_select (\<lambda>_ _ _ rs. rs)" "mem_fs m" fw_live fw_table
  by (intro_locales, unfold_locales) (auto dest: mem_bulk_add_laws)

lemma mem_get_alias_laws:
  assumes "mem_get_alias ctx a w = (gres, w')"
  shows "w' = w
     \<and> (\<forall>r p. gres = Inr r \<longrightarrow> ar_StatusCode r = 200 \<longrightarrow> ar_payload r = Inr p \<longrightarrow>
          fst ` {e \<in> set p. a \<in> set (snd e)} = targets (fw_view w) a)
     \<and> (\<forall>r. gres = Inr r \<longrightarrow> ar_StatusCode r = 404 \<longrightarrow> targets (fw_view w) a = {})"
proof -
  define hs where "hs = filter (\<lambda>i. (i, a) \<in> set (fw_aliases w)) (fw_indices w)"
  have h: "set hs = targets (fw_view w) a" by (auto simp: hs_def targets_def fw_view_def)
  have "mem_get_alias ctx a w = (Inr \<lparr>ar_StatusCode = if hs = [] then 404 else 200,
      ar_payload = Inr (map (\<lambda>i. (i, [a])) hs), ar_String = []\<rparr>, w)"
    by (simp add: mem_get_alias_def hs_def Let_def)
  moreover have "fst ` {e \<in> set (map (\<lambda>i. (i, [a])) hs). a \<in> set (snd e)} = set hs" by force
  ultimately show ?thesis
    unfolding h [symmetric] using assms by (auto simp del: set_map split: if_splits)
qed

lemma mem_create_laws:
  assumes "mem_create_index ctx i body w = (res, w')"
  shows "fw_live w' = fw_live w \<and> (\<forall>t u. fw_table t u w' = fw_table t u w)
    \<and> (fw_view w' = fw_view w \<or> i \<notin> cl_indices (fw_view w) \<and> fw_view w' = create_index i body (fw_view w))
    \<and> (accepted res \<longrightarrow> i \<notin> cl_indices (fw_view w) \<and> fw_view w' = create_index i body (fw_view w))"
proof (cases "i \<in> set (fw_indices w)")
  case True
  with assms show ?thesis by (simp add: mem_create_index_def) (auto simp: fw_view_def)
next
  case False
  then have "filter (\<lambda>d. fst d = i \<or> fst d \<in> set (fw_indices w)) (filter (\<lambda>(x, _). x \<noteq> i) (fw_docs w))
      = filter (\<lambda>d. fst d \<in> set (fw_indices w)) (fw_docs w)"
    by (auto intro!: filter_cong)
  with False assms show ?thesis
    by (auto simp: mem_create_index_def fw_view_def fw_live_def fw_table_def create_index_def)
qed

lemma mem_update_laws:
  assumes "mem_update_aliases ctx acts w = (res, w')"
  shows "(fw_view w' = fw_view w \<or> fw_view w' = fold apply_action acts (fw_view w))
    \<and> (accepted res \<longrightarrow> fw_view w' = fold apply_action acts (fw_view w))
    \<and> (\<forall>i. RemoveIndex i \<notin> set acts \<longrightarrow> index_docs i (fw_live w') = index_docs i (fw_live w))
    \<and> fw_refuses w' = fw_refuses w"
proof -
  have "fw_view (fold mem_alias_action acts w) = fold apply_action acts (fw_view w)"
    if "list_all (\<lambda>act. case act of AddAlias i a wr \<Rightarrow>
          i \<in> set (fw_indices w) \<and> RemoveIndex i \<notin> set acts | _ \<Rightarrow> True) acts"
    by (rule mem_switch_view) (use that in \<open>auto simp: list_all_iff\<close>)
  with assms show ?thesis by (auto simp: mem_update_aliases_def mem_actions_live split: if_splits)
qed

lemma mem_delete_laws:
  assumes "mem_delete_indices ctx is w = (res, w')"
  shows "(fw_view w' = fw_view w \<or> fw_view w' = fold delete_index is (fw_view w))
    \<and> (accepted res \<longrightarrow> fw_view w' = fold delete_index is (fw_view w))
    \<and> (\<forall>i. i \<notin> set is \<longrightarrow> index_docs i (fw_live w') = index_docs i (fw_live w))
    \<and> fw_refuses w' = fw_refuses w"
proof -
  note mem_fold_delete [of "is" w]
  moreover have "index_docs i (fw_live (fold mem_alias_action (map RemoveIndex is) w))
      = index_docs i (fw_live w)" if "i \<notin> set is" for i
    by (rule mem_actions_live) (use that in auto)
  ultimately have "\<forall>i. i \<notin> set is \<longrightarrow>
      index_docs i (fw_live (fold (\<lambda>i. mem_alias_action (RemoveIndex i)) is w)) = index_docs i (fw_live w)"
    by simp
  moreover have "fw_refuses (fold (\<lambda>i. mem_alias_action (RemoveIndex i)) is w) = fw_refuses w"
    by (simp only: mem_fold_delete mem_refuses)
  ultimately show ?thesis using assms
    by (auto simp: mem_delete_indices_def mem_delete_view simp del: mem_alias_action.simps split: if_splits)
qed

interpretation mem_cluster: alias_cluster "mem_fs m" fw_view
proof (unfold_locales, goal_cases)
  case 2
  then show ?case by (auto dest!: mem_get_alias_laws)
next
  case 4
  then show ?case by (auto dest!: mem_create_laws)
next
  case 5
  then show ?case by (auto dest!: mem_update_laws)
next
  case 6
  then show ?case by (auto dest!: mem_delete_laws)
next
  case 10
  then show ?case using mem_bulk_add_laws by (metis mem_fs_fields(2) prod.collapse)
qed (auto simp: fw_view_def)

interpretation mem_store: doc_store "mem_fs m" fw_view own "cursor_at k" "row_has_key k" "row_key k"
  cursor_pos "scan_select (\<lambda>_ _ _ rs. rs)" fw_live fw_stored fw_refused
proof (intro_locales, unfold_locales, goal_cases)
  case 1
  then show ?case by (auto simp: fw_view_def fw_live_def index_docs_def filter_empty_conv)
next
  case 2
  then show ?case by (auto dest!: mem_get_alias_laws)
next
  case 4
  then show ?case by (auto dest!: mem_create_laws)
next
  case (5 ctx acts w res w' i)
  then show ?case using mem_update_laws [of ctx acts w res w'] by (auto simp: mem_stored)
next
  case (6 ctx "is" w res w' i)
  then show ?case using mem_delete_laws [of ctx "is" w res w'] by (auto simp: mem_stored)
qed (auto simp: mem_flush)

interpretation mem_rebuild: rebuild "mem_fs m" fw_view own "cursor_at k" "row_has_key k" "row_key k"
  cursor_pos "scan_select (\<lambda>_ _ _ rs. rs)" fw_table fw_live fw_stored fw_refused
  by (intro_locales, unfold_locales) (auto dest!: mem_get_alias_laws mem_create_laws)

section \<open>Sample runs\<close>

definition article_key :: fullSyncKey where
  "article_key = \<lparr>fk_columnName = ''id'',
     fk_field = \<lparr>fd_Name = ''ID'', fd_DBName = ''id'', fd_Kind = Kind_Int 64, fd_TypeText = ''int64''\<rparr>,
     fk_unsigned = False\<rparr>"

definition article_entry :: "int \<Rightarrow> modelEntry" where
  "article_entry batch =
     \<lparr>me_modelType = ''Article'', me_schema = None, me_tableName = ''t'', me_indexName = ''a'',
      me_mapping = None, me_optionErr = None, me_batchSize = batch, me_autoSync = True,
      me_softDeleteMode = SoftDeleteModeUpdate, me_fullDocUpdate = False, me_hasSoftDelete = False,
      me_fullSyncScan = Some (IntegerPrimaryKeyScan (Some article_key))\<rparr>"

definition article_row :: "int \<Rightarrow> go_any" where
  "article_row n = GoModel ''Article'' [(''id'', GoInt n)]"

definition no_own_scans :: "unit own_scans" where
  "no_own_scans =
     \<lparr>own_Prepare = (\<lambda>n info startID. Inl (Err ''no such strategy'')),
      own_ops = \<lparr>cur_Scope = (\<lambda>c n. OwnScope [] GoNil n), cur_Advance = (\<lambda>c r. Inr c),
        cur_Checkpoint = (\<lambda>c. GoNil)\<rparr>,
      own_T = (\<lambda>v. ''?'')\<rparr>"

text \<open>The table \<open>t\<close> with these keys; the alias \<open>a\<close> points to an old index with one document.\<close>

definition article_world :: "int list \<Rightarrow> bool \<Rightarrow> fs_world" where
  "article_world keys switch_fails =
     relay_world.extend (relay_world [] [] 0)
       (fs_world.fields [(''t'', map article_row keys)] [(''old'', ''1'', ''{}'')] [''old'']
          [(''old'', ''a'')] switch_fails [])"

definition run_articles ::
  "Syncer \<Rightarrow> int \<Rightarrow> int \<Rightarrow> fs_world \<Rightarrow> ((int \<times> go_error option) \<times> Syncer \<times> fs_world) option" where
  "run_articles s batch startID w =
     fullSyncTableAt (mem_fs () :: (fs_world, unit) fs_env_scheme) no_own_scans Background
       (article_entry batch) startID s w"

lemma article_plain: "plain_mapping (mem_fs m) (article_entry batch)"
  by (simp add: plain_mapping_def article_entry_def buildIndexCreateBody_def body_aliases_def)

lemma run_all:
  "map_option (\<lambda>((n, err), s', w'). (n, err, fw_aliases w', map (fst \<circ> snd) (fw_live w')))
     (run_articles relay_syncer 2 0 (article_world [3, 1, 2] False))
   = Some (3, None, [(''a__fullsync__0'', ''a'')], [''1'', ''2'', ''3''])"
  by code_simp

text \<open>
  \<open>syncFullSyncBatch\<close> gives its items no \<open>OnFailure\<close> and the indexer's statistics are not read: a
  document that Elasticsearch rejects is counted as synchronised, the alias moves to the index without it
  and the old index, which has it, is deleted.  Nothing is recorded.
\<close>

lemma rejected_document_unnoticed:
  "map_option (\<lambda>((n, err), s', w'). (n, err, fw_aliases w', fw_indices w',
       map (fst \<circ> snd) (fw_stored w'), fst (RecentFailures 10 s')))
     (run_articles relay_syncer 2 0 (article_world [1, 2, 3] False\<lparr>fw_refuses := [''1'']\<rparr>))
   = Some (3, None, [(''a__fullsync__0'', ''a'')], [''a__fullsync__0''], [''2'', ''3''], [])"
  by code_simp

text \<open>A switch that the cluster refuses leaves the new index behind.\<close>

lemma failed_switch_leaves_index:
  "map_option (\<lambda>((n, err), s', w'). (n, err \<noteq> None, fw_aliases w', fw_indices w'))
     (run_articles relay_syncer 2 0 (article_world [1, 2] True))
   = Some (2, True, [(''old'', ''a'')], [''old'', ''a__fullsync__0''])"
  by code_simp

text \<open>A full sync from a checkpoint puts an index in place that has only the rows behind it.\<close>

lemma checkpoint_drops_rows:
  "map_option (\<lambda>((n, err), s', w'). (n, err, fw_aliases w', map (fst \<circ> snd) (fw_live w')))
     (run_articles relay_syncer 2 2 (article_world [1, 2, 3] False))
   = Some (1, None, [(''a__fullsync__0'', ''a'')], [''3''])"
  by code_simp

text \<open>
  With a batch size of zero in the model and in the configuration, the first query has \<open>LIMIT 0\<close>:
  the sync succeeds, and the alias is on an empty index.
\<close>

definition zero_batch_syncer :: Syncer where
  "zero_batch_syncer = set_sync (\<lambda>c. c\<lparr>sc_DefaultBatchSize := 0\<rparr>) relay_syncer"

lemma zero_batch_empties_index:
  "map_option (\<lambda>((n, err), s', w'). (n, err, fw_aliases w', fw_live w'))
     (run_articles zero_batch_syncer 0 0 (article_world [1, 2, 3] False))
   = Some (0, None, [(''a__fullsync__0'', ''a'')], [])"
  by code_simp

section \<open>Properties\<close>

text \<open>
  C6. The alias is safe during a rebuild, whatever the scan strategy and whichever step fails, a
  request whose answer is lost included: afterwards the alias points to the same indices as before,
  all still there, or to exactly one new index.  A full sync that returns no error has moved the
  alias to one new index and removed the indices it pointed to.
\<close>

theorem full_sync_alias_safe:
  assumes "alias_cluster env view" "plain_mapping env entry"
    and "fullSyncTableAt env own ctx entry startID s w = Some ((n, err), s', w')"
  shows "alias_safe (me_indexName entry) (view w) (view w')
    \<and> (err = None \<longrightarrow> (\<exists>i. alias_moved (me_indexName entry) i (view w) (view w')))"
  by (rule alias_cluster.fullSyncTableAt_safe [OF assms(1,3,2)])

theorem full_sync_alias_safe_witness:
  "\<exists>n err s' w'. run_articles relay_syncer 2 0 (article_world [1, 2] True) = Some ((n, Some err), s', w')
     \<and> alias_safe ''a'' (fw_view (article_world [1, 2] True)) (fw_view w')"
proof -
  let ?run = "run_articles relay_syncer 2 0 (article_world [1, 2] True)"
  have "map_option (\<lambda>((n, err), s', w'). err \<noteq> None) ?run = Some True" by code_simp
  then obtain n err s' w' where run: "?run = Some ((n, Some err), s', w')" by (cases ?run) auto
  from full_sync_alias_safe [OF mem_cluster.alias_cluster_axioms article_plain
      run [unfolded run_articles_def]] run
  show ?thesis by (auto simp: article_entry_def)
qed

text \<open>
  C5. A full sync of a model with an integer key ends.  One that returns no error leaves the alias on
  one new index; each row whose key is greater than the start was handed to it once, and is in it
  unless Elasticsearch refused the document.  The number that is returned is that of the rows, the
  refused ones included.
\<close>

theorem full_sync_copies_table:
  assumes "rebuild env view own (cursor_at k) (row_has_key k) (row_key k) cursor_pos
      (scan_select own_select) tbl handed stored refused"
    and "me_fullSyncScan entry = Some (IntegerPrimaryKeyScan (Some k))"
    and "fk_unsigned k \<longrightarrow> 0 \<le> startID" "0 < effective_batch s entry" "plain_mapping env entry"
    and "rs = tbl (me_tableName entry) (fullSyncQuery_unscoped entry) w"
    and "distinct rs" "inj_on (row_key k) (set rs)" "\<forall>r \<in> set rs. row_has_key k r"
  shows "\<exists>n err s' w'. fullSyncTableAt env own ctx entry startID s w = Some ((n, err), s', w')
    \<and> (err = None \<longrightarrow>
        (let found = filter (\<lambda>r. startID < row_key k r) rs
         in n = int (length found)
          \<and> (\<exists>i. targets (view w') (me_indexName entry) = {i} \<and> i \<notin> cl_indices (view w)
               \<and> mset (index_docs i (stored w')) + mset (index_docs i (refused w'))
                   = mset (map (\<lambda>r. (i, the (model_id env r), projr (std_marshal env r))) found))))"
proof -
  from assms(2,3) obtain c where c: "fullSyncCursor own entry startID = Inr c" "cursor_at k c"
    "cursor_pos c = startID" using fullSyncCursor_integer by blast
  note keyed = integer_scan.keyed_def [of k rs, THEN iffD2]
  have rows: "integer_scan.keyed k rs" by (rule keyed) (use assms(7-9) in simp)
  have "fullSyncTableAt env own ctx entry startID s w \<noteq> None"
    by (rule rebuild.fullSyncTableAt_ends [OF assms(1)]) (use c assms(4,6) rows in auto)
  then obtain n err s' w' where run: "fullSyncTableAt env own ctx entry startID s w = Some ((n, err), s', w')"
    by (metis not_None_eq prod.collapse)
  show ?thesis
  proof (cases err)
    case None
    obtain i where i: "targets (view w') (me_indexName entry) = {i}" "i \<notin> cl_indices (view w)"
      "mset (index_docs i (stored w')) + mset (index_docs i (refused w'))
        = mset (map (hand_over.doc_of env i) (integer_scan.remaining k c rs))"
      "n = int (length (integer_scan.remaining k c rs))"
      using rebuild.fullSyncTableAt_contents [OF assms(1) run [unfolded None] assms(5) c(1,2) assms(4,6) rows]
      by blast
    have rem: "integer_scan.remaining k c rs = sort_key (row_key k) (filter (\<lambda>r. startID < row_key k r) rs)"
      by (simp add: integer_scan.remaining_def c(3))
    have doc: "hand_over.doc_of env i = (\<lambda>r. (i, the (model_id env r), projr (std_marshal env r)))"
      using hand_over.doc_of_def [OF table_scan.axioms(1) [OF rebuild.axioms(2) [OF assms(1)]]] by (intro ext)
    from run i show ?thesis unfolding rem doc by (auto simp: Let_def)
  qed (use run in auto)
qed

theorem full_sync_copies_table_witness:
  "\<exists>s' w' i. run_articles relay_syncer 2 1 (article_world [3, 1, 2] False\<lparr>fw_refuses := [''2'']\<rparr>)
       = Some ((2, None), s', w')
     \<and> targets (fw_view w') ''a'' = {i}
     \<and> mset (index_docs i (fw_stored w')) + mset (index_docs i (fw_refused w'))
         = {#(i, ''3'', ''{}''), (i, ''2'', ''{}'')#}"
proof -
  let ?w = "article_world [3, 1, 2] False\<lparr>fw_refuses := [''2'']\<rparr>" and ?e = "article_entry 2"
  let ?rs = "map article_row [3, 1, 2]"
  have e: "me_fullSyncScan ?e = Some (IntegerPrimaryKeyScan (Some article_key))"
    "effective_batch relay_syncer ?e = 2" "me_tableName ?e = ''t''" "me_indexName ?e = ''a''"
    by (simp_all add: article_entry_def effective_batch_def)
  have rows: "fw_table ''t'' u ?w = ?rs" for u
    by (simp add: fw_table_def article_world_def fs_world.defs relay_world.defs)
  have key: "row_key article_key (article_row n) = n" "row_has_key article_key (article_row n)" for n
    by (simp_all add: row_key_def row_has_key_def article_row_def article_key_def column_of_def
        any_int_def key_value_def)
  have found: "filter (\<lambda>r. 1 < row_key article_key r) ?rs = map article_row [3, 2]"
    by (simp add: key)
  have doc: "model_id (mem_fs m) (article_row 2) = Some ''2''" "model_id (mem_fs m) (article_row 3) = Some ''3''"
    "std_marshal (mem_fs m) r = Inr ''{}''" for m r
    by (simp_all add: mem_fs_def mem_relay_def mem_db_def article_row_def column_of_def show_int_def)
      (code_simp+)
  have ok: "distinct ?rs" "inj_on (row_key article_key) (set ?rs)" "\<forall>r \<in> set ?rs. row_has_key article_key r"
    by (simp add: article_row_def) (simp_all add: key inj_on_def)
  have ended: "map_option (\<lambda>((n, err), s', w'). err) (run_articles relay_syncer 2 1 ?w) = Some None"
    by code_simp
  from full_sync_copies_table [where own = no_own_scans and startID = 1 and s = relay_syncer and w = ?w
      and rs = ?rs and ctx = Background and env = "mem_fs ()", OF mem_rebuild.rebuild_axioms e(1) _ _ article_plain
      _ ok] obtain n err s' w' where run: "run_articles relay_syncer 2 1 ?w = Some ((n, err), s', w')"
    and "err = None \<Longrightarrow> n = 2 \<and> (\<exists>i. targets (fw_view w') ''a'' = {i}
       \<and> mset (index_docs i (fw_stored w')) + mset (index_docs i (fw_refused w'))
         = {#(i, ''3'', ''{}''), (i, ''2'', ''{}'')#})"
    unfolding run_articles_def e rows found by (auto simp: Let_def doc article_key_def)
  moreover have "err = None" using ended run by simp
  ultimately show ?thesis by auto
qed

text \<open>What is reported for a call that ended like this: its results, or its panic as an error.\<close>

definition report :: "modelEntry \<Rightarrow> (int \<times> go_error option) call_outcome \<Rightarrow> FullSyncResult" where
  "report e out =
     (case out of
        Returned (n, err) \<Rightarrow>
          \<lparr>fsr_Table = me_tableName e, fsr_IndexName = me_indexName e, fsr_TotalSynced = n, fsr_Err = err\<rparr>
      | Panicked v \<Rightarrow>
          \<lparr>fsr_Table = me_tableName e, fsr_IndexName = me_indexName e, fsr_TotalSynced = 0,
           fsr_Err = Some (Err (''essyncer: full sync '' @ me_tableName e @ '' panicked: '' @ v))\<rparr>)"

lemma fullSyncTableGuarded_reports:
  "fst (fullSyncTableGuarded env e out s w) = report e out"
  by (simp add: fullSyncTableGuarded_def report_def Let_def split: call_outcome.split prod.split)

lemma pool_run_reports:
  assumes "\<And>w. rt_ctx_err env ctx w = None"
    and "\<And>e s w. e \<in> set queue \<Longrightarrow> \<exists>s' w'. body e s w = Some (ends e, s', w')"
    and "set ks \<subseteq> set alive" "length queue \<le> length ks"
  shows "\<exists>s' w'. pool_run env ctx body alive ks queue results s w
    = Some (results @ map (\<lambda>e. report e (ends e)) queue, s', w')"
  using assms(2-4)
proof (induction ks arbitrary: queue results s w)
  case Nil
  then show ?case by simp
next
  case (Cons k ks)
  show ?case
  proof (cases queue)
    case Nil
    then show ?thesis by simp
  next
    case queue: (Cons e es)
    with Cons.prems(1) obtain s1 w1 where body: "body e s w = Some (ends e, s1, w1)" by fastforce
    obtain r s2 w2 where guarded: "fullSyncTableGuarded env e (ends e) s1 w1 = (r, s2, w2)"
      by (metis prod.collapse)
    then have r: "r = report e (ends e)" by (metis fullSyncTableGuarded_reports fst_conv)
    have "\<exists>s' w'. pool_run env ctx body alive ks es (results @ [r]) s2 w2
        = Some ((results @ [r]) @ map (\<lambda>e. report e (ends e)) es, s', w')"
      by (rule Cons.IH) (use Cons.prems queue in auto)
    with queue body guarded r Cons.prems(2) show ?thesis by (simp add: assms(1))
  qed
qed


definition two_models :: Syncer where
  "two_models =
     relay_syncer\<lparr>sy_registry := [(''t'', article_entry 2), (''u'', (article_entry 2)\<lparr>me_tableName := ''u''\<rparr>)]\<rparr>"


end
