(* ===== verification/LiveScan.thy ===== *)
theory LiveScan imports FullSyncRuns "HOL-Library.Sublist" begin

text \<open>
  The full sync of a table (\<open>fullSyncTableAt\<close>, \<open>fullSyncFrom\<close> of \<open>fullsync.go\<close>) that the application
  writes to meanwhile: the contract of a table with a history (locales \<open>live_scan\<close>, \<open>live_rebuild\<close>), what
  the new index then holds, and a run that shows what it misses.
\<close>

section \<open>A table with a history\<close>

text \<open>
  \<open>history\<close> lists the states that a table has had, the present one last; every call may add some.
  \<open>since\<close> are the states between two moments, that at the first one included.  A query sees one state
  of those during the call.
\<close>

definition since :: "'a list \<Rightarrow> 'a list \<Rightarrow> 'a list" where
  "since h h' = drop (length h - 1) h'"

lemma since_trans:
  assumes "prefix h h1" "prefix h1 h2" "h \<noteq> []"
  shows "set (since h h1) \<subseteq> set (since h h2)" "set (since h1 h2) \<subseteq> set (since h h2)"
proof -
  obtain xs ys where h: "h1 = h @ xs" "h2 = h1 @ ys" using assms by (auto simp: prefix_def)
  show "set (since h h1) \<subseteq> set (since h h2)" using assms(3) by (auto simp: since_def h)
  have "length h - 1 \<le> length h1 - 1" by (simp add: h)
  then show "set (since h1 h2) \<subseteq> set (since h h2)" by (simp add: since_def set_drop_subset_set_drop)
qed

locale live_scan = hand_over cops ok row_ok key pos selects env handed
  for cops :: "'c cursor_ops" and ok row_ok key pos selects
    and env :: "('w, 'm) fs_env_scheme" and handed +
  fixes history :: "string \<Rightarrow> bool \<Rightarrow> 'w \<Rightarrow> go_any list list"
  assumes history_some: "history t u w \<noteq> []"
    and scan_live: "db_scan env ctx t u sc w = (res, w') \<Longrightarrow> prefix (history t' u' w) (history t' u' w')
      \<and> (\<forall>found. res = Inr found \<longrightarrow>
           (\<exists>T \<in> set (since (history t u w) (history t u w')). found = selects sc T))"
    and add_live: "bulk_add env ctx i d b w = (ares, w') \<Longrightarrow> prefix (history t u w) (history t u w')"
    and close_live: "bulk_close env ctx i w = (ares, w') \<Longrightarrow> prefix (history t u w) (history t u w')"
    and new_live: "bulk_new env i w = (err, w') \<Longrightarrow> prefix (history t u w) (history t u w')"
    and clock_live: "rt_now env w = (now, w') \<Longrightarrow> prefix (history t u w) (history t u w')"

sublocale live_scan \<subseteq> live: scan_frame env target
    "\<lambda>w w'. \<forall>t u. prefix (history t u w) (history t u w')" for target
  by (unfold_locales, auto dest: scan_live add_live close_live new_live clock_live, meson prefix_order.trans)

text \<open>
  What a copy of such a table holds: the rows, by key, are versions that the table had during the
  copy, at most one for each key, and every row that stayed as it was throughout is among them.
\<close>

definition live_copy :: "(go_any \<Rightarrow> int) \<Rightarrow> int \<Rightarrow> go_any list list \<Rightarrow> go_any list \<Rightarrow> bool" where
  "live_copy key start states found \<longleftrightarrow>
     sorted_wrt (\<lambda>x y. key x < key y) found
     \<and> (\<forall>r \<in> set found. start < key r \<and> (\<exists>T \<in> set states. r \<in> set T))
     \<and> (\<forall>r. start < key r \<longrightarrow> (\<forall>T \<in> set states. r \<in> set T) \<longrightarrow> r \<in> set found)"

lemma live_copy_mono: "live_copy key start states' found \<Longrightarrow> set states' \<subseteq> set states \<Longrightarrow> live_copy key start states found"
  by (fastforce simp: live_copy_def)

lemma live_copy_append:
  assumes "live_copy key (key (last xs)) states' ys" "xs \<noteq> []" "set states' \<subseteq> set states"
    and "sorted_wrt (\<lambda>x y. key x < key y) xs" "T \<in> set states"
    and "\<forall>x \<in> set xs. start < key x \<and> x \<in> set T"
    and "\<And>r. r \<in> set T \<Longrightarrow> start < key r \<Longrightarrow> r \<notin> set xs \<Longrightarrow> key (last xs) < key r"
  shows "live_copy key start states (xs @ ys)"
proof -
  have last: "last xs \<in> set xs" using assms(2) by simp
  have le: "key x \<le> key (last xs)" if "x \<in> set xs" for x
    using assms(4) that by (induction xs) (auto intro: less_imp_le)
  from assms(1) have ys: "sorted_wrt (\<lambda>x y. key x < key y) ys"
    "\<And>y. y \<in> set ys \<Longrightarrow> key (last xs) < key y \<and> (\<exists>T \<in> set states'. y \<in> set T)"
    "\<And>r. key (last xs) < key r \<Longrightarrow> (\<forall>T \<in> set states'. r \<in> set T) \<Longrightarrow> r \<in> set ys"
    by (auto simp: live_copy_def)
  have "sorted_wrt (\<lambda>x y. key x < key y) (xs @ ys)"
    using assms(4) ys(1,2) le by (fastforce simp: sorted_wrt_append)
  moreover have "start < key r \<and> (\<exists>T \<in> set states. r \<in> set T)" if "r \<in> set (xs @ ys)" for r
    using that assms(3,5,6) ys(2) last by (fastforce dest: order.strict_trans)
  moreover have "r \<in> set (xs @ ys)" if "start < key r" "\<forall>T \<in> set states. r \<in> set T" for r
  proof (cases "r \<in> set xs")
    case False
    with that assms(5,7) have "key (last xs) < key r" by blast
    with ys(3) that(2) assms(3) show ?thesis by auto
  qed simp
  ultimately show ?thesis by (auto simp: live_copy_def)
qed

context live_scan
begin

lemma remaining_taken:
  assumes "keyed T" "take n (remaining c T) \<noteq> []" "r \<in> set T" "pos c < key r" "r \<notin> set (take n (remaining c T))"
  shows "key (last (take n (remaining c T))) < key r"
proof -
  have "r \<in> set (remaining c T)" using assms(3,4) by (simp add: set_remaining)
  then have "r \<in> set (drop n (remaining c T))"
    using assms(5) by (metis Un_iff append_take_drop_id set_append)
  moreover have "sorted_wrt (\<lambda>x y. key x < key y) (take n (remaining c T) @ drop n (remaining c T))"
    using remaining_sorted [OF assms(1)] by simp
  ultimately show ?thesis using assms(2) by (simp only: sorted_wrt_append) (metis last_in_set)
qed

lemma taken_sorted:
  assumes "keyed T"
  shows "sorted_wrt (\<lambda>x y. key x < key y) (take n (remaining c T))"
    and "\<forall>x \<in> set (take n (remaining c T)). pos c < key x \<and> x \<in> set T"
  using remaining_sorted [OF assms] by (auto intro: sorted_wrt_take simp: set_remaining dest!: in_set_takeD)

lemma round_live:
  assumes round: "scan_round env cops ctx entry target n c synced s w = Inr (going, c', synced', s', w')"
    and t: "t = me_tableName entry" "u = fullSyncQuery_unscoped entry"
    and ok: "ok c" "0 < n" "\<forall>T \<in> set (since (history t u w) (history t u w')). keyed T"
  shows "\<exists>T \<in> set (since (history t u w) (history t u w')).
    (let found = take (nat n) (remaining c T)
     in ok c' \<and> handed w' = handed w @ map (doc_of target) found \<and> synced' = synced + int (length found)
      \<and> pos c' = (if found = [] then pos c else key (last found))
      \<and> (if going then found \<noteq> [] else found = remaining c T))"
proof -
  obtain res w1 where scan: "db_scan env ctx (me_tableName entry) (fullSyncQuery_unscoped entry)
      (cur_Scope cops c n) w = (res, w1)" by fastforce
  note law = scan_live [OF scan]
  have "rt_ctx_err env ctx w = None"
    using round by (auto simp: scan_round_def split: option.splits prod.splits)
  with round scan have "prefix (history t u w1) (history t u w')"
    using live.R_batch [of cops ctx entry, THEN spec, THEN spec, of _ _ _ _ _ _ _ _ _ t u]
    by (auto simp: scan_round_def Let_def split: prod.splits sum.splits option.splits if_splits)
  then have sub: "set (since (history t u w) (history t u w1)) \<subseteq> set (since (history t u w) (history t u w'))"
    using since_trans(1) law history_some by metis
  have sel: "\<exists>T \<in> set (since (history t u w) (history t u w')). found = take (nat n) (remaining c T)"
    if "res = Inr found" for found
  proof -
    from law that t obtain T where T: "T \<in> set (since (history t u w) (history t u w1))"
      "found = selects (cur_Scope cops c n) T" by blast
    with sub ok(3) have "keyed T" by blast
    with T sub scope [OF ok(1) _ ok(2), of T] show ?thesis by (auto simp: remaining_def keyed_def)
  qed
  have rows: "\<forall>r \<in> set found. row_ok r" if "res = Inr found" for found
    using sel [OF that] ok(3) set_remaining by (auto simp: keyed_def dest!: in_set_takeD)
  obtain found where found: "res = Inr found" "ok c'"
    "synced' = synced + int (length found)" "handed w' = handed w @ map (doc_of target) found"
    "pos c' = (if found = [] then pos c else key (last found))"
    "going = (found \<noteq> [] \<and> \<not> int (length found) < n)"
    by (rule scan_round_hands [OF round scan ok(1) rows])
  from sel [OF found(1)] obtain T where T: "T \<in> set (since (history t u w) (history t u w'))"
    "found = take (nat n) (remaining c T)" by blast
  have last: "if going then found \<noteq> [] else found = remaining c T"
    using found(6) T(2) ok(2) by (cases "found = []") auto
  show ?thesis
    by (rule bexI [OF _ T(1)], unfold Let_def T(2) [symmetric]) (intro conjI found(2-5) last)
qed

lemma round_prefix:
  "scan_round env cops ctx entry target n c synced s w = Inr (going, c', synced', s', w') \<Longrightarrow>
     prefix (history t u w) (history t u w')"
  using live.R_round [of w cops ctx entry target n c synced s] by (simp add: live.world_of_def)

lemma end_prefix:
  "scan_end env ctx entry target k s w = y \<Longrightarrow> prefix (history t u w) (history t u (snd (snd y)))"
  using live.R_end [of ctx entry target k s w] by (metis prod.collapse)

lemma last_round_live:
  assumes "T \<in> set states" "keyed T" "found = remaining c T"
  shows "live_copy key (pos c) states found"
  using assms remaining_sorted [OF assms(2), of c] by (auto simp: live_copy_def set_remaining)

end

text \<open>The loop, for a scan that ends without an error.\<close>

definition copied_live ::
  "('w \<Rightarrow> (string \<times> string \<times> string) list) \<Rightarrow> (go_any \<Rightarrow> string \<times> string \<times> string) \<Rightarrow> (go_any \<Rightarrow> int) \<Rightarrow> int
     \<Rightarrow> go_any list list \<Rightarrow> 'w \<Rightarrow> int \<Rightarrow> 'w \<Rightarrow> bool" where
  "copied_live handed doc key start states w k w' \<longleftrightarrow>
     (\<exists>found. handed w' = handed w @ map doc found \<and> k = int (length found) \<and> live_copy key start states found)"

lemma scan_loop_live:
  "scan_loop env cops ctx entry target n c synced s w = Some y \<Longrightarrow>
     live_scan cops ok row_ok key pos selects env handed history \<longrightarrow> 0 < n \<longrightarrow> snd (fst y) = None \<longrightarrow>
     t = me_tableName entry \<longrightarrow> u = fullSyncQuery_unscoped entry \<longrightarrow>
     prefix (history t u w) (history t u (snd (snd y)))
     \<and> (ok c \<longrightarrow>
        (\<forall>T \<in> set (since (history t u w) (history t u (snd (snd y)))). scan_cursor.keyed row_ok key T) \<longrightarrow>
        copied_live handed (hand_over.doc_of env target) key (pos c)
          (since (history t u w) (history t u (snd (snd y)))) w (fst (fst y) - synced) (snd (snd y)))"
proof (erule scan_loop.raw_induct [rotated], goal_cases)
  case (1 rec env cops ctx entry target n c synced s w y)
  let ?h = "history t u" and ?w = "snd (snd y)" and ?doc = "hand_over.doc_of env target"
  let ?keyed = "\<lambda>v v'. \<forall>T \<in> set (since (?h v) (?h v')). scan_cursor.keyed row_ok key T"
  show ?case
  proof (intro impI)
    assume live: "live_scan cops ok row_ok key pos selects env handed history" and n: "0 < n"
      and none: "snd (fst y) = None" and t: "t = me_tableName entry" "u = fullSyncQuery_unscoped entry"
    note hands = live_scan.axioms(1) [OF live]
    have "\<not> isl (scan_round env cops ctx entry target n c synced s w)"
      using 1(2) none by (auto simp: Let_def)
    then obtain going c' k s1 w1 where rnd:
      "scan_round env cops ctx entry target n c synced s w = Inr (going, c', k, s1, w1)"
      by (metis prod.collapse sum.collapse(2))
    note some = live_scan.history_some [OF live, of t u]
    have rest: "prefix (?h w1) (?h ?w)
      \<and> (going \<longrightarrow> ok c' \<longrightarrow> ?keyed w1 ?w \<longrightarrow>
           copied_live handed ?doc key (pos c') (since (?h w1) (?h ?w)) w1 (fst (fst y) - k) ?w)
      \<and> (\<not> going \<longrightarrow> fst (fst y) = k \<and> handed ?w = handed w1)"
    proof (cases going)
      case True
      with 1(2) rnd have "rec env cops ctx entry target n c' k s1 w1 = Some y" by simp
      from 1(1) [OF this] live n none t True show ?thesis by simp
    next
      case False
      with 1(2) rnd have fin: "scan_end env ctx entry target k s1 w1 = y" by simp
      with none have "scan_end env ctx entry target k s1 w1 = ((fst (fst y), None), fst (snd y), ?w)"
        by (metis prod.collapse)
      with live_scan.end_prefix [OF live fin, of t u] hand_over.scan_end_handed [OF hands this] False
      show ?thesis by simp
    qed
    note pre = live_scan.round_prefix [OF live rnd, of t u] rest [THEN conjunct1]
    note sub = since_trans [OF pre some]
    have "copied_live handed ?doc key (pos c) (since (?h w) (?h ?w)) w (fst (fst y) - synced) ?w"
      if ok: "ok c" and keyed: "?keyed w ?w"
    proof -
      have "?keyed w w1" "?keyed w1 ?w" using keyed sub by blast+
      with live_scan.round_live [OF live rnd t ok n] obtain T found where T:
        "T \<in> set (since (?h w) (?h w1))" "found = take (nat n) (scan_cursor.remaining key pos c T)" "ok c'"
        "handed w1 = handed w @ map ?doc found" "k = synced + int (length found)"
        "pos c' = (if found = [] then pos c else key (last found))"
        "if going then found \<noteq> [] else found = scan_cursor.remaining key pos c T"
        by (auto simp: Let_def)
      have in2: "T \<in> set (since (?h w) (?h ?w))" using T(1) sub(1) by blast
      note kT = keyed [rule_format, OF in2]
      show ?thesis
      proof (cases going)
        case False
        with T(7) have "found = scan_cursor.remaining key pos c T" by simp
        from live_scan.last_round_live [OF live in2 kT this] T(4,5) rest False
        show ?thesis by (auto simp: copied_live_def)
      next
        case True
        with rest T(3) \<open>?keyed w1 ?w\<close> obtain later where later:
          "handed ?w = handed w1 @ map ?doc later" "fst (fst y) - k = int (length later)"
          "live_copy key (pos c') (since (?h w1) (?h ?w)) later" by (auto simp: copied_live_def)
        have ne: "found \<noteq> []" using True T(7) by simp
        have "live_copy key (pos c) (since (?h w) (?h ?w)) (found @ later)"
        proof (rule live_copy_append [OF _ ne sub(2) _ in2])
          show "live_copy key (key (last found)) (since (?h w1) (?h ?w)) later" using later(3) T(6) ne by simp
          show "sorted_wrt (\<lambda>x y. key x < key y) found" "\<forall>x \<in> set found. pos c < key x \<and> x \<in> set T"
            unfolding T(2) by (rule live_scan.taken_sorted [OF live kT])+
          show "key (last found) < key r" if "r \<in> set T" "pos c < key r" "r \<notin> set found" for r
            using live_scan.remaining_taken [OF live kT _ that(1,2)] that(3) ne T(2) by blast
        qed
        with T(4,5) later(1,2) show ?thesis by (auto simp: copied_live_def intro!: exI [of _ "found @ later"])
      qed
    qed
    with prefix_order.trans [OF pre] show "prefix (?h w) (?h ?w) \<and> (ok c \<longrightarrow> ?keyed w ?w \<longrightarrow>
      copied_live handed ?doc key (pos c) (since (?h w) (?h ?w)) w (fst (fst y) - synced) ?w)" by blast
  qed
qed

text \<open>The copy with the cursor of an integer key.\<close>

lemma fullSyncFrom_live:
  assumes "live_scan (scan_ops own) (cursor_at k) (row_has_key k) (row_key k) cursor_pos
      (scan_select own_select) env handed history"
    and "cursor_at k c" "0 < effective_batch s entry"
    and "fullSyncFrom env (scan_ops own) ctx entry target c s w = Some ((n, None), s', w')"
    and "states = since (history (me_tableName entry) (fullSyncQuery_unscoped entry) w)
                        (history (me_tableName entry) (fullSyncQuery_unscoped entry) w')"
    and "\<forall>rs \<in> set states. distinct rs \<and> inj_on (row_key k) (set rs) \<and> (\<forall>r \<in> set rs. row_has_key k r)"
  shows "\<exists>found. n = int (length found)
    \<and> handed w' = handed w @ map (\<lambda>r. (target, the (model_id env r), projr (std_marshal env r))) found
    \<and> live_copy (row_key k) (cursor_pos c) states found"
proof -
  let ?h = "history (me_tableName entry) (fullSyncQuery_unscoped entry)"
  note hands = live_scan.axioms(1) [OF assms(1)]
  obtain err w1 where new: "bulk_new env target w = (err, w1)" by fastforce
  from assms(4) new have loop: "scan_loop env (scan_ops own) ctx entry target (effective_batch s entry) c 0 s w1
      = Some ((n, None), s', w')"
    by (auto simp: fullSyncFrom_def effective_batch_def Let_def split: option.splits)
  note pre = live_scan.new_live [OF assms(1) new] hand_over.new_handed [OF hands new]
  have keyed: "integer_scan.keyed k rs" if "rs \<in> set states" for rs
    using assms(6) that by (simp add: integer_scan.keyed_def)
  have "prefix (?h w1) (?h w') \<and> (cursor_at k c \<longrightarrow> (\<forall>T \<in> set (since (?h w1) (?h w')). integer_scan.keyed k T) \<longrightarrow>
      copied_live handed (hand_over.doc_of env target) (row_key k) (cursor_pos c) (since (?h w1) (?h w')) w1 n w')"
    using scan_loop_live [OF loop, of "cursor_at k" "row_has_key k" "row_key k" cursor_pos "scan_select own_select"
        handed history "me_tableName entry" "fullSyncQuery_unscoped entry"] assms(1,3)
    by (simp only: fst_conv snd_conv simp_thms diff_0_right) blast
  with assms(2) have copy: "prefix (?h w1) (?h w')"
    "\<forall>T \<in> set (since (?h w1) (?h w')). integer_scan.keyed k T \<Longrightarrow>
       copied_live handed (hand_over.doc_of env target) (row_key k) (cursor_pos c) (since (?h w1) (?h w')) w1 n w'"
    by blast+
  note sub = since_trans(2) [OF pre(1) copy(1) live_scan.history_some [OF assms(1)]]
  have doc: "hand_over.doc_of env target = (\<lambda>r. (target, the (model_id env r), projr (std_marshal env r)))"
    by (intro ext) (rule hand_over.doc_of_def [OF hands])
  have "copied_live handed (hand_over.doc_of env target) (row_key k) (cursor_pos c) (since (?h w1) (?h w')) w1 n w'"
    by (rule copy(2)) (use keyed sub assms(5) in auto)
  then obtain found where found: "handed w' = handed w1 @ map (hand_over.doc_of env target) found"
    "n = int (length found)" "live_copy (row_key k) (cursor_pos c) (since (?h w1) (?h w')) found"
    by (auto simp: copied_live_def)
  have "live_copy (row_key k) (cursor_pos c) states found"
    by (rule live_copy_mono [OF found(3)]) (use sub assms(5) in simp)
  with found(1,2) pre(2) show ?thesis unfolding doc by auto
qed

section \<open>The rebuild of such a table\<close>

locale live_rebuild = doc_store env view own ok row_ok key pos selects handed stored refused
    + live_scan "scan_ops own" ok row_ok key pos selects env handed history
  for env :: "('w, 'm) fs_env_scheme" and view and own :: "'c own_scans"
    and ok row_ok key pos selects handed stored refused history +
  assumes get_alias_live: "es_get_alias env ctx a w = (gres, w') \<Longrightarrow> prefix (history t u w) (history t u w')"
    and exists_live: "es_exists env ctx i w = (eres, w') \<Longrightarrow> prefix (history t u w) (history t u w')"
    and create_live: "es_create env ctx i body w = (res, w') \<Longrightarrow> prefix (history t u w) (history t u w')"
    and switch_live: "es_update_aliases env ctx acts w = (res, w') \<Longrightarrow> prefix (history t u w) (history t u w')"
    and delete_live: "es_delete_indices env ctx is w = (res, w') \<Longrightarrow> prefix (history t u w) (history t u w')"

sublocale live_rebuild \<subseteq> past: setup_frame env "\<lambda>w w'. \<forall>t u. prefix (history t u w) (history t u w')"
  by (unfold_locales, auto dest: get_alias_live exists_live create_live clock_live, meson prefix_order.trans)

context live_rebuild
begin

text \<open>The states of the table during the copy are among those during the rebuild.\<close>

lemma copy_within_rebuild:
  assumes "prepared env ctx entry w st i w3"
    and "fullSyncFrom env (scan_ops own) ctx entry i c s w3 = Some ((n, err), s', w4)"
    and "switchAliasToIndex env ctx st i w4 = (err1, w5)" "deleteReplacedIndices env ctx st w5 = (err2, w')"
  shows "set (since (history t u w3) (history t u w4)) \<subseteq> set (since (history t u w) (history t u w'))"
proof -
  have start: "prefix (history t u w) (history t u w3)" using past.setup_prepared [OF assms(1)] by blast
  have copy: "prefix (history t u w3) (history t u w4)"
    using fullSyncFrom_frame [OF live.scan_frame_axioms assms(2)] by blast
  have "prefix (history t u w4) (history t u w5)"
    using switchAliasToIndex_request [OF assms(3)] switch_live by blast
  moreover have "prefix (history t u w5) (history t u w')"
    using deleteReplacedIndices_request [OF assms(4)] delete_live by auto
  ultimately have rest: "prefix (history t u w4) (history t u w')" by (rule prefix_order.trans)
  have "set (since (history t u w3) (history t u w4)) \<subseteq> set (since (history t u w3) (history t u w'))"
    by (rule since_trans(1) [OF copy rest history_some])
  also have "\<dots> \<subseteq> set (since (history t u w) (history t u w'))"
    by (rule since_trans(2) [OF start prefix_order.trans [OF copy rest] history_some])
  finally show ?thesis .
qed

end

section \<open>A world with a writer\<close>

text \<open>A world in which the tables change before each query, as \<open>lw_script\<close> says.\<close>

record live_world = fs_world +
  lw_script :: "(string \<times> go_any list) list list"
  lw_past :: "(string \<times> go_any list) list list"

definition writer_acts :: "'x live_world_scheme \<Rightarrow> 'x live_world_scheme" where
  "writer_acts w =
     (case lw_script w of
        [] \<Rightarrow> w
      | rows # script \<Rightarrow> w\<lparr>fw_rows := rows, lw_script := script, lw_past := lw_past w @ [fw_rows w]\<rparr>)"

definition lw_history :: "string \<Rightarrow> bool \<Rightarrow> 'x live_world_scheme \<Rightarrow> go_any list list" where
  "lw_history t u w = map (\<lambda>rows. case map_of rows t of Some rs \<Rightarrow> rs | None \<Rightarrow> []) (lw_past w @ [fw_rows w])"

definition mem_live :: "'m \<Rightarrow> ('x live_world_scheme, 'm) fs_env_scheme" where
  "mem_live m = (mem_fs m)\<lparr>
     db_scan := \<lambda>ctx t u sc w.
       (let w = writer_acts w in (Inr (scan_select (\<lambda>_ _ _ rs. rs) sc (fw_table t u w)), w)),
     std_marshal := \<lambda>r. (case column_of ''title'' r of GoString title \<Rightarrow> Inr title | _ \<Rightarrow> Inr ''{}'')\<rparr>"

lemma mem_live_fields [simp]:
  "db_scan (mem_live m) ctx t u sc w =
     (Inr (scan_select (\<lambda>_ _ _ rs. rs) sc (fw_table t u (writer_acts w))), writer_acts w)"
  "bulk_add (mem_live m) = mem_bulk_add"
  "bulk_close (mem_live m) ctx i w = ((None, []), w)"
  "bulk_new (mem_live m) i w = (None, w)"
  "rt_now (mem_live m) w = (mw_now w, w)"
  "es_get_alias (mem_live m) = mem_get_alias"
  "es_exists (mem_live m) ctx i w =
     (Inr (if i \<in> set (fw_indices w) then status_ok else status_error 404), w)"
  "es_create (mem_live m) = mem_create_index"
  "es_update_aliases (mem_live m) = mem_update_aliases"
  "es_delete_indices (mem_live m) = mem_delete_indices"
  by (simp_all add: mem_live_def Let_def)

lemma writer_acts_laws:
  "fw_live (writer_acts w) = fw_live w" "fw_view (writer_acts w) = fw_view w"
  "prefix (lw_history t u w) (lw_history t u (writer_acts w))"
  "fw_table t u (writer_acts w) \<in> set (since (lw_history t u w) (lw_history t u (writer_acts w)))"
  by (auto simp: writer_acts_def fw_live_def fw_view_def lw_history_def since_def fw_table_def split: list.split)

lemma lw_history_bulk_add: "mem_bulk_add ctx i d b w = (ares, w') \<Longrightarrow> lw_history t u w' = lw_history t u w"
  by (auto simp: mem_bulk_add_def lw_history_def split: if_splits)

interpretation mem_live: live_scan "scan_ops own" "cursor_at k" "row_has_key k" "row_key k" cursor_pos
  "scan_select (\<lambda>_ _ _ rs. rs)" "mem_live m" fw_live lw_history
proof (intro_locales, unfold_locales, goal_cases)
  case (2 ctx i d b w errs w')
  then show ?case using mem_bulk_add_laws by fastforce
next
  case 6
  then show ?case by (simp add: lw_history_def)
next
  case (7 ctx t u sc w res w' t' u')
  then show ?case using writer_acts_laws(3) [of t' u' w] by (auto intro!: bexI [OF _ writer_acts_laws(4)])
next
  case (8 ctx i d b w ares w' t u)
  then show ?case using lw_history_bulk_add [of ctx i d b w ares w' t u] by simp
qed (simp_all add: writer_acts_laws(1))

lemma lw_history_requests:
  "mem_get_alias ctx a w = (gres, w') \<Longrightarrow> lw_history t u w' = lw_history t u w"
  "mem_create_index ctx i body w = (res, w') \<Longrightarrow> lw_history t u w' = lw_history t u w"
  "mem_update_aliases ctx acts w = (res, w') \<Longrightarrow> lw_history t u w' = lw_history t u w"
  "mem_delete_indices ctx is w = (res, w') \<Longrightarrow> lw_history t u w' = lw_history t u w"
proof -
  have one: "lw_history t u (mem_alias_action act w) = lw_history t u w" for act and w :: "'x live_world_scheme"
    by (cases act) (simp_all add: lw_history_def)
  have all: "lw_history t u (fold mem_alias_action acts w) = lw_history t u w"
    for acts and w :: "'x live_world_scheme"
    by (induction acts arbitrary: w) (simp_all add: one)
  show "mem_get_alias ctx a w = (gres, w') \<Longrightarrow> lw_history t u w' = lw_history t u w"
    by (simp add: mem_get_alias_def Let_def)
  show "mem_create_index ctx i body w = (res, w') \<Longrightarrow> lw_history t u w' = lw_history t u w"
    by (auto simp: mem_create_index_def lw_history_def split: if_splits)
  show "mem_update_aliases ctx acts w = (res, w') \<Longrightarrow> lw_history t u w' = lw_history t u w"
    by (auto simp: mem_update_aliases_def all split: if_splits)
  show "mem_delete_indices ctx is w = (res, w') \<Longrightarrow> lw_history t u w' = lw_history t u w"
    by (auto simp: mem_delete_indices_def mem_fold_delete all split: if_splits)
qed

interpretation mem_live_cluster: alias_cluster "mem_live m" fw_view
proof (unfold_locales, goal_cases)
  case 2
  then show ?case by (auto dest!: mem_get_alias_laws)
next
  case 4
  then show ?case by (auto dest!: mem_create_laws)
next
  case 5
  then show ?case by (auto dest!: mem_update_laws)
next
  case 6
  then show ?case by (auto dest!: mem_delete_laws)
next
  case 10
  then show ?case using mem_bulk_add_laws by (metis mem_live_fields(2) prod.collapse)
qed (auto simp: fw_view_def writer_acts_def split: list.splits)

interpretation mem_live_store: doc_store "mem_live m" fw_view own "cursor_at k" "row_has_key k" "row_key k"
  cursor_pos "scan_select (\<lambda>_ _ _ rs. rs)" fw_live fw_stored fw_refused
proof (intro_locales, unfold_locales, goal_cases)
  case 1
  then show ?case by (auto simp: fw_view_def fw_live_def index_docs_def filter_empty_conv)
next
  case 2
  then show ?case by (auto dest!: mem_get_alias_laws)
next
  case 4
  then show ?case by (auto dest!: mem_create_laws)
next
  case (5 ctx acts w res w' i)
  then show ?case using mem_update_laws [of ctx acts w res w'] by (auto simp: mem_stored)
next
  case (6 ctx "is" w res w' i)
  then show ?case using mem_delete_laws [of ctx "is" w res w'] by (auto simp: mem_stored)
qed (auto simp: mem_flush)

interpretation mem_live_rebuild: live_rebuild "mem_live m" fw_view own "cursor_at k" "row_has_key k" "row_key k"
  cursor_pos "scan_select (\<lambda>_ _ _ rs. rs)" fw_live fw_stored fw_refused lw_history
  by (intro_locales, unfold_locales) (simp_all add: lw_history_requests)

section \<open>Sample runs\<close>

definition titled :: "int \<Rightarrow> string \<Rightarrow> go_any" where
  "titled n title = GoModel ''Article'' [(''id'', GoInt n), (''title'', GoString title)]"

text \<open>After the first batch row 1 is changed, row 2 deleted and row 4 inserted.\<close>

definition before_rows :: "go_any list" where
  "before_rows = [titled 1 ''a'', titled 2 ''b'', titled 3 ''c'']"

definition after_rows :: "go_any list" where
  "after_rows = [titled 1 ''a2'', titled 3 ''c'', titled 4 ''d'']"

definition busy_world :: live_world where
  "busy_world = fs_world.extend
     (relay_world.extend (relay_world [] [] 0)
       (fs_world.fields [(''t'', before_rows)] [(''old'', ''1'', ''a'')] [''old''] [(''old'', ''a'')] False []))
     (live_world.fields [[(''t'', before_rows)], [(''t'', after_rows)]] [])"

text \<open>
  The new index has the version of row 1 that was scanned and still has row 2, and the old index is gone:
  the events of these changes must be delivered after the switch, and those that were delivered to the
  old index are lost.
\<close>

lemma change_after_scan_missed:
  "map_option (\<lambda>((n, err), s', w'). (n, err, fw_aliases w', fw_indices w', map snd (fw_stored w'),
       fw_table ''t'' True w' = after_rows))
     (fullSyncTableAt (mem_live () :: (live_world, unit) fs_env_scheme) no_own_scans Background
        (article_entry 2) 0 relay_syncer busy_world)
   = Some (4, None, [(''a__fullsync__0'', ''a'')], [''a__fullsync__0''],
       [(''1'', ''a''), (''2'', ''b''), (''3'', ''c''), (''4'', ''d'')], True)"
  by code_simp

section \<open>Property\<close>

text \<open>
  C11. A full sync of a model with an integer key whose table the application changes meanwhile: one that
  returns no error leaves the alias on one new index.  To it were handed, of the rows beyond the start,
  at most one version for each key, each a version that the table had during the sync, and every row
  that stayed as it was throughout; they are in it unless Elasticsearch refused them.
\<close>

theorem live_copy_complete:
  assumes "live_rebuild env view own (cursor_at k) (row_has_key k) (row_key k) cursor_pos
      (scan_select own_select) handed stored refused history"
    and "me_fullSyncScan entry = Some (IntegerPrimaryKeyScan (Some k))"
    and "fk_unsigned k \<longrightarrow> 0 \<le> startID" "0 < effective_batch s entry" "plain_mapping env entry"
    and "fullSyncTableAt env own ctx entry startID s w = Some ((n, None), s', w')"
    and "states = since (history (me_tableName entry) (fullSyncQuery_unscoped entry) w)
                        (history (me_tableName entry) (fullSyncQuery_unscoped entry) w')"
    and "\<forall>rs \<in> set states. distinct rs \<and> inj_on (row_key k) (set rs) \<and> (\<forall>r \<in> set rs. row_has_key k r)"
  shows "\<exists>i found. targets (view w') (me_indexName entry) = {i} \<and> i \<notin> cl_indices (view w)
    \<and> n = int (length found) \<and> live_copy (row_key k) startID states found
    \<and> mset (index_docs i (stored w')) + mset (index_docs i (refused w'))
        = mset (map (\<lambda>r. (i, the (model_id env r), projr (std_marshal env r))) found)"
proof -
  note live = live_rebuild.axioms(2) [OF assms(1)] and docs = live_rebuild.axioms(1) [OF assms(1)]
  obtain c st i w3 w4 w5 where cursor: "fullSyncCursor own entry startID = Inr c"
    and steps: "prepared env ctx entry w st i w3"
      "fullSyncFrom env (scan_ops own) ctx entry i c s w3 = Some ((n, None), s', w4)"
      "switchAliasToIndex env ctx st i w4 = (None, w5)" "deleteReplacedIndices env ctx st w5 = (None, w')"
    by (rule fullSyncTableAt_steps [OF assms(6)])
  from fullSyncCursor_integer [OF assms(2,3), of own] cursor have c: "cursor_at k c" "cursor_pos c = startID" by auto
  note sub = live_rebuild.copy_within_rebuild [OF assms(1) steps, of "me_tableName entry" "fullSyncQuery_unscoped entry",
      folded assms(7)]
  from fullSyncFrom_live [OF live c(1) assms(4) steps(2) refl] sub assms(8) obtain found where found:
    "n = int (length found)"
    "handed w4 = handed w3 @ map (\<lambda>r. (i, the (model_id env r), projr (std_marshal env r))) found"
    "live_copy (row_key k) startID (since (history (me_tableName entry) (fullSyncQuery_unscoped entry) w3)
       (history (me_tableName entry) (fullSyncQuery_unscoped entry) w4)) found"
    unfolding c(2) by blast
  have doc: "hand_over.doc_of env i = (\<lambda>r. (i, the (model_id env r), projr (std_marshal env r)))"
    by (intro ext) (rule hand_over.doc_of_def [OF live_scan.axioms(1) [OF live]])
  have "handed w3 = handed w" by (rule doc_store.prepared_handed [OF docs steps(1)])
  with found(2) have "handed w4 = handed w @ map (hand_over.doc_of env i) found" unfolding doc by simp
  from doc_store.rebuilt [OF docs assms(5) steps this] found(1) live_copy_mono [OF found(3) sub]
  show ?thesis unfolding doc by blast
qed

text \<open>In the run above row 3 stayed, and is in the new index.\<close>

theorem live_copy_complete_witness:
  "\<exists>s' w' i. fullSyncTableAt (mem_live () :: (live_world, unit) fs_env_scheme) no_own_scans Background
        (article_entry 2) 0 relay_syncer busy_world = Some ((4, None), s', w')
     \<and> targets (fw_view w') ''a'' = {i} \<and> (i, ''3'', ''c'') \<in> set (fw_stored w')"
proof -
  let ?env = "mem_live () :: (live_world, unit) fs_env_scheme" and ?w = busy_world and ?e = "article_entry 2"
  let ?run = "fullSyncTableAt ?env no_own_scans Background ?e 0 relay_syncer ?w"
  have e: "me_tableName ?e = ''t''" "me_indexName ?e = ''a''"
    "me_fullSyncScan ?e = Some (IntegerPrimaryKeyScan (Some article_key))" by (simp_all add: article_entry_def)
  have batch: "0 < effective_batch relay_syncer ?e" by (simp add: effective_batch_def article_entry_def)
  have plain: "plain_mapping ?env ?e"
    by (simp add: plain_mapping_def article_entry_def buildIndexCreateBody_def body_aliases_def)
  have ended: "map_option (\<lambda>((n, err), s', w'). (n, err, lw_past w', fw_rows w', fw_refuses w')) ?run
      = Some (4, None, [[(''t'', before_rows)], [(''t'', before_rows)]], [(''t'', after_rows)], [])" by code_simp
  then obtain s' w' where run: "?run = Some ((4, None), s', w')" and refuses: "fw_refuses w' = []"
    and past: "lw_past w' = [[(''t'', before_rows)], [(''t'', before_rows)]]" "fw_rows w' = [(''t'', after_rows)]"
    by (cases ?run) auto
  have states: "since (lw_history ''t'' u ?w) (lw_history ''t'' u w') = [before_rows, before_rows, after_rows]" for u
    by (simp add: lw_history_def past since_def busy_world_def fs_world.defs live_world.defs relay_world.defs)
  have key: "row_key article_key (titled n t) = n" "row_has_key article_key (titled n t)" for n t
    by (simp_all add: row_key_def row_has_key_def titled_def article_key_def column_of_def any_int_def key_value_def)
  have ok: "\<forall>rs \<in> set [before_rows, before_rows, after_rows].
      distinct rs \<and> inj_on (row_key article_key) (set rs) \<and> (\<forall>r \<in> set rs. row_has_key article_key r)"
    by (simp add: before_rows_def after_rows_def key inj_on_def) (simp add: titled_def)
  from live_copy_complete [OF mem_live_rebuild.live_rebuild_axioms e(3) _ batch plain run
      states [symmetric, folded e(1)] ok] obtain i found where
    found: "targets (fw_view w') ''a'' = {i}" "live_copy (row_key article_key) 0 [before_rows, before_rows, after_rows] found"
    "mset (index_docs i (fw_stored w')) + mset (index_docs i (fw_refused w'))
       = mset (map (\<lambda>r. (i, the (model_id ?env r), projr (std_marshal ?env r))) found)"
    unfolding e(2) by auto
  from found(2) have "titled 3 ''c'' \<in> set found"
    by (auto simp: live_copy_def before_rows_def after_rows_def key)
  moreover have "model_id ?env (titled 3 ''c'') = Some ''3''" "std_marshal ?env (titled 3 ''c'') = Inr ''c''"
    by code_simp+
  ultimately have "(i, ''3'', ''c'') \<in># mset (map (\<lambda>r. (i, the (model_id ?env r), projr (std_marshal ?env r))) found)"
    by force
  with found(3) have "(i, ''3'', ''c'') \<in># mset (index_docs i (fw_stored w')) + mset (index_docs i (fw_refused w'))"
    by simp
  then have "(i, ''3'', ''c'') \<in> set (fw_stored w')"
    by (simp add: index_docs_def fw_refused_def refuses)
  with run found(1) show ?thesis by blast
qed

end
