(* ===== verification/ModelValues.thy ===== *)
theory ModelValues imports AutoSync FullSync begin

text \<open>
  The values that \<open>model.go\<close> makes by reflection: the slice that a scan fills, and deep copies.

  The package \<open>copier\<close> and the JSON codec are arguments.  A type is known by its name, \<open>zero_like\<close> is
  the zero value of the type of a value.
\<close>

section \<open>The slice of a scan\<close>

text \<open>A value with the name of its type.\<close>

definition newModelSlice :: "modelEntry \<Rightarrow> string \<times> rvalue" where
  "newModelSlice entry = (''*[]'' @ me_modelType entry, RPtr (Some (RSlice [])))"

text \<open>The elements that \<open>Find\<close> has put into the slice, as the scan reads them: pointers to each.\<close>

lemma extractModels_filled:
  "extractModels addr (RPtr (Some (RSlice (map RStruct rows)))) = map (\<lambda>r. RPtr (Some (RStruct r))) rows"
  by (induction rows) (simp_all add: element_models_def)

lemma newModelSlice_empty: "extractModels addr (snd (newModelSlice entry)) = []"
  by (simp add: newModelSlice_def)

section \<open>Deep copies\<close>

fun zero_any :: "go_any \<Rightarrow> go_any" where
  "zero_any GoNil = GoNil"
| "zero_any (GoBool b) = GoBool False"
| "zero_any (GoInt n) = GoInt 0"
| "zero_any (GoUint n) = GoUint 0"
| "zero_any (GoString s) = GoString []"
| "zero_any (GoTime t) = GoTime zero_time"
| "zero_any (GoMap m) = GoNil"
| "zero_any (GoModel t cols) = GoModel t (map (\<lambda>(c, v). (c, zero_any v)) cols)"
| "zero_any (GoOther t) = GoOther []"

fun zero_like :: "rvalue \<Rightarrow> rvalue" where
  "zero_like (RPtr p) = RPtr None"
| "zero_like (RIface i) = RIface None"
| "zero_like (RSlice elems) = RSlice []"
| "zero_like (RArray elems) = RArray (map zero_like elems)"
| "zero_like (RStruct m) = RStruct (zero_any m)"
| "zero_like (RMap m) = RMap []"
| "zero_like v = v"

text \<open>
  \<open>copier_Copy\<close> gets the destination and the source and gives the filled destination;
  \<open>json_to_map\<close> decodes into a \<open>map[string]any\<close>.
\<close>

record copy_env =
  copier_Copy :: "rvalue \<Rightarrow> rvalue \<Rightarrow> go_error + rvalue"
  json_of :: "rvalue \<Rightarrow> go_error + string"
  json_to_map :: "string \<Rightarrow> go_error + (string \<times> go_any) list"

text \<open>The type of what a nil pointer points to cannot be asked for: the source panics.\<close>

definition deepCopyModel :: "copy_env \<Rightarrow> rvalue \<Rightarrow> (go_error + rvalue) call_outcome" where
  "deepCopyModel env src =
     (case src of
        RMap m \<Rightarrow> Returned (Inr src)
      | RPtr None \<Rightarrow> Panicked ''reflect: call of reflect.Value.Type on zero Value''
      | RPtr (Some v) \<Rightarrow>
          (let dst = RPtr (Some (zero_like v))
           in case copier_Copy env dst src of
                Inl err \<Rightarrow> Returned (Inl (Errorf ''essyncer: deep copy: '' err []))
              | Inr dst \<Rightarrow> Returned (Inr dst))
      | _ \<Rightarrow>
          (case json_of env src of
             Inl err \<Rightarrow> Returned (Inl (Errorf ''essyncer: marshal fallback copy: '' err []))
           | Inr data \<Rightarrow>
               (case json_to_map env data of
                  Inl err \<Rightarrow> Returned (Inl (Errorf ''essyncer: unmarshal fallback copy: '' err []))
                | Inr copied \<Rightarrow> Returned (Inr (RMap copied)))))"

text \<open>
  A copier that gives every destination of the type of its source the contents of the source makes
  \<open>deepCopyModel\<close> the identity on pointers; a value of another kind comes back as a map, whatever
  its type was.
\<close>

lemma deepCopyModel_pointer:
  "copier_Copy env (RPtr (Some (zero_like v))) (RPtr (Some v)) = Inr (RPtr (Some v)) \<Longrightarrow>
     deepCopyModel env (RPtr (Some v)) = Returned (Inr (RPtr (Some v)))"
  by (simp add: deepCopyModel_def)

lemma deepCopyModel_value:
  "deepCopyModel env v = Returned (Inr c) \<Longrightarrow> (\<And>p. v \<noteq> RPtr p) \<Longrightarrow> \<exists>m. c = RMap m"
  by (auto simp: deepCopyModel_def split: rvalue.splits sum.splits)

lemma deepCopyModel_panics:
  "(\<exists>message. deepCopyModel env v = Panicked message) \<longleftrightarrow> v = RPtr None"
  by (auto simp: deepCopyModel_def Let_def split: rvalue.splits option.splits sum.splits)

end
