(* ===== verification/Strconv.thy ===== *)
theory Strconv imports Prelude begin

text \<open>
  The decimal integer parsers of Go's \<open>strconv\<close>, as far as the source calls them (base 10, 64 bits),
  and that they read back what \<open>%d\<close> writes.
\<close>

section \<open>Parsing\<close>

text \<open>\<open>quote\<close> is the verb \<open>%q\<close>; the error is the text of a \<open>*strconv.NumError\<close>.\<close>

definition num_error :: "(string \<Rightarrow> string) \<Rightarrow> string \<Rightarrow> string \<Rightarrow> string \<Rightarrow> go_error" where
  "num_error quote fn num reason = Err (''strconv.'' @ fn @ '': parsing '' @ quote num @ '': '' @ reason)"

datatype parse_failure = BadSyntax | OutOfRange

definition digit_of :: "char \<Rightarrow> nat option" where
  "digit_of c = (let n = of_char c in if 48 \<le> n \<and> n \<le> (57 :: nat) then Some (n - 48) else None)"

fun parse_digits :: "nat \<Rightarrow> string \<Rightarrow> parse_failure + nat" where
  "parse_digits acc [] = Inr acc"
| "parse_digits acc (c # cs) =
     (case digit_of c of
        None \<Rightarrow> Inl BadSyntax
      | Some d \<Rightarrow>
          let n = acc * 10 + d
          in if 2 ^ 64 \<le> n then Inl OutOfRange else parse_digits n cs)"

definition failure_text :: "parse_failure \<Rightarrow> string" where
  "failure_text f = (case f of BadSyntax \<Rightarrow> ''invalid syntax'' | OutOfRange \<Rightarrow> ''value out of range'')"

definition ParseUint :: "(string \<Rightarrow> string) \<Rightarrow> string \<Rightarrow> go_error + int" where
  "ParseUint quote s =
     (if s = [] then Inl (num_error quote ''ParseUint'' s (failure_text BadSyntax))
      else case parse_digits 0 s of
        Inl f \<Rightarrow> Inl (num_error quote ''ParseUint'' s (failure_text f))
      | Inr n \<Rightarrow> Inr (int n))"

definition ParseInt :: "(string \<Rightarrow> string) \<Rightarrow> string \<Rightarrow> go_error + int" where
  "ParseInt quote s =
     (let neg = (s \<noteq> [] \<and> hd s = CHR ''-'');
          digits = (if s \<noteq> [] \<and> (hd s = CHR ''-'' \<or> hd s = CHR ''+'') then tl s else s);
          fail = (\<lambda>f. Inl (num_error quote ''ParseInt'' s (failure_text f)))
      in if s = [] \<or> digits = [] then fail BadSyntax
         else case parse_digits 0 digits of
           Inl f \<Rightarrow> fail f
         | Inr n \<Rightarrow>
             if \<not> neg \<and> 2 ^ 63 \<le> n then fail OutOfRange
             else if neg \<and> 2 ^ 63 < n then fail OutOfRange
             else Inr (if neg then - int n else int n))"

text \<open>Naturals compute in unary form, integers in binary: the bounds are compared as integers.\<close>

lemma parse_digits_code [code]:
  "parse_digits acc [] = Inr acc"
  "parse_digits acc (c # cs) =
     (case digit_of c of
        None \<Rightarrow> Inl BadSyntax
      | Some d \<Rightarrow>
          let n = acc * 10 + d
          in if (18446744073709551616 :: int) \<le> int n then Inl OutOfRange else parse_digits n cs)"
  by (auto simp: Let_def split: option.split)

lemma ParseInt_code [code]:
  "ParseInt quote s =
     (let neg = (s \<noteq> [] \<and> hd s = CHR ''-'');
          digits = (if s \<noteq> [] \<and> (hd s = CHR ''-'' \<or> hd s = CHR ''+'') then tl s else s);
          fail = (\<lambda>f. Inl (num_error quote ''ParseInt'' s (failure_text f)))
      in if s = [] \<or> digits = [] then fail BadSyntax
         else case parse_digits 0 digits of
           Inl f \<Rightarrow> fail f
         | Inr n \<Rightarrow>
             if \<not> neg \<and> (9223372036854775808 :: int) \<le> int n then fail OutOfRange
             else if neg \<and> (9223372036854775808 :: int) < int n then fail OutOfRange
             else Inr (if neg then - int n else int n))"
  by (auto simp: ParseInt_def Let_def split: sum.split)

section \<open>Round trips\<close>

definition is_digit :: "char \<Rightarrow> bool" where
  "is_digit c \<longleftrightarrow> digit_of c \<noteq> None"

definition digits_value :: "nat \<Rightarrow> string \<Rightarrow> nat" where
  "digits_value acc s = foldl (\<lambda>a c. a * 10 + the (digit_of c)) acc s"

lemma digits_value_simps [simp]:
  "digits_value acc [] = acc"
  "digits_value acc (c # s) = digits_value (acc * 10 + the (digit_of c)) s"
  "digits_value acc (s @ t) = digits_value (digits_value acc s) t"
  by (simp_all add: digits_value_def)

lemma digits_value_ge: "acc \<le> digits_value acc s"
proof (induction s arbitrary: acc)
  case Nil
  then show ?case by simp
next
  case (Cons c s)
  have "acc \<le> acc * 10 + the (digit_of c)" by simp
  also have "\<dots> \<le> digits_value (acc * 10 + the (digit_of c)) s" by (rule Cons.IH)
  finally show ?case by simp
qed

lemma parse_digits_value:
  "\<forall>c \<in> set s. is_digit c \<Longrightarrow>
     parse_digits acc s = (if s \<noteq> [] \<and> 2 ^ 64 \<le> digits_value acc s then Inl OutOfRange
                           else Inr (digits_value acc s))"
proof (induction s arbitrary: acc)
  case Nil
  then show ?case by simp
next
  case (Cons c s)
  then obtain d where d: "digit_of c = Some d" by (auto simp: is_digit_def)
  have "acc * 10 + d \<le> digits_value (acc * 10 + d) s" by (rule digits_value_ge)
  with Cons d show ?case by (auto simp: Let_def)
qed

lemma digit_of_char: "n < 10 \<Longrightarrow> digit_of (char_of (48 + n)) = Some n"
  by (simp add: digit_of_def)

lemma show_digits_value:
  "(\<forall>c \<in> set (show_digits n). is_digit c) \<and> digits_value 0 (show_digits n) = n"
proof (induction n rule: show_digits.induct)
  case (1 n)
  show ?case
  proof (cases "n < 10")
    case True
    then show ?thesis by (subst (1 2) show_digits.simps) (simp add: digit_of_char is_digit_def)
  next
    case False
    have "digit_of (char_of (48 + n mod 10)) = Some (n mod 10)" by (rule digit_of_char) simp
    with False 1 [OF False] show ?thesis
      by (subst (1 2) show_digits.simps) (auto simp: is_digit_def)
  qed
qed

lemma parse_show_digits: "n < 2 ^ 64 \<Longrightarrow> parse_digits 0 (show_digits n) = Inr n"
  using show_digits_value [of n] by (simp add: parse_digits_value)

lemma digit_not_sign: "is_digit c \<Longrightarrow> c \<noteq> CHR ''-'' \<and> c \<noteq> CHR ''+''"
  by (auto simp: is_digit_def digit_of_def)

lemma show_digits_hd: "is_digit (hd (show_digits n))"
  using show_digits_value [of n] show_digits_nonempty [of n] by (metis list.set_sel(1))

lemma ParseUint_show: "0 \<le> n \<Longrightarrow> n < 2 ^ 64 \<Longrightarrow> ParseUint quote (show_int n) = Inr n"
  by (simp add: ParseUint_def show_int_def parse_show_digits nat_less_iff)

lemma ParseInt_show:
  assumes "in_int64 n"
  shows "ParseInt quote (show_int n) = Inr n"
proof (cases "n < 0")
  case True
  with assms have "nat (- n) < 2 ^ 64" "nat (- n) \<le> 2 ^ 63" by (auto simp: in_int64_def nat_le_iff nat_less_iff)
  with True show ?thesis by (simp add: ParseInt_def show_int_def parse_show_digits Let_def)
next
  case False
  with assms have "nat n < 2 ^ 64" "nat n < 2 ^ 63" by (auto simp: in_int64_def nat_less_iff)
  with False digit_not_sign [OF show_digits_hd [of "nat n"]] show ?thesis
    by (simp add: ParseInt_def show_int_def parse_show_digits Let_def)
qed

text \<open>What is parsed lies in the range of the type.\<close>

lemma ParseInt_range: "ParseInt quote s = Inr n \<Longrightarrow> in_int64 n"
  by (auto simp: ParseInt_def Let_def in_int64_def split: if_splits sum.splits)

lemma parse_digits_range: "parse_digits acc s = Inr n \<Longrightarrow> s = [] \<or> n < 2 ^ 64"
  by (induction s arbitrary: acc) (fastforce simp: Let_def split: option.splits if_splits)+

lemma ParseUint_range: "ParseUint quote s = Inr n \<Longrightarrow> 0 \<le> n \<and> n < 2 ^ 64"
  by (auto simp: ParseUint_def split: if_splits sum.splits dest!: parse_digits_range)

section \<open>Numbers have no white space\<close>

lemma strip_any_hd: "[] \<notin> set ps \<Longrightarrow> s \<noteq> [] \<Longrightarrow> hd s \<notin> hd ` set ps \<Longrightarrow> strip_any ps s = None"
proof (induction ps)
  case Nil
  then show ?case by simp
next
  case (Cons p ps)
  then show ?case by (cases p; cases s) auto
qed

lemma trim_front_hd: "[] \<notin> set ps \<Longrightarrow> s \<noteq> [] \<Longrightarrow> hd s \<notin> hd ` set ps \<Longrightarrow> trim_front ps s = s"
  by (subst trim_front.simps) (simp add: strip_any_hd)

definition number_char :: "char \<Rightarrow> bool" where
  "number_char c \<longleftrightarrow> is_digit c \<or> c = CHR ''-''"

lemma space_byte:
  "c \<in> hd ` set space_codes \<union> hd ` set (map rev space_codes) \<Longrightarrow>
     (of_char c :: nat) < 33 \<or> 128 \<le> (of_char c :: nat)"
  by (auto simp: space_codes_def)

lemma number_byte: "number_char c \<Longrightarrow> 33 \<le> (of_char c :: nat) \<and> (of_char c :: nat) < 128"
  by (auto simp: number_char_def is_digit_def digit_of_def Let_def split: if_splits)

lemma number_char_no_space:
  assumes "number_char c"
  shows "c \<notin> hd ` set space_codes" "c \<notin> hd ` set (map rev space_codes)"
proof -
  have "c \<notin> hd ` set space_codes \<union> hd ` set (map rev space_codes)"
    using number_byte [OF assms] space_byte [of c] by auto
  then show "c \<notin> hd ` set space_codes" "c \<notin> hd ` set (map rev space_codes)" by blast+
qed

lemma space_codes_nonempty: "[] \<notin> set space_codes" "[] \<notin> set (map rev space_codes)"
  by (auto simp: space_codes_def)

lemma TrimSpace_number:
  assumes "s \<noteq> []" "number_char (hd s)" "number_char (last s)"
  shows "TrimSpace s = s"
proof -
  have front: "trim_front space_codes s = s"
    by (rule trim_front_hd [OF space_codes_nonempty(1) assms(1) number_char_no_space(1) [OF assms(2)]])
  have "rev s \<noteq> []" "number_char (hd (rev s))" using assms by (simp_all add: hd_rev)
  then have "trim_front (map rev space_codes) (rev s) = rev s"
    by (intro trim_front_hd [OF space_codes_nonempty(2)] number_char_no_space(2))
  with front show ?thesis by (simp add: TrimSpace_def)
qed

lemma TrimSpace_show_int [simp]: "TrimSpace (show_int n) = show_int n"
proof -
  have d: "is_digit (hd (show_digits m))" "is_digit (last (show_digits m))" for m
    using show_digits_value [of m] show_digits_nonempty [of m] by (metis list.set_sel(1), metis last_in_set)
  then have "number_char (hd (show_int n))" "number_char (last (show_int n))"
    by (auto simp: show_int_def number_char_def)
  then show ?thesis by (intro TrimSpace_number) simp_all
qed

end
