(* ===== verification/DocOps.thy ===== *)
theory DocOps imports AutoSync Strconv begin

text \<open>
  Operations on single documents (\<open>doc_ops.go\<close>): enqueueing the creation, the update or the deletion
  of the document of one row, and the inspection of its state in the database, in Elasticsearch and
  in the outbox.

  \<open>db_take_model\<close> is the query of a row of a model by its primary key, \<open>es_get\<close> the document API;
  \<open>doc_id\<close> is \<open>GetID\<close> of a loaded instance where its type implements \<open>Syncable\<close>.
\<close>

record get_response =
  gr_StatusCode :: int
  gr_IsError :: bool
  gr_Status :: string
  gr_found :: "go_error + bool"

record 'w doc_env = "'w outbox_db" +
  db_take_model :: "go_ctx \<Rightarrow> string \<Rightarrow> bool \<Rightarrow> string \<Rightarrow> go_any \<Rightarrow> 'w \<Rightarrow> (go_error + go_any) \<times> 'w"
  es_get :: "go_ctx \<Rightarrow> string \<Rightarrow> string \<Rightarrow> 'w \<Rightarrow> (go_error + get_response) \<times> 'w"
  doc_id :: "go_any \<Rightarrow> string option"
  doc_quote :: "string \<Rightarrow> string"

record DocumentInspectResult =
  di_Model :: string
  di_Table :: string
  di_Alias :: string
  di_DocumentID :: string
  di_DBFound :: bool
  di_ESFound :: bool
  di_OutboxPending :: int
  di_OutboxDead :: int
  di_LastDeadError :: string

section \<open>Primary keys\<close>

definition parsePrimaryKeyValue :: "(string \<Rightarrow> string) \<Rightarrow> Field option \<Rightarrow> string \<Rightarrow> go_error + go_any" where
  "parsePrimaryKeyValue quote field raw =
     (case field of
        None \<Rightarrow> Inl (Err ''missing primary key field'')
      | Some f \<Rightarrow>
          let value = TrimSpace raw
          in if value = [] then Inl (Err ''empty primary key'')
             else case fd_Kind f of
               Kind_String \<Rightarrow> Inr (GoString value)
             | Kind_Int bits \<Rightarrow>
                 (case ParseInt quote value of
                    Inl err \<Rightarrow> Inl (Errorf (''parse int primary key '' @ quote value @ '': '') err [])
                  | Inr n \<Rightarrow> Inr (GoInt n))
             | Kind_Uint bits \<Rightarrow>
                 (case ParseUint quote value of
                    Inl err \<Rightarrow> Inl (Errorf (''parse uint primary key '' @ quote value @ '': '') err [])
                  | Inr n \<Rightarrow> Inr (GoUint n))
             | Kind_Other k \<Rightarrow> Inl (Err (''unsupported primary key type '' @ fd_TypeText f)))"

definition requireModelEntry ::
  "model_types \<Rightarrow> modelRegistry \<Rightarrow> string option \<Rightarrow> go_error + modelEntry \<times> string" where
  "requireModelEntry mt r model =
     (case model of
        None \<Rightarrow> Inl (Err ''model is required'')
      | Some m \<Rightarrow>
          (case getByModel mt r m of
             None \<Rightarrow> Inl (Err (''essyncer: model '' @ getTableName mt m @ '' not registered''))
           | Some entry \<Rightarrow> Inr (entry, m)))"

text \<open>The loaded instance with its id.\<close>

definition loadSyncableByPrimaryKey ::
  "('w, 'm) doc_env_scheme \<Rightarrow> model_types \<Rightarrow> go_ctx \<Rightarrow> Syncer \<Rightarrow> string \<Rightarrow> string \<Rightarrow> bool \<Rightarrow> 'w
     \<Rightarrow> (go_error + go_any \<times> string) \<times> 'w" where
  "loadSyncableByPrimaryKey env mt ctx s model raw unscoped w =
     (case getByModel mt (sy_registry s) model of
        None \<Rightarrow> (Inl (Err (''essyncer: model '' @ getTableName mt model @ '' not registered'')), w)
      | Some entry \<Rightarrow>
          (case (case me_schema entry of Some sch \<Rightarrow> sch_PrimaryFields sch | None \<Rightarrow> []) of
             [field] \<Rightarrow>
               (case parsePrimaryKeyValue (doc_quote env) (Some field) raw of
                  Inl err \<Rightarrow>
                    (Inl (Errorf (''essyncer: parse primary key for '' @ me_tableName entry @ '': '') err []), w)
                | Inr value \<Rightarrow>
                    (case db_take_model env ctx (me_modelType entry) unscoped (fd_DBName field) value w of
                       (Inl err, w) \<Rightarrow> (Inl err, w)
                     | (Inr row, w) \<Rightarrow>
                         (case doc_id env row of
                            None \<Rightarrow> (Inl (Err (''essyncer: model '' @ me_tableName entry
                                          @ '' does not implement Syncable'')), w)
                          | Some docID \<Rightarrow> (Inr (row, docID), w))))
           | _ \<Rightarrow> (Inl (Err (''essyncer: model '' @ me_tableName entry
                      @ '' requires exactly one primary key for document ops'')), w)))"

section \<open>Enqueueing\<close>

definition ops_event :: "modelEntry \<Rightarrow> string \<Rightarrow> string \<Rightarrow> go_any \<Rightarrow> syncEvent" where
  "ops_event entry action docID doc =
     \<lparr>se_source = failureSourceOps, se_tableName = me_tableName entry, se_action = action,
      se_indexName = me_indexName entry, se_docID = docID, se_doc = doc\<rparr>"

text \<open>The events go to the connection of the syncer, outside of any transaction.\<close>

definition persist_one ::
  "('w, 'm) outbox_db_scheme \<Rightarrow> go_ctx \<Rightarrow> syncEvent \<Rightarrow> Syncer \<Rightarrow> 'w \<Rightarrow> go_error option \<times> Syncer \<times> 'w" where
  "persist_one env ctx ev s w =
     (case persistSyncEvents env ctx None [ev] s w of (err, _, s, w) \<Rightarrow> (err, s, w))"

definition enqueueDocumentFromDB ::
  "('w, 'm) doc_env_scheme \<Rightarrow> model_types \<Rightarrow> go_ctx \<Rightarrow> string option \<Rightarrow> string \<Rightarrow> string \<Rightarrow> bool
     \<Rightarrow> Syncer \<Rightarrow> 'w \<Rightarrow> go_error option \<times> Syncer \<times> 'w" where
  "enqueueDocumentFromDB env mt ctx model primaryKey action unscoped s w =
     (case requireModelEntry mt (sy_registry s) model of
        Inl err \<Rightarrow> (Some err, s, w)
      | Inr (entry, proto) \<Rightarrow>
          (case loadSyncableByPrimaryKey env mt ctx s proto (TrimSpace primaryKey) unscoped w of
             (Inl err, w) \<Rightarrow> (Some err, s, w)
           | (Inr (loaded, docID), w) \<Rightarrow> persist_one env ctx (ops_event entry action docID loaded) s w))"

definition EnqueueDocumentCreate ::
  "('w, 'm) doc_env_scheme \<Rightarrow> model_types \<Rightarrow> go_ctx \<Rightarrow> string option \<Rightarrow> string \<Rightarrow> bool
     \<Rightarrow> Syncer \<Rightarrow> 'w \<Rightarrow> go_error option \<times> Syncer \<times> 'w" where
  "EnqueueDocumentCreate env mt ctx model primaryKey unscoped s w =
     enqueueDocumentFromDB env mt ctx model primaryKey actionIndex unscoped s w"

definition EnqueueDocumentUpdate ::
  "('w, 'm) doc_env_scheme \<Rightarrow> model_types \<Rightarrow> go_ctx \<Rightarrow> string option \<Rightarrow> string \<Rightarrow> bool
     \<Rightarrow> Syncer \<Rightarrow> 'w \<Rightarrow> go_error option \<times> Syncer \<times> 'w" where
  "EnqueueDocumentUpdate env mt ctx model primaryKey unscoped s w =
     enqueueDocumentFromDB env mt ctx model primaryKey actionUpdate unscoped s w"

definition EnqueueDocumentDelete ::
  "('w, 'm) doc_env_scheme \<Rightarrow> model_types \<Rightarrow> go_ctx \<Rightarrow> string option \<Rightarrow> string \<Rightarrow> string \<Rightarrow> bool
     \<Rightarrow> Syncer \<Rightarrow> 'w \<Rightarrow> go_error option \<times> Syncer \<times> 'w" where
  "EnqueueDocumentDelete env mt ctx model primaryKey documentID unscoped s w =
     (case requireModelEntry mt (sy_registry s) model of
        Inl err \<Rightarrow> (Some err, s, w)
      | Inr (entry, proto) \<Rightarrow>
          let docID = TrimSpace documentID
          in if docID \<noteq> [] then persist_one env ctx (ops_event entry actionDelete docID GoNil) s w
             else if TrimSpace primaryKey = []
             then (Some (Err ''enqueue document delete: primary key or document id is required''), s, w)
             else (case loadSyncableByPrimaryKey env mt ctx s proto (TrimSpace primaryKey) unscoped w of
                     (Inl err, w) \<Rightarrow> (Some err, s, w)
                   | (Inr (loaded, docID), w) \<Rightarrow>
                       persist_one env ctx (ops_event entry actionDelete docID GoNil) s w))"

section \<open>Inspecting\<close>

definition inspectESDocument ::
  "('w, 'm) doc_env_scheme \<Rightarrow> go_ctx \<Rightarrow> string \<Rightarrow> string \<Rightarrow> 'w \<Rightarrow> (go_error + bool) \<times> 'w" where
  "inspectESDocument env ctx index' docID w =
     (case es_get env ctx index' docID w of
        (Inl err, w) \<Rightarrow> (Inl (Errorf ''inspect document es get: '' err []), w)
      | (Inr resp, w) \<Rightarrow>
          if gr_StatusCode resp = 404 then (Inr False, w)
          else if gr_IsError resp then (Inl (Err (''inspect document es get: '' @ gr_Status resp)), w)
          else (case gr_found resp of
                  Inl err \<Rightarrow> (Inl (Errorf ''inspect document decode es response: '' err []), w)
                | Inr found \<Rightarrow> (Inr found, w)))"

definition document_rows :: "string \<Rightarrow> string \<Rightarrow> string \<Rightarrow> OutboxEvent \<Rightarrow> bool" where
  "document_rows index' docID status r \<longleftrightarrow>
     ev_IndexAlias r = index' \<and> ev_DocumentID r = docID \<and> ev_Status r = status"

text \<open>\<open>Take\<close> with \<open>Limit(1)\<close> reports a missing row as \<open>ErrRecordNotFound\<close>.\<close>

definition lookupLatestDeadOutboxError ::
  "('w, 'm) outbox_db_scheme \<Rightarrow> go_ctx \<Rightarrow> string \<Rightarrow> string \<Rightarrow> 'w \<Rightarrow> (go_error + string) \<times> 'w" where
  "lookupLatestDeadOutboxError env ctx index' docID w =
     (case db_find env ctx (document_rows index' docID OutboxStatusDead) IdDesc 1 w of
        (Inr (dead # _), w) \<Rightarrow> (Inr (ev_LastError dead), w)
      | (Inr [], w) \<Rightarrow> (Inr [], w)
      | (Inl deadErr, w) \<Rightarrow>
          if errors_is deadErr ErrRecordNotFound then (Inr [], w)
          else (Inl (Errorf ''inspect document dead outbox detail: '' deadErr []), w))"

definition outbox_state ::
  "('w, 'm) outbox_db_scheme \<Rightarrow> go_ctx \<Rightarrow> DocumentInspectResult \<Rightarrow> 'w
     \<Rightarrow> (go_error + DocumentInspectResult) \<times> 'w" where
  "outbox_state env ctx result w =
     (let index' = di_Alias result; docID = di_DocumentID result
      in case db_count env ctx (document_rows index' docID OutboxStatusPending) w of
           (Inl err, w) \<Rightarrow> (Inl (Errorf ''inspect document pending outbox: '' err []), w)
         | (Inr pending, w) \<Rightarrow>
             (case db_count env ctx (document_rows index' docID OutboxStatusDead) w of
                (Inl err, w) \<Rightarrow> (Inl (Errorf ''inspect document dead outbox: '' err []), w)
              | (Inr dead, w) \<Rightarrow>
                  (case lookupLatestDeadOutboxError env ctx index' docID w of
                     (Inl err, w) \<Rightarrow> (Inl err, w)
                   | (Inr lastError, w) \<Rightarrow>
                       (Inr (result\<lparr>di_OutboxPending := pending, di_OutboxDead := dead,
                                    di_LastDeadError := lastError\<rparr>), w))))"

definition InspectDocument ::
  "('w, 'm) doc_env_scheme \<Rightarrow> model_types \<Rightarrow> go_ctx \<Rightarrow> string option \<Rightarrow> string \<Rightarrow> string \<Rightarrow> bool
     \<Rightarrow> Syncer \<Rightarrow> 'w \<Rightarrow> (go_error + DocumentInspectResult) \<times> 'w" where
  "InspectDocument env mt ctx model primaryKey documentID unscoped s w =
     (case requireModelEntry mt (sy_registry s) model of
        Inl err \<Rightarrow> (Inl err, w)
      | Inr (entry, proto) \<Rightarrow>
          let (loaded, w) =
                (if TrimSpace primaryKey \<noteq> []
                 then case loadSyncableByPrimaryKey env mt ctx s proto (TrimSpace primaryKey) unscoped w of
                        (Inr (_, docID), w) \<Rightarrow> (Inr (True, docID), w)
                      | (Inl err, w) \<Rightarrow>
                          if errors_is err ErrRecordNotFound then (Inr (False, TrimSpace documentID), w)
                          else (Inl err, w)
                 else (Inr (False, TrimSpace documentID), w))
          in case loaded of
               Inl err \<Rightarrow> (Inl err, w)
             | Inr (dbFound, docID) \<Rightarrow>
                 if docID = []
                 then (Inl (Err ''inspect document: primary key or document id is required''), w)
                 else
                   (case inspectESDocument env ctx (me_indexName entry) docID w of
                      (Inl err, w) \<Rightarrow> (Inl err, w)
                    | (Inr esFound, w) \<Rightarrow>
                        outbox_state env ctx
                          \<lparr>di_Model = me_modelType entry, di_Table = me_tableName entry,
                           di_Alias = me_indexName entry, di_DocumentID = docID, di_DBFound = dbFound,
                           di_ESFound = esFound, di_OutboxPending = 0, di_OutboxDead = 0,
                           di_LastDeadError = []\<rparr> w))"

section \<open>Facts\<close>

lemma persist_one_ok:
  assumes "persist_one env ctx ev s w = (None, s', w')" "sy_outbox s"
  shows "s' = s \<and> db_create env ctx RootDB 100 [pending_row (event_row ev)
      (projr (marshalOutboxPayload env (se_action ev) (se_doc ev)))] w = (None, w')"
proof -
  have "insertFromEvents env ctx (Some RootDB) [event_row ev] w = (None, w') \<and> s' = s"
    using assms by (auto simp: persist_one_def persistSyncEvents_def ensureOutboxStore_def Let_def
        split: prod.splits option.splits)
  with insertFromEvents_ok [of env ctx RootDB "[event_row ev]" w w'] show ?thesis
    by (simp add: event_row_def)
qed

lemma rev_filter_hd:
  "sql_select P IdDesc 1 rs = (case rev (filter P rs) of [] \<Rightarrow> [] | r # _ \<Rightarrow> [r])"
  by (simp add: sql_select_def split: list.split)

context outbox_table
begin

lemma lookupLatestDeadOutboxError_reads:
  assumes "lookupLatestDeadOutboxError env ctx i d w = (Inr text', w')"
    and "\<And>P ord n w e w'. db_find env ctx P ord n w = (Inl e, w') \<Longrightarrow> \<not> errors_is e ErrRecordNotFound"
  shows "rows w' = rows w
    \<and> text' = (case rev (filter (document_rows i d OutboxStatusDead) (rows w)) of
                [] \<Rightarrow> [] | r # _ \<Rightarrow> ev_LastError r)"
proof -
  obtain res w1 where f: "db_find env ctx (document_rows i d OutboxStatusDead) IdDesc 1 w = (res, w1)"
    by fastforce
  show ?thesis
  proof (cases res)
    case (Inl err)
    with assms f show ?thesis by (auto simp: lookupLatestDeadOutboxError_def split: if_splits)
  next
    case (Inr found)
    with find_ok f have "found = sql_select (document_rows i d OutboxStatusDead) IdDesc 1 (rows w)"
      "rows w1 = rows w" by auto
    with assms(1) f Inr show ?thesis
      by (auto simp: lookupLatestDeadOutboxError_def rev_filter_hd split: list.splits)
  qed
qed

end

section \<open>A reference world\<close>

record doc_world = mem_world +
  dw_models :: "(int \<times> go_any) list"
  dw_docs :: "(string \<times> string) list"

definition mem_docs :: "('x doc_world_scheme) doc_env" where
  "mem_docs = mem_db (doc_env_ext
     (\<lambda>ctx t u col v w. case v of
        GoInt n \<Rightarrow> (case map_of (dw_models w) n of Some m \<Rightarrow> (Inr m, w) | None \<Rightarrow> (Inl ErrRecordNotFound, w))
      | _ \<Rightarrow> (Inl ErrRecordNotFound, w))
     (\<lambda>ctx i d w. if (i, d) \<in> set (dw_docs w)
        then (Inr \<lparr>gr_StatusCode = 200, gr_IsError = False, gr_Status = ''200 OK'', gr_found = Inr True\<rparr>, w)
        else (Inr \<lparr>gr_StatusCode = 404, gr_IsError = True, gr_Status = ''404 Not Found'', gr_found = Inr False\<rparr>, w))
     (\<lambda>m. case m of GoModel t cols \<Rightarrow> (case map_of cols ''id'' of Some (GoInt n) \<Rightarrow> Some (show_int n) | _ \<Rightarrow> None)
        | _ \<Rightarrow> None)
     (\<lambda>s. ''\"'' @ s @ ''\"'') ())"

definition doc_world :: "OutboxEvent list \<Rightarrow> doc_world" where
  "doc_world rs = mem_world.extend (sample_world rs)
     (doc_world.fields [(7, GoModel ''Article'' [(''id'', GoInt 7)])] [(''a'', ''7'')])"

definition dead_row :: "int \<Rightarrow> string \<Rightarrow> OutboxEvent" where
  "dead_row n reason = (sample_row n)\<lparr>ev_DocumentID := ''7'', ev_Status := OutboxStatusDead, ev_LastError := reason\<rparr>"

section \<open>Properties\<close>

text \<open>
  C25. Primary keys round-trip: the decimal text of every int64 (uint64) is parsed back to the same
  number for a field of an integer (unsigned) kind, and no text is parsed to a number outside of the
  range of the type.
\<close>

theorem parsePrimaryKeyValue_roundtrip:
  "(fd_Kind f = Kind_Int bits \<longrightarrow> in_int64 n \<longrightarrow>
      parsePrimaryKeyValue quote (Some f) (show_int n) = Inr (GoInt n))
   \<and> (fd_Kind f = Kind_Uint bits \<longrightarrow> 0 \<le> n \<longrightarrow> n < 2 ^ 64 \<longrightarrow>
      parsePrimaryKeyValue quote (Some f) (show_int n) = Inr (GoUint n))
   \<and> (parsePrimaryKeyValue quote (Some f) raw = Inr (GoInt n) \<longrightarrow> in_int64 n)
   \<and> (parsePrimaryKeyValue quote (Some f) raw = Inr (GoUint n) \<longrightarrow> 0 \<le> n \<and> n < 2 ^ 64)"
  by (auto simp: parsePrimaryKeyValue_def ParseInt_show ParseUint_show Let_def
      split: if_splits kind.splits sum.splits dest: ParseInt_range ParseUint_range)

theorem parsePrimaryKeyValue_roundtrip_witness:
  "parsePrimaryKeyValue id (Some id_field) (show_int (- 9223372036854775808)) = Inr (GoInt (- 9223372036854775808))"
  using parsePrimaryKeyValue_roundtrip [of id_field 64 "- 9223372036854775808" id "[]"]
  by (simp add: id_field_def in_int64_def)

text \<open>
  What an inspection reports about the outbox is what the table holds: the numbers of pending and
  of dead rows of the document under the alias of its model, and the last error of the newest dead
  row.
\<close>

lemma InspectDocument_reports:
  assumes "outbox_table env rows cell"
    and "InspectDocument env mt ctx model primaryKey documentID unscoped s w = (Inr r, w')"
    and "\<And>P ord n w e w'. db_find env ctx P ord n w = (Inl e, w') \<Longrightarrow> \<not> errors_is e ErrRecordNotFound"
  shows "di_OutboxPending r = matched_rows (document_rows (di_Alias r) (di_DocumentID r) OutboxStatusPending) (rows w')
    \<and> di_OutboxDead r = matched_rows (document_rows (di_Alias r) (di_DocumentID r) OutboxStatusDead) (rows w')
    \<and> di_LastDeadError r =
        (case rev (filter (document_rows (di_Alias r) (di_DocumentID r) OutboxStatusDead) (rows w')) of
           [] \<Rightarrow> [] | x # _ \<Rightarrow> ev_LastError x)
    \<and> di_DocumentID r \<noteq> []"
proof -
  obtain r0 w0 where r0: "outbox_state env ctx r0 w0 = (Inr r, w')" "di_DocumentID r0 \<noteq> []"
    using assms(2) by (auto simp: InspectDocument_def Let_def split: sum.splits prod.splits if_splits)
  then obtain pending w1 dead w2 err where steps:
    "db_count env ctx (document_rows (di_Alias r0) (di_DocumentID r0) OutboxStatusPending) w0 = (Inr pending, w1)"
    "db_count env ctx (document_rows (di_Alias r0) (di_DocumentID r0) OutboxStatusDead) w1 = (Inr dead, w2)"
    "lookupLatestDeadOutboxError env ctx (di_Alias r0) (di_DocumentID r0) w2 = (Inr err, w')"
    "r = r0\<lparr>di_OutboxPending := pending, di_OutboxDead := dead, di_LastDeadError := err\<rparr>"
    by (auto simp: outbox_state_def Let_def split: sum.splits prod.splits)
  note counts = outbox_table.count_rows [OF assms(1) steps(1)] outbox_table.count_rows [OF assms(1) steps(2)]
  note last = outbox_table.lookupLatestDeadOutboxError_reads [OF assms(1) steps(3) assms(3)]
  from counts last steps(4) r0(2) show ?thesis by simp
qed

lemma mem_ctx_err_kind: "mem_ctx_err ctx w = Some e \<Longrightarrow> \<not> errors_is e ErrRecordNotFound"
  by (induction ctx w rule: mem_ctx_err.induct) (auto split: if_splits)

lemma mem_find_error:
  "db_find (mem_db ext) ctx P ord n w = (Inl e, w') \<Longrightarrow> \<not> errors_is e ErrRecordNotFound"
  by (auto simp: mem_db_def mem_stmt_def Let_def dest!: mem_ctx_err_kind
      split: option.splits if_splits prod.splits)

lemma InspectDocument_reports_witness:
  "\<exists>r w'. InspectDocument mem_docs sync_types Background (Some ''Article'') [] '' 7 '' False sync_syncer
       (doc_world [dead_row 1 ''x'', dead_row 2 ''y'']) = (Inr r, w')
     \<and> di_LastDeadError r = (case rev (filter (document_rows (di_Alias r) (di_DocumentID r) OutboxStatusDead)
           (mem_rows w')) of [] \<Rightarrow> [] | x # _ \<Rightarrow> ev_LastError x)"
proof -
  let ?run = "InspectDocument mem_docs sync_types Background (Some ''Article'') [] '' 7 '' False sync_syncer
    (doc_world [dead_row 1 ''x'', dead_row 2 ''y''])"
  have "\<not> isl (fst ?run)" by code_simp
  then obtain r w' where run: "?run = (Inr r, w')" by (cases ?run; cases "fst ?run") auto
  have tbl: "outbox_table (mem_docs :: doc_world doc_env) mem_rows datetime_cell"
    unfolding mem_docs_def by (rule mem.outbox_table_axioms)
  have "\<not> errors_is e ErrRecordNotFound" if "db_find mem_docs Background P ord n w = (Inl e, w')"
    for P ord n e and w w' :: doc_world
    using that unfolding mem_docs_def by (rule mem_find_error)
  note reports = InspectDocument_reports [OF tbl run, OF this]
  show ?thesis by (intro exI conjI, rule run) (simp add: reports)
qed



end
