(* ===== verification/Cobra.thy ===== *)
theory Cobra imports DocOps FullSyncRuns begin

text \<open>
  The operator command of \<open>cobra_ops.go\<close>: the tree of commands with their flags, and what each
  command does when cobra runs it.

  Parsing a command line is cobra's: a command gets the value of each of its flags (\<open>flag_values\<close>: the
  one given, else the default) and the remaining arguments.  A run returns the error, the lines
  written to the output, the syncer and the world; it has no result where an operation that it calls
  does not return.
\<close>

section \<open>Commands\<close>

datatype flag_value =
    FlagString string
  | FlagBool bool
  | FlagInt int
  | FlagDuration duration
  | FlagStrings "string list"
  | FlagInts "int list"

record cobra_flag =
  fl_name :: string
  fl_default :: flag_value
  fl_usage :: string
  fl_required :: bool

datatype 'r command = Command
  (cmd_Use: string) (cmd_Short: string) (cmd_Flags: "cobra_flag list") (cmd_RunE: "'r option")
  (cmd_Commands: "'r command list")

definition flag :: "string \<Rightarrow> flag_value \<Rightarrow> string \<Rightarrow> cobra_flag" where
  "flag name dflt usage = \<lparr>fl_name = name, fl_default = dflt, fl_usage = usage, fl_required = False\<rparr>"

definition MarkFlagRequired :: "cobra_flag \<Rightarrow> cobra_flag" where
  "MarkFlagRequired f = f\<lparr>fl_required := True\<rparr>"

definition flag_values :: "cobra_flag list \<Rightarrow> (string \<times> flag_value) list \<Rightarrow> string \<Rightarrow> flag_value" where
  "flag_values flags given name =
     (case map_of given name of
        Some v \<Rightarrow> v
      | None \<Rightarrow> (case find (\<lambda>f. fl_name f = name) flags of Some f \<Rightarrow> fl_default f | None \<Rightarrow> FlagString []))"

fun as_string :: "flag_value \<Rightarrow> string" where
  "as_string (FlagString v) = v" | "as_string _ = []"

fun as_bool :: "flag_value \<Rightarrow> bool" where
  "as_bool (FlagBool v) = v" | "as_bool _ = False"

fun as_int :: "flag_value \<Rightarrow> int" where
  "as_int (FlagInt v) = v" | "as_int (FlagDuration v) = v" | "as_int _ = 0"

fun as_strings :: "flag_value \<Rightarrow> string list" where
  "as_strings (FlagStrings v) = v" | "as_strings _ = []"

fun as_ints :: "flag_value \<Rightarrow> int list" where
  "as_ints (FlagInts v) = v" | "as_ints _ = []"

section \<open>What the commands work on\<close>

text \<open>\<open>cob_Syncer\<close>: the field is not nil; \<open>cob_Models\<close>: the map from names to models.\<close>

record CobraOpsOptions =
  cob_Use :: string
  cob_Short :: string
  cob_Syncer :: bool
  cob_Models :: "(string \<times> string) list"

text \<open>\<open>cl_body\<close> and \<open>cl_schedule\<close>: the copies that the workers of a full sync make, and their order.\<close>

record ('w, 'c) cli_env =
  cl_fs :: "'w fs_env"
  cl_doc :: "'w doc_env"
  cl_own :: "'c own_scans"
  cl_types :: model_types
  cl_lower :: "string \<Rightarrow> string"
  cl_body :: "modelEntry \<Rightarrow> Syncer \<Rightarrow> 'w \<Rightarrow> ((int \<times> go_error option) call_outcome \<times> Syncer \<times> 'w) option"
  cl_schedule :: "nat list"

type_synonym 'w cli_result = "(go_error option \<times> string list \<times> Syncer \<times> 'w) option"
type_synonym 'w cli_run =
  "(string \<Rightarrow> flag_value) \<Rightarrow> string list \<Rightarrow> go_ctx \<Rightarrow> Syncer \<Rightarrow> 'w \<Rightarrow> 'w cli_result"

definition line :: "string list \<Rightarrow> string" where
  "line parts = concat parts @ [CHR 0x0A]"

definition show_bool :: "bool \<Rightarrow> string" where
  "show_bool b = (if b then ''true'' else ''false'')"

text \<open>The verb \<open>%v\<close> on an error.\<close>

definition show_err :: "go_error option \<Rightarrow> string" where
  "show_err err = (case err of None \<Rightarrow> ''<nil>'' | Some e \<Rightarrow> err_text e)"

section \<open>The selected models\<close>

definition syncerFromOptions :: "CobraOpsOptions \<Rightarrow> go_error option" where
  "syncerFromOptions opts =
     (if \<not> cob_Syncer opts then Some (Err ''essyncer cobra ops: Syncer is required'') else None)"

definition unknown_model :: "(string \<Rightarrow> string) \<Rightarrow> (string \<times> string) list \<Rightarrow> string \<Rightarrow> go_error" where
  "unknown_model quote registry arg =
     Err (''unknown model '' @ quote arg @ '' (available: ''
       @ concat (intersperse '', '' (sort (map fst registry))) @ '')'')"

fun resolve_loop ::
  "(string \<Rightarrow> string) \<Rightarrow> (string \<times> string) list \<Rightarrow> string list \<Rightarrow> string list \<Rightarrow> go_error + string list" where
  "resolve_loop quote registry [] models = Inr models"
| "resolve_loop quote registry (arg # args) models =
     (case map_of registry arg of
        None \<Rightarrow> Inl (unknown_model quote registry arg)
      | Some model \<Rightarrow> resolve_loop quote registry args (models @ [model]))"

definition resolveCommandModels ::
  "(string \<Rightarrow> string) \<Rightarrow> (string \<times> string) list \<Rightarrow> string list \<Rightarrow> go_error + string list" where
  "resolveCommandModels quote registry args =
     (if args = [] then Inr []
      else if registry = [] then Inl (Err ''model registry is required when selecting models by name'')
      else resolve_loop quote registry args [])"

definition resolveCommandModel ::
  "(string \<Rightarrow> string) \<Rightarrow> (string \<times> string) list \<Rightarrow> string \<Rightarrow> go_error + string" where
  "resolveCommandModel quote registry name =
     (case resolveCommandModels quote registry [name] of Inl err \<Rightarrow> Inl err | Inr models \<Rightarrow> Inr (models ! 0))"

section \<open>What the commands do\<close>

definition cli_quote :: "('w, 'c) cli_env \<Rightarrow> string \<Rightarrow> string" where
  "cli_quote env = fmt_quote (cl_fs env)"

definition cli_FullSync ::
  "('w, 'c) cli_env \<Rightarrow> go_ctx \<Rightarrow> string list \<Rightarrow> Syncer \<Rightarrow> 'w \<Rightarrow> (FullSyncResult list \<times> Syncer \<times> 'w) option" where
  "cli_FullSync env ctx models s w =
     FullSync (cl_fs env) (cl_own env) (cl_types env) ctx (cl_body env) (cl_schedule env) models s w"

definition full_sync_line :: "FullSyncResult \<Rightarrow> string" where
  "full_sync_line r =
     (case fsr_Err r of
        Some err \<Rightarrow> line [fsr_Table r, '' error='', err_text err]
      | None \<Rightarrow> line [fsr_Table r, '' synced='', show_int (fsr_TotalSynced r), '' alias='', fsr_IndexName r])"

definition run_full_sync :: "('w, 'c) cli_env \<Rightarrow> CobraOpsOptions \<Rightarrow> 'w cli_run" where
  "run_full_sync env opts flags args ctx s w =
     (let checkpoint = as_int (flags ''checkpoint'')
      in case syncerFromOptions opts of
           Some err \<Rightarrow> Some (Some err, [], s, w)
         | None \<Rightarrow>
       (case resolveCommandModels (cli_quote env) (cob_Models opts) args of
          Inl err \<Rightarrow> Some (Some err, [], s, w)
        | Inr models \<Rightarrow>
            if checkpoint \<noteq> 0
            then if length models \<noteq> 1
                 then Some (Some (Err ''checkpoint full sync requires exactly one model''), [], s, w)
                 else (case FullSyncWithCheckpoint (cl_fs env) (cl_own env) (cl_types env) ctx (models ! 0)
                            checkpoint s w of
                         None \<Rightarrow> None
                       | Some ((synced, Some err), s, w) \<Rightarrow> Some (Some err, [], s, w)
                       | Some ((synced, None), s, w) \<Rightarrow>
                           Some (None, [line [''full-sync checkpoint synced='', show_int synced]], s, w))
            else (case cli_FullSync env ctx models s w of
                    None \<Rightarrow> None
                  | Some (results, s, w) \<Rightarrow> Some (None, map full_sync_line results, s, w))))"

text \<open>The part that the enqueueing commands end with.\<close>

definition drain_after ::
  "('w, 'c) cli_env \<Rightarrow> bool \<Rightarrow> string \<Rightarrow> go_ctx \<Rightarrow> Syncer \<Rightarrow> 'w \<Rightarrow> 'w cli_result" where
  "drain_after env drain enqueued ctx s w =
     (if drain
      then (case DrainOutbox (cl_fs env) ctx 0 s w of
              None \<Rightarrow> None
            | Some ((result, Some err), s, w) \<Rightarrow> Some (Some err, [enqueued], s, w)
            | Some ((result, None), s, w) \<Rightarrow>
                Some (None, [enqueued,
                  line [''drain processed='', show_int (dr_Processed result), '' retried='',
                        show_int (dr_Retried result), '' dead='', show_int (dr_Dead result),
                        '' remaining='', show_int (dr_Remaining result)]], s, w))
      else Some (None, [enqueued], s, w))"

definition run_doc_enqueue :: "('w, 'c) cli_env \<Rightarrow> CobraOpsOptions \<Rightarrow> string \<Rightarrow> 'w cli_run" where
  "run_doc_enqueue env opts action flags args ctx s w =
     (let modelName = as_string (flags ''model''); pk = as_string (flags ''pk'');
          unscoped = as_bool (flags ''unscoped'')
      in case syncerFromOptions opts of
           Some err \<Rightarrow> Some (Some err, [], s, w)
         | None \<Rightarrow>
       (case resolveCommandModel (cli_quote env) (cob_Models opts) modelName of
          Inl err \<Rightarrow> Some (Some err, [], s, w)
        | Inr model \<Rightarrow>
            let (err, s, w) =
              (if action = actionIndex
               then EnqueueDocumentCreate (cl_doc env) (cl_types env) ctx (Some model) pk unscoped s w
               else if action = actionUpdate
               then EnqueueDocumentUpdate (cl_doc env) (cl_types env) ctx (Some model) pk unscoped s w
               else (Some (Err (''unsupported document enqueue action '' @ cli_quote env action)), s, w))
            in case err of
                 Some err \<Rightarrow> Some (Some err, [], s, w)
               | None \<Rightarrow>
                   drain_after env (as_bool (flags ''drain''))
                     (line [''enqueued model='', modelName, '' action='', action, '' pk='', pk]) ctx s w))"

definition run_doc_delete :: "('w, 'c) cli_env \<Rightarrow> CobraOpsOptions \<Rightarrow> 'w cli_run" where
  "run_doc_delete env opts flags args ctx s w =
     (let modelName = as_string (flags ''model''); pk = as_string (flags ''pk'');
          docID = as_string (flags ''id'')
      in case syncerFromOptions opts of
           Some err \<Rightarrow> Some (Some err, [], s, w)
         | None \<Rightarrow>
       (case resolveCommandModel (cli_quote env) (cob_Models opts) modelName of
          Inl err \<Rightarrow> Some (Some err, [], s, w)
        | Inr model \<Rightarrow>
            if pk = [] \<and> docID = [] then Some (Some (Err ''either --pk or --id is required''), [], s, w)
            else (case EnqueueDocumentDelete (cl_doc env) (cl_types env) ctx (Some model) pk docID
                         (as_bool (flags ''unscoped'')) s w of
                    (Some err, s, w) \<Rightarrow> Some (Some err, [], s, w)
                  | (None, s, w) \<Rightarrow>
                      drain_after env (as_bool (flags ''drain''))
                        (line [''enqueued model='', modelName, '' action=delete id='', docID, '' pk='', pk])
                        ctx s w)))"

definition run_doc_get :: "('w, 'c) cli_env \<Rightarrow> CobraOpsOptions \<Rightarrow> 'w cli_run" where
  "run_doc_get env opts flags args ctx s w =
     (case syncerFromOptions opts of
        Some err \<Rightarrow> Some (Some err, [], s, w)
      | None \<Rightarrow>
     (case resolveCommandModel (cli_quote env) (cob_Models opts) (as_string (flags ''model'')) of
        Inl err \<Rightarrow> Some (Some err, [], s, w)
      | Inr model \<Rightarrow>
          (case InspectDocument (cl_doc env) (cl_types env) ctx (Some model) (as_string (flags ''pk''))
                  (as_string (flags ''id'')) (as_bool (flags ''unscoped'')) s w of
             (Inl err, w) \<Rightarrow> Some (Some err, [], s, w)
           | (Inr r, w) \<Rightarrow>
               Some (None, [line [''model='', di_Model r, '' table='', di_Table r, '' alias='', di_Alias r,
                  '' doc='', di_DocumentID r, '' db_found='', show_bool (di_DBFound r),
                  '' es_found='', show_bool (di_ESFound r), '' outbox_pending='', show_int (di_OutboxPending r),
                  '' outbox_dead='', show_int (di_OutboxDead r),
                  '' last_dead_error='', cli_quote env (di_LastDeadError r)]], s, w))))"

definition outbox_line :: "(string \<Rightarrow> string) \<Rightarrow> OutboxEvent \<Rightarrow> string" where
  "outbox_line quote row =
     line [''id='', show_int (ev_ID row), '' status='', ev_Status row, '' action='', ev_Action row,
           '' alias='', ev_IndexAlias row, '' doc='', ev_DocumentID row,
           '' attempts='', show_int (ev_Attempts row), '' last_error='', quote (ev_LastError row)]"

definition run_outbox_list :: "('w, 'c) cli_env \<Rightarrow> CobraOpsOptions \<Rightarrow> 'w cli_run" where
  "run_outbox_list env opts flags args ctx s w =
     (case syncerFromOptions opts of
        Some err \<Rightarrow> Some (Some err, [], s, w)
      | None \<Rightarrow>
          (case ListOutbox (cl_fs env) (cl_lower env) ctx
                  \<lparr>lo_Statuses = as_strings (flags ''status''), lo_Limit = as_int (flags ''limit'')\<rparr> s w of
             (Inl err, s, w) \<Rightarrow> Some (Some err, [], s, w)
           | (Inr rows, s, w) \<Rightarrow> Some (None, map (outbox_line (cli_quote env)) rows, s, w)))"

definition run_outbox_cleanup :: "('w, 'c) cli_env \<Rightarrow> CobraOpsOptions \<Rightarrow> 'w cli_run" where
  "run_outbox_cleanup env opts flags args ctx s w =
     (case syncerFromOptions opts of
        Some err \<Rightarrow> Some (Some err, [], s, w)
      | None \<Rightarrow>
          (case CleanupOutbox (cl_fs env) (cl_lower env) ctx
                  \<lparr>co_Statuses = as_strings (flags ''status''), co_OlderThan = as_int (flags ''older-than''),
                   co_Limit = as_int (flags ''limit'')\<rparr> s w of
             ((affected, Some err), s, w) \<Rightarrow> Some (Some err, [], s, w)
           | ((affected, None), s, w) \<Rightarrow> Some (None, [line [''deleted='', show_int affected]], s, w)))"

definition run_outbox_replay :: "('w, 'c) cli_env \<Rightarrow> CobraOpsOptions \<Rightarrow> 'w cli_run" where
  "run_outbox_replay env opts flags args ctx s w =
     (case syncerFromOptions opts of
        Some err \<Rightarrow> Some (Some err, [], s, w)
      | None \<Rightarrow>
          (case ReplayOutbox (cl_fs env) ctx
                  \<lparr>ro_IDs = as_ints (flags ''id''), ro_AllDead = as_bool (flags ''all-dead''),
                   ro_Limit = as_int (flags ''limit'')\<rparr> s w of
             ((affected, Some err), s, w) \<Rightarrow> Some (Some err, [], s, w)
           | ((affected, None), s, w) \<Rightarrow> Some (None, [line [''replayed='', show_int affected]], s, w)))"

definition run_relay_drain :: "('w, 'c) cli_env \<Rightarrow> CobraOpsOptions \<Rightarrow> 'w cli_run" where
  "run_relay_drain env opts flags args ctx s w =
     (case syncerFromOptions opts of
        Some err \<Rightarrow> Some (Some err, [], s, w)
      | None \<Rightarrow>
          (case DrainOutbox (cl_fs env) ctx (as_int (flags ''max-batches'')) s w of
             None \<Rightarrow> None
           | Some ((result, Some err), s, w) \<Rightarrow> Some (Some err, [], s, w)
           | Some ((result, None), s, w) \<Rightarrow>
               Some (None, [line [''batches='', show_int (dr_Batches result),
                  '' claimed='', show_int (dr_Claimed result), '' processed='', show_int (dr_Processed result),
                  '' retried='', show_int (dr_Retried result), '' dead='', show_int (dr_Dead result),
                  '' remaining='', show_int (dr_Remaining result)]], s, w)))"

section \<open>Reconciling\<close>

definition reconcile_line :: "ReconcileCountResult \<Rightarrow> string" where
  "reconcile_line r =
     (case rc_Err r of
        Some err \<Rightarrow> line [rc_Model r, '' error='', err_text err]
      | None \<Rightarrow> line [rc_Model r, '' table='', rc_Table r, '' alias='', rc_Alias r,
                      '' db='', show_int (rc_DBCount r), '' es='', show_int (rc_ESCount r),
                      '' match='', show_bool (rc_Match r)])"

text \<open>The loop over the results with its index: the models that go to \<open>mismatched\<close>.\<close>

fun collect_mismatched ::
  "string list \<Rightarrow> nat \<Rightarrow> ReconcileCountResult list \<Rightarrow> string list \<Rightarrow> string list" where
  "collect_mismatched models i [] mismatched = mismatched"
| "collect_mismatched models i (r # results) mismatched =
     collect_mismatched models (i + 1) results
       (if rc_Err r \<noteq> None then mismatched
        else if \<not> rc_Match r \<and> models \<noteq> [] then mismatched @ [models ! i]
        else mismatched)"

definition repair_line :: "FullSyncResult \<Rightarrow> string" where
  "repair_line r =
     line [''repair '', fsr_Table r, '' synced='', show_int (fsr_TotalSynced r), '' err='', show_err (fsr_Err r)]"

definition reconcile_repair ::
  "('w, 'c) cli_env \<Rightarrow> string list \<Rightarrow> string list \<Rightarrow> go_ctx \<Rightarrow> Syncer \<Rightarrow> 'w
     \<Rightarrow> (FullSyncResult list \<times> Syncer \<times> 'w) option" where
  "reconcile_repair env args mismatched ctx s w =
     (if args = [] then cli_FullSync env ctx [] s w
      else if mismatched \<noteq> [] then cli_FullSync env ctx mismatched s w
      else Some ([], s, w))"

definition run_reconcile :: "('w, 'c) cli_env \<Rightarrow> CobraOpsOptions \<Rightarrow> 'w cli_run" where
  "run_reconcile env opts flags args ctx s w =
     (case syncerFromOptions opts of
        Some err \<Rightarrow> Some (Some err, [], s, w)
      | None \<Rightarrow>
     (case resolveCommandModels (cli_quote env) (cob_Models opts) args of
        Inl err \<Rightarrow> Some (Some err, [], s, w)
      | Inr models \<Rightarrow>
          (case ReconcileCounts (cl_fs env) (cl_types env) ctx models s w of
             (Inl err, w) \<Rightarrow> Some (Some err, [], s, w)
           | (Inr results, w) \<Rightarrow>
               if as_bool (flags ''repair'')
               then (case reconcile_repair env args (collect_mismatched models 0 results []) ctx s w of
                       None \<Rightarrow> None
                     | Some (repaired, s, w) \<Rightarrow>
                         Some (None, map reconcile_line results @ map repair_line repaired, s, w))
               else Some (None, map reconcile_line results, s, w))))"

section \<open>The command tree\<close>

definition newFullSyncCommand :: "('w, 'c) cli_env \<Rightarrow> CobraOpsOptions \<Rightarrow> 'w cli_run command" where
  "newFullSyncCommand env opts =
     Command ''full-sync [model ...]'' ''Run full sync for all or selected models''
       [flag ''checkpoint'' (FlagInt 0) ''start full sync from checkpoint for a single model'']
       (Some (run_full_sync env opts)) []"

definition newDocEnqueueCommand ::
  "('w, 'c) cli_env \<Rightarrow> CobraOpsOptions \<Rightarrow> string \<Rightarrow> string \<Rightarrow> string \<Rightarrow> 'w cli_run command" where
  "newDocEnqueueCommand env opts use' short action =
     Command use' short
       [MarkFlagRequired (flag ''model'' (FlagString []) ''registered model name''),
        MarkFlagRequired (flag ''pk'' (FlagString []) ''single primary key value''),
        flag ''unscoped'' (FlagBool False) ''load the database row with Unscoped'',
        flag ''drain'' (FlagBool False) ''run relay drain after enqueueing'']
       (Some (run_doc_enqueue env opts action)) []"

definition newDocCreateCommand :: "('w, 'c) cli_env \<Rightarrow> CobraOpsOptions \<Rightarrow> 'w cli_run command" where
  "newDocCreateCommand env opts =
     newDocEnqueueCommand env opts ''create'' ''Read the current DB row and enqueue an index action'' actionIndex"

definition newDocUpdateCommand :: "('w, 'c) cli_env \<Rightarrow> CobraOpsOptions \<Rightarrow> 'w cli_run command" where
  "newDocUpdateCommand env opts =
     newDocEnqueueCommand env opts ''update'' ''Read the current DB row and enqueue an update action'' actionUpdate"

definition newDocDeleteCommand :: "('w, 'c) cli_env \<Rightarrow> CobraOpsOptions \<Rightarrow> 'w cli_run command" where
  "newDocDeleteCommand env opts =
     Command ''delete'' ''Enqueue a delete action for a single document''
       [MarkFlagRequired (flag ''model'' (FlagString []) ''registered model name''),
        flag ''pk'' (FlagString []) ''single primary key value'',
        flag ''id'' (FlagString []) ''document id to delete directly'',
        flag ''unscoped'' (FlagBool False) ''load the database row with Unscoped when resolving --pk'',
        flag ''drain'' (FlagBool False) ''run relay drain after enqueueing'']
       (Some (run_doc_delete env opts)) []"

definition newDocGetCommand :: "('w, 'c) cli_env \<Rightarrow> CobraOpsOptions \<Rightarrow> 'w cli_run command" where
  "newDocGetCommand env opts =
     Command ''get'' ''Inspect DB, ES, and outbox state for a single document''
       [MarkFlagRequired (flag ''model'' (FlagString []) ''registered model name''),
        flag ''pk'' (FlagString []) ''single primary key value'',
        flag ''id'' (FlagString []) ''document id'',
        flag ''unscoped'' (FlagBool False) ''load the database row with Unscoped when resolving --pk'']
       (Some (run_doc_get env opts)) []"

definition newDocCommand :: "('w, 'c) cli_env \<Rightarrow> CobraOpsOptions \<Rightarrow> 'w cli_run command" where
  "newDocCommand env opts =
     Command ''doc'' ''Operate single-document repair workflows'' [] None
       [newDocCreateCommand env opts, newDocUpdateCommand env opts, newDocDeleteCommand env opts,
        newDocGetCommand env opts]"

definition newOutboxListCommand :: "('w, 'c) cli_env \<Rightarrow> CobraOpsOptions \<Rightarrow> 'w cli_run command" where
  "newOutboxListCommand env opts =
     Command ''list'' ''List outbox rows''
       [flag ''status'' (FlagStrings []) ''filter by outbox status'',
        flag ''limit'' (FlagInt 100) ''max rows to return'']
       (Some (run_outbox_list env opts)) []"

definition newOutboxCleanupCommand :: "('w, 'c) cli_env \<Rightarrow> CobraOpsOptions \<Rightarrow> 'w cli_run command" where
  "newOutboxCleanupCommand env opts =
     Command ''cleanup'' ''Delete matching outbox rows''
       [flag ''status'' (FlagStrings [OutboxStatusDead]) ''target statuses to delete'',
        flag ''older-than'' (FlagDuration 0) ''only delete rows older than this duration'',
        flag ''limit'' (FlagInt 0) ''max rows to delete'']
       (Some (run_outbox_cleanup env opts)) []"

definition newOutboxReplayCommand :: "('w, 'c) cli_env \<Rightarrow> CobraOpsOptions \<Rightarrow> 'w cli_run command" where
  "newOutboxReplayCommand env opts =
     Command ''replay'' ''Reset dead outbox rows back to pending''
       [flag ''id'' (FlagInts []) ''specific outbox ids to reset'',
        flag ''all-dead'' (FlagBool False) ''reset all dead rows'',
        flag ''limit'' (FlagInt 0) ''max rows to reset'']
       (Some (run_outbox_replay env opts)) []"

definition newOutboxCommand :: "('w, 'c) cli_env \<Rightarrow> CobraOpsOptions \<Rightarrow> 'w cli_run command" where
  "newOutboxCommand env opts =
     Command ''outbox'' ''Inspect and maintain outbox rows'' [] None
       [newOutboxListCommand env opts, newOutboxCleanupCommand env opts, newOutboxReplayCommand env opts]"

definition newRelayDrainCommand :: "('w, 'c) cli_env \<Rightarrow> CobraOpsOptions \<Rightarrow> 'w cli_run command" where
  "newRelayDrainCommand env opts =
     Command ''drain'' ''Process outbox rows until empty or batch limit''
       [flag ''max-batches'' (FlagInt 0) ''stop after this many batches (0 means drain until empty)'']
       (Some (run_relay_drain env opts)) []"

definition newRelayCommand :: "('w, 'c) cli_env \<Rightarrow> CobraOpsOptions \<Rightarrow> 'w cli_run command" where
  "newRelayCommand env opts =
     Command ''relay'' ''Operate the outbox relay'' [] None [newRelayDrainCommand env opts]"

definition newReconcileCommand :: "('w, 'c) cli_env \<Rightarrow> CobraOpsOptions \<Rightarrow> 'w cli_run command" where
  "newReconcileCommand env opts =
     Command ''reconcile [model ...]'' ''Compare DB row counts against ES alias counts''
       [flag ''repair'' (FlagBool False) ''run full sync for mismatched selected models'']
       (Some (run_reconcile env opts)) []"

definition NewOpsCommand :: "('w, 'c) cli_env \<Rightarrow> CobraOpsOptions \<Rightarrow> 'w cli_run command" where
  "NewOpsCommand env opts =
     (let use' = (if cob_Use opts = [] then ''essyncer'' else cob_Use opts);
          short = (if cob_Short opts = [] then ''Operate essyncer maintenance workflows'' else cob_Short opts)
      in Command use' short [] None
           [newFullSyncCommand env opts, newDocCommand env opts, newOutboxCommand env opts,
            newRelayCommand env opts, newReconcileCommand env opts])"

section \<open>Facts\<close>

lemma resolve_loop_Inr:
  "resolve_loop quote registry args models = Inr out \<longleftrightarrow>
     (\<exists>found. map (map_of registry) args = map Some found \<and> out = models @ found)"
proof (induction args arbitrary: models)
  case Nil
  then show ?case by auto
next
  case (Cons arg args)
  show ?case
  proof (cases "map_of registry arg")
    case None
    then show ?thesis by (auto simp: map_eq_Cons_conv)
  next
    case (Some model)
    with Cons show ?thesis by (auto simp: map_eq_Cons_conv)
  qed
qed

lemma resolve_loop_Inl:
  "resolve_loop quote registry args models = Inl err \<longleftrightarrow>
     (\<exists>arg. find (\<lambda>a. map_of registry a = None) args = Some arg \<and> err = unknown_model quote registry arg)"
  by (induction args arbitrary: models) (auto split: option.split)

lemma collect_mismatched_zip:
  "models \<noteq> [] \<Longrightarrow> i + length results \<le> length models \<Longrightarrow>
     collect_mismatched models i results acc =
       acc @ map fst (filter (\<lambda>(m, r). rc_Err r = None \<and> \<not> rc_Match r) (zip (drop i models) results))"
proof (induction results arbitrary: i acc)
  case Nil
  then show ?case by simp
next
  case (Cons r results)
  then have "drop i models = models ! i # drop (i + 1) models"
    by (simp add: Cons_nth_drop_Suc)
  with Cons show ?case by simp
qed

lemma entries_of_distinct:
  "map (getByModel mt r) models = map Some entries \<Longrightarrow> distinct (map me_tableName entries) \<Longrightarrow>
     set (map me_tableName entries) \<inter> set seen = {} \<Longrightarrow>
     entriesForModels_loop mt r models seen es = Inr (es @ entries)"
proof (induction models arbitrary: entries seen es)
  case Nil
  then show ?case by simp
next
  case (Cons m models)
  then obtain e entries' where e: "entries = e # entries'" "getByModel mt r m = Some e"
    "map (getByModel mt r) models = map Some entries'"
    by (auto simp: Cons_eq_map_conv)
  with Cons.prems have "entriesForModels_loop mt r models (me_tableName e # seen) (es @ [e]) = Inr ((es @ [e]) @ entries')"
    by (intro Cons.IH) auto
  with Cons.prems e show ?case by (auto simp: disjoint_iff)
qed

lemma normalize_dead [simp]: "normalizeOutboxStatuses lower [OutboxStatusDead] = [OutboxStatusDead]"
proof -
  have "TrimSpace OutboxStatusDead = OutboxStatusDead" "OutboxStatusDead \<noteq> []" by code_simp+
  moreover have "ToLower lower OutboxStatusDead = OutboxStatusDead"
    by (simp add: ToLower_def ascii_lower_def OutboxStatusDead_def)
  ultimately show ?thesis by (simp add: normalizeOutboxStatuses_def)
qed

text \<open>All the runs of a tree of commands.\<close>

lemmas command_defs = NewOpsCommand_def newFullSyncCommand_def newDocCommand_def newDocCreateCommand_def
  newDocUpdateCommand_def newDocEnqueueCommand_def newDocDeleteCommand_def newDocGetCommand_def
  newOutboxCommand_def newOutboxListCommand_def newOutboxCleanupCommand_def newOutboxReplayCommand_def
  newRelayCommand_def newRelayDrainCommand_def newReconcileCommand_def

lemmas run_defs = run_full_sync_def run_doc_enqueue_def run_doc_delete_def run_doc_get_def
  run_outbox_list_def run_outbox_cleanup_def run_outbox_replay_def run_relay_drain_def run_reconcile_def

section \<open>A reference environment\<close>

text \<open>
  Three models \<open>A\<close>, \<open>B\<close> and \<open>C\<close>; the database counts two rows in each table and Elasticsearch two
  documents under each alias but \<open>b\<close>.  A copy by a worker reports two rows.
\<close>

definition cli_types :: model_types where
  "cli_types =
     \<lparr>mt_parse = (\<lambda>m. Inr \<lparr>sch_Table = ''t'' @ m, sch_PrimaryFields = [], sch_Fields = []\<rparr>),
      mt_type = TOther, mt_TableName = (\<lambda>m. None)\<rparr>"

definition cli_entry :: "string \<Rightarrow> string \<Rightarrow> modelEntry" where
  "cli_entry m alias =
     (article_entry 10)\<lparr>me_modelType := m, me_tableName := ''t'' @ m, me_indexName := alias\<rparr>"

definition cli_syncer :: Syncer where
  "cli_syncer = relay_syncer\<lparr>sy_registry :=
     [(''tA'', cli_entry ''A'' ''a''), (''tB'', cli_entry ''B'' ''b''), (''tC'', cli_entry ''C'' ''c'')]\<rparr>"

definition mem_cli :: "(fs_world, unit) cli_env" where
  "mem_cli =
     \<lparr>cl_fs = (mem_fs ())\<lparr>tbl_count := \<lambda>ctx t u w. (Inr 2, w),
        es_count := \<lambda>ctx alias w. (Inr \<lparr>cr_IsError = False, cr_Status = ''200 OK'',
          cr_payload = Inr (if alias = ''b'' then 1 else 2)\<rparr>, w)\<rparr>,
      cl_doc = mem_db (doc_env_ext (\<lambda>ctx t u col v w. (Inl ErrRecordNotFound, w))
        (\<lambda>ctx i d w. (Inl ErrRecordNotFound, w)) (\<lambda>m. None) id ()),
      cl_own = no_own_scans, cl_types = cli_types, cl_lower = id,
      cl_body = (\<lambda>e s w. Some (Returned (2, None), s, w)), cl_schedule = [0, 0, 0]\<rparr>"

definition cli_options :: "CobraOpsOptions" where
  "cli_options = \<lparr>cob_Use = [], cob_Short = [], cob_Syncer = True,
     cob_Models = [(''A'', ''A''), (''B'', ''B''), (''C'', ''C'')]\<rparr>"

definition repair_flag :: "string \<Rightarrow> flag_value" where
  "repair_flag = flag_values (cmd_Flags (newReconcileCommand mem_cli cli_options)) [(''repair'', FlagBool True)]"

section \<open>Properties\<close>

text \<open>
  No command runs without a syncer: every command of the tree that can be run returns the same
  error then, before it writes a line or touches the database or Elasticsearch.
\<close>

lemma commands_need_syncer:
  assumes "\<not> cob_Syncer opts" "run \<in> set_command (NewOpsCommand env opts)"
  shows "run flags args ctx s w = Some (Some (Err ''essyncer cobra ops: Syncer is required''), [], s, w)"
  using assms by (auto simp: command_defs run_defs syncerFromOptions_def Let_def)

lemma commands_need_syncer_witness:
  "run_relay_drain mem_cli (cli_options\<lparr>cob_Syncer := False\<rparr>) repair_flag [] Background cli_syncer
       (article_world [] False)
     = Some (Some (Err ''essyncer cobra ops: Syncer is required''), [], cli_syncer, article_world [] False)"
  by (rule commands_need_syncer [where env = mem_cli and opts = "cli_options\<lparr>cob_Syncer := False\<rparr>"])
    (auto simp: command_defs)

text \<open>
  Model names are resolved in order, all of them: the result has one model for each name, and
  otherwise the error names the first unknown name with the sorted list of the known ones.
\<close>

lemma resolveCommandModels_spec:
  "(resolveCommandModels quote registry args = Inr models \<longleftrightarrow>
      args = [] \<and> models = [] \<or> registry \<noteq> [] \<and> map (map_of registry) args = map Some models)
   \<and> (resolveCommandModels quote registry args = Inl err \<longleftrightarrow>
      args \<noteq> [] \<and> (if registry = [] then err = Err ''model registry is required when selecting models by name''
        else \<exists>arg. find (\<lambda>a. map_of registry a = None) args = Some arg \<and> err = unknown_model quote registry arg))"
  by (auto simp: resolveCommandModels_def resolve_loop_Inr resolve_loop_Inl)

lemma resolveCommandModels_spec_witness:
  "resolveCommandModels id [(''B'', ''b''), (''A'', ''a'')] [''A'', ''C'', ''D'']
     = Inl (unknown_model id [(''B'', ''b''), (''A'', ''a'')] ''C'')"
  by (subst resolveCommandModels_spec [THEN conjunct2]) simp



text \<open>
  A model that is named twice shifts the results against the names: of \<open>A\<close>, \<open>A\<close> and \<open>B\<close>, where only
  \<open>B\<close> is mismatched, \<open>A\<close> is rebuilt and \<open>B\<close> is left as it is.
\<close>

lemma repair_of_repeated_model:
  "map_option (\<lambda>(err, out, s, w). (err, out))
     (run_reconcile mem_cli cli_options repair_flag [''A'', ''A'', ''B''] Background cli_syncer (article_world [] False))
   = Some (None,
       [line [''A table=tA alias=a db=2 es=2 match=true''], line [''B table=tB alias=b db=2 es=1 match=false''],
        line [''repair tA synced=2 err=<nil>'']])"
  by code_simp

text \<open>Without names every model is rebuilt, the matching ones too.\<close>

lemma repair_without_names:
  "map_option (\<lambda>(err, out, s, w). (err, drop 3 out))
     (run_reconcile mem_cli cli_options repair_flag [] Background cli_syncer (article_world [] False))
   = Some (None, [line [''repair tA synced=2 err=<nil>''], line [''repair tB synced=2 err=<nil>''],
        line [''repair tC synced=2 err=<nil>'']])"
  by code_simp

text \<open>
  The cleanup command without flags removes the dead rows and nothing else, and prints how many
  there were.
\<close>

lemma cleanup_default_removes_dead:
  assumes "outbox_table (cl_fs env) rows cell"
    and "run_outbox_cleanup env opts (flag_values (cmd_Flags (newOutboxCleanupCommand env opts)) []) args ctx s w
      = Some (None, out, s', w')"
  shows "rows w' = filter (\<lambda>r. ev_Status r \<noteq> OutboxStatusDead) (rows w)
    \<and> out = [line [''deleted='', show_int (matched_rows (\<lambda>r. ev_Status r = OutboxStatusDead) (rows w))]]"
proof -
  let ?o = "\<lparr>co_Statuses = [OutboxStatusDead], co_OlderThan = 0, co_Limit = 0\<rparr>"
  have flags: "flag_values (cmd_Flags (newOutboxCleanupCommand env opts)) [] ''status'' = FlagStrings [OutboxStatusDead]"
    "flag_values (cmd_Flags (newOutboxCleanupCommand env opts)) [] ''older-than'' = FlagDuration 0"
    "flag_values (cmd_Flags (newOutboxCleanupCommand env opts)) [] ''limit'' = FlagInt 0"
    by (simp_all add: newOutboxCleanupCommand_def flag_values_def flag_def)
  obtain n where run: "CleanupOutbox (cl_fs env) (cl_lower env) ctx ?o s w = ((n, None), s', w')"
    "out = [line [''deleted='', show_int n]]"
    using assms(2) by (auto simp: run_outbox_cleanup_def flags split: option.splits prod.splits)
  from outbox_table.CleanupOutbox_effect [OF assms(1) run(1) refl refl] normalize_dead
  obtain gone where "filter (\<lambda>r. ev_Status r = OutboxStatusDead) (rows w) = gone"
    "n = int (length gone)" "rows w' = filter (\<lambda>r. r \<notin> set gone) (rows w)"
    by auto
  with run(2) show ?thesis by (auto simp: matched_rows_def intro!: filter_cong)
qed

lemma cleanup_default_removes_dead_witness:
  "\<exists>out s' w'. run_outbox_cleanup mem_cli cli_options
        (flag_values (cmd_Flags (newOutboxCleanupCommand mem_cli cli_options)) []) [] Background cli_syncer
        ((article_world [] False)\<lparr>mw_table := [sample_with 1 OutboxStatusDead, sample_row 2]\<rparr>)
      = Some (None, out, s', w') \<and> map ev_ID (mem_rows w') = [2]"
proof -
  let ?w = "(article_world [] False)\<lparr>mw_table := [sample_with 1 OutboxStatusDead, sample_row 2]\<rparr>"
  let ?run = "run_outbox_cleanup mem_cli cli_options
    (flag_values (cmd_Flags (newOutboxCleanupCommand mem_cli cli_options)) []) [] Background cli_syncer ?w"
  have "map_option fst ?run = Some None" by code_simp
  then obtain out s' w' where run: "?run = Some (None, out, s', w')" by (cases ?run) auto
  have "outbox_table (mem_fs () :: fs_world fs_env) mem_rows datetime_cell"
    unfolding mem_fs_def mem_relay_def by (rule mem.outbox_table_axioms)
  then have table: "outbox_table (cl_fs mem_cli) mem_rows datetime_cell"
    by (simp add: outbox_table_def mem_cli_def)
  have "map ev_ID (filter (\<lambda>r. ev_Status r \<noteq> OutboxStatusDead) (mem_rows ?w)) = [2]" by code_simp
  with cleanup_default_removes_dead [OF table run] run show ?thesis by auto
qed

end
