(* ===== verification/Searcher.thy ===== *)
theory Searcher imports Strconv "HOL-Library.AList" begin

text \<open>
  The query builders and the typed search of the package \<open>searcher\<close> (\<open>query.go\<close>, \<open>agg.go\<close>,
  \<open>search.go\<close>, \<open>result.go\<close>).

  The client's query and aggregation structs are data of a library: the constructors below are the
  values that the source builds of them, \<open>OtherQuery\<close> and \<open>OtherAggregation\<close> what a caller builds
  by other means (by its JSON).  A builder is its value: the source returns the receiver of each call,
  and queries are read when they are built (\<open>SharedBuilders\<close> has what changes when a \<open>BoolBuilder\<close> is
  used after \<open>Build\<close>).  A \<open>float64\<close> is its IEEE bit pattern.
\<close>

section \<open>Queries\<close>

type_synonym float64 = "64 word"

datatype field_value = StringValue string | IntValue int | OtherValue string

record NumberRangeQuery =
  nr_Gt :: "float64 option"
  nr_Gte :: "float64 option"
  nr_Lt :: "float64 option"
  nr_Lte :: "float64 option"

record DateRangeQuery =
  dr_Gt :: "string option"
  dr_Gte :: "string option"
  dr_Lt :: "string option"
  dr_Lte :: "string option"
  dr_Format :: "string option"

datatype query =
    MatchAllQuery
  | MatchQuery string string
  | MatchPhraseQuery string string
  | MultiMatchQuery string "string list"
  | TermQuery string field_value
  | ExistsQuery string
  | WildcardQuery string string
  | PrefixQuery string string
  | NumberRange string NumberRangeQuery
  | DateRange string DateRangeQuery
  | BoolQuery (bq_Must: "query list") (bq_Should: "query list") (bq_MustNot: "query list")
      (bq_Filter: "query list") (bq_MinimumShouldMatch: "string option")
  | OtherQuery string

definition MatchAll :: query where
  "MatchAll = MatchAllQuery"

definition Match :: "string \<Rightarrow> string \<Rightarrow> query" where
  "Match field text = MatchQuery field text"

definition MatchPhrase :: "string \<Rightarrow> string \<Rightarrow> query" where
  "MatchPhrase field text = MatchPhraseQuery field text"

definition MultiMatch :: "string \<Rightarrow> string list \<Rightarrow> query" where
  "MultiMatch text fields' = MultiMatchQuery text fields'"

definition Term :: "string \<Rightarrow> string \<Rightarrow> query" where
  "Term field value = TermQuery field (StringValue value)"

definition TermInt :: "string \<Rightarrow> int \<Rightarrow> query" where
  "TermInt field value = TermQuery field (IntValue value)"

definition Exists :: "string \<Rightarrow> query" where
  "Exists field = ExistsQuery field"

definition Wildcard :: "string \<Rightarrow> string \<Rightarrow> query" where
  "Wildcard field pattern = WildcardQuery field pattern"

definition Prefix :: "string \<Rightarrow> string \<Rightarrow> query" where
  "Prefix field pre = PrefixQuery field pre"

text \<open>The range builders: the field and the query so far.\<close>

record NumRangeBuilder =
  nb_field :: string
  nb_q :: NumberRangeQuery

record DateRangeBuilder =
  db_field :: string
  db_q :: DateRangeQuery

definition RangeNum :: "string \<Rightarrow> NumRangeBuilder" where
  "RangeNum field = \<lparr>nb_field = field, nb_q = \<lparr>nr_Gt = None, nr_Gte = None, nr_Lt = None, nr_Lte = None\<rparr>\<rparr>"

definition num_Gt :: "float64 \<Rightarrow> NumRangeBuilder \<Rightarrow> NumRangeBuilder" where
  "num_Gt v b = b\<lparr>nb_q := (nb_q b)\<lparr>nr_Gt := Some v\<rparr>\<rparr>"

definition num_Gte :: "float64 \<Rightarrow> NumRangeBuilder \<Rightarrow> NumRangeBuilder" where
  "num_Gte v b = b\<lparr>nb_q := (nb_q b)\<lparr>nr_Gte := Some v\<rparr>\<rparr>"

definition num_Lt :: "float64 \<Rightarrow> NumRangeBuilder \<Rightarrow> NumRangeBuilder" where
  "num_Lt v b = b\<lparr>nb_q := (nb_q b)\<lparr>nr_Lt := Some v\<rparr>\<rparr>"

definition num_Lte :: "float64 \<Rightarrow> NumRangeBuilder \<Rightarrow> NumRangeBuilder" where
  "num_Lte v b = b\<lparr>nb_q := (nb_q b)\<lparr>nr_Lte := Some v\<rparr>\<rparr>"

definition num_Build :: "NumRangeBuilder \<Rightarrow> query" where
  "num_Build b = NumberRange (nb_field b) (nb_q b)"

definition RangeDate :: "string \<Rightarrow> DateRangeBuilder" where
  "RangeDate field = \<lparr>db_field = field,
     db_q = \<lparr>dr_Gt = None, dr_Gte = None, dr_Lt = None, dr_Lte = None, dr_Format = None\<rparr>\<rparr>"

definition date_Gt :: "string \<Rightarrow> DateRangeBuilder \<Rightarrow> DateRangeBuilder" where
  "date_Gt v b = b\<lparr>db_q := (db_q b)\<lparr>dr_Gt := Some v\<rparr>\<rparr>"

definition date_Gte :: "string \<Rightarrow> DateRangeBuilder \<Rightarrow> DateRangeBuilder" where
  "date_Gte v b = b\<lparr>db_q := (db_q b)\<lparr>dr_Gte := Some v\<rparr>\<rparr>"

definition date_Lt :: "string \<Rightarrow> DateRangeBuilder \<Rightarrow> DateRangeBuilder" where
  "date_Lt v b = b\<lparr>db_q := (db_q b)\<lparr>dr_Lt := Some v\<rparr>\<rparr>"

definition date_Lte :: "string \<Rightarrow> DateRangeBuilder \<Rightarrow> DateRangeBuilder" where
  "date_Lte v b = b\<lparr>db_q := (db_q b)\<lparr>dr_Lte := Some v\<rparr>\<rparr>"

definition date_Format :: "string \<Rightarrow> DateRangeBuilder \<Rightarrow> DateRangeBuilder" where
  "date_Format f b = b\<lparr>db_q := (db_q b)\<lparr>dr_Format := Some f\<rparr>\<rparr>"

definition date_Build :: "DateRangeBuilder \<Rightarrow> query" where
  "date_Build b = DateRange (db_field b) (db_q b)"

text \<open>The builder of a nested query: the clauses so far.\<close>

record BoolBuilder =
  bb_Must :: "query list"
  bb_Should :: "query list"
  bb_MustNot :: "query list"
  bb_Filter :: "query list"

definition Bool :: BoolBuilder where
  "Bool = \<lparr>bb_Must = [], bb_Should = [], bb_MustNot = [], bb_Filter = []\<rparr>"

definition bool_Must :: "query list \<Rightarrow> BoolBuilder \<Rightarrow> BoolBuilder" where
  "bool_Must queries b = b\<lparr>bb_Must := bb_Must b @ queries\<rparr>"

definition bool_Should :: "query list \<Rightarrow> BoolBuilder \<Rightarrow> BoolBuilder" where
  "bool_Should queries b = b\<lparr>bb_Should := bb_Should b @ queries\<rparr>"

definition bool_MustNot :: "query list \<Rightarrow> BoolBuilder \<Rightarrow> BoolBuilder" where
  "bool_MustNot queries b = b\<lparr>bb_MustNot := bb_MustNot b @ queries\<rparr>"

definition bool_Filter :: "query list \<Rightarrow> BoolBuilder \<Rightarrow> BoolBuilder" where
  "bool_Filter queries b = b\<lparr>bb_Filter := bb_Filter b @ queries\<rparr>"

definition bool_Build :: "BoolBuilder \<Rightarrow> query" where
  "bool_Build b = BoolQuery (bb_Must b) (bb_Should b) (bb_MustNot b) (bb_Filter b) None"

section \<open>Aggregations\<close>

datatype aggregation =
    TermsAggregation string int
  | DateHistogramAggregation string string
  | HistogramAggregation string float64
  | AverageAggregation string
  | SumAggregation string
  | MinAggregation string
  | MaxAggregation string
  | CardinalityAggregation string
  | OtherAggregation string

definition TermsAgg :: "string \<Rightarrow> int \<Rightarrow> aggregation" where
  "TermsAgg field sz = TermsAggregation field sz"

definition DateHistogramAgg :: "string \<Rightarrow> string \<Rightarrow> aggregation" where
  "DateHistogramAgg field calendarInterval = DateHistogramAggregation field calendarInterval"

definition HistogramAgg :: "string \<Rightarrow> float64 \<Rightarrow> aggregation" where
  "HistogramAgg field interval = HistogramAggregation field interval"

definition AvgAgg :: "string \<Rightarrow> aggregation" where
  "AvgAgg field = AverageAggregation field"

definition SumAgg :: "string \<Rightarrow> aggregation" where
  "SumAgg field = SumAggregation field"

definition MinAgg :: "string \<Rightarrow> aggregation" where
  "MinAgg field = MinAggregation field"

definition MaxAgg :: "string \<Rightarrow> aggregation" where
  "MaxAgg field = MaxAggregation field"

definition CardinalityAgg :: "string \<Rightarrow> aggregation" where
  "CardinalityAgg field = CardinalityAggregation field"

section \<open>Requests and responses\<close>

text \<open>
  \<open>rq_Highlight\<close>: the keys of the map of highlighted fields, each with the default settings;
  \<open>rq_Source\<close>: the included and the excluded fields.
\<close>

record search_request =
  rq_Query :: query
  rq_From :: "int option"
  rq_Size :: "int option"
  rq_Sort :: "(string \<times> bool) list"
  rq_SearchAfter :: "field_value list"
  rq_Highlight :: "string list option"
  rq_Aggregations :: "(string \<times> aggregation) list"
  rq_Source :: "(string list \<times> string list) option"

record search_hit =
  hit_Id :: "string option"
  hit_Source :: string
  hit_Highlight :: "(string \<times> string list) list"

record search_response =
  sr_Total :: "int option"
  sr_MaxScore :: "float64 option"
  sr_ScrollId :: "string option"
  sr_Hits :: "search_hit list"
  sr_Aggregations :: "(string \<times> string) list"

type_synonym HitHighlight = "(string \<times> string list) list"

record 'a SearchResult =
  res_Total :: int
  res_Items :: "'a list"
  res_MaxScore :: "float64 option"
  res_ScrollID :: string
  res_Highlights :: "(string \<times> HitHighlight) list"

type_synonym AggResult = "(string \<times> string) list"

section \<open>The search builder\<close>

text \<open>
  \<open>ss_client\<close> is the address of the client, \<open>ss_type\<close> the type parameter, \<open>ss_sorts\<close> the fields with
  whether they ascend.
\<close>

record Search =
  ss_client :: "64 word"
  ss_type :: nat
  ss_index :: string
  ss_must :: "query list"
  ss_should :: "query list"
  ss_mustNot :: "query list"
  ss_filter :: "query list"
  ss_sorts :: "(string \<times> bool) list"
  ss_from :: "int option"
  ss_size :: "int option"
  ss_searchAfter :: "field_value list"
  ss_highlightFields :: "string list"
  ss_aggs :: "(string \<times> aggregation) list"
  ss_unscoped :: bool
  ss_minShouldMatch :: "int option"
  ss_includes :: "string list"
  ss_excludes :: "string list"
  ss_useSingleflight :: bool

definition NewSearch :: "nat \<Rightarrow> 64 word \<Rightarrow> string \<Rightarrow> Search" where
  "NewSearch T client index' =
     \<lparr>ss_client = client, ss_type = T, ss_index = index', ss_must = [], ss_should = [], ss_mustNot = [],
      ss_filter = [], ss_sorts = [], ss_from = None, ss_size = None, ss_searchAfter = [],
      ss_highlightFields = [], ss_aggs = [], ss_unscoped = False, ss_minShouldMatch = None,
      ss_includes = [], ss_excludes = [], ss_useSingleflight = False\<rparr>"

definition Must :: "query list \<Rightarrow> Search \<Rightarrow> Search" where
  "Must queries s = s\<lparr>ss_must := ss_must s @ queries\<rparr>"

definition Should :: "query list \<Rightarrow> Search \<Rightarrow> Search" where
  "Should queries s = s\<lparr>ss_should := ss_should s @ queries\<rparr>"

definition MustNot :: "query list \<Rightarrow> Search \<Rightarrow> Search" where
  "MustNot queries s = s\<lparr>ss_mustNot := ss_mustNot s @ queries\<rparr>"

definition Filter :: "query list \<Rightarrow> Search \<Rightarrow> Search" where
  "Filter queries s = s\<lparr>ss_filter := ss_filter s @ queries\<rparr>"

definition Where :: "query list \<Rightarrow> Search \<Rightarrow> Search" where
  "Where queries s = Filter queries s"

definition MinimumShouldMatch :: "int \<Rightarrow> Search \<Rightarrow> Search" where
  "MinimumShouldMatch n s = s\<lparr>ss_minShouldMatch := Some n\<rparr>"

definition Sort :: "string \<Rightarrow> bool \<Rightarrow> Search \<Rightarrow> Search" where
  "Sort field ascending s = s\<lparr>ss_sorts := ss_sorts s @ [(field, ascending)]\<rparr>"

definition Page :: "int \<Rightarrow> int \<Rightarrow> Search \<Rightarrow> Search" where
  "Page page pageSize s =
     (let page = (if page < 1 then 1 else page);
          pageSize = (if pageSize < 1 then 20 else pageSize)
      in s\<lparr>ss_from := Some (wrap64 ((page - 1) * pageSize)), ss_size := Some pageSize\<rparr>)"

definition Offset :: "int \<Rightarrow> int \<Rightarrow> Search \<Rightarrow> Search" where
  "Offset from' size' s = s\<lparr>ss_from := Some from', ss_size := Some size'\<rparr>"

definition SearchAfter :: "field_value list \<Rightarrow> Search \<Rightarrow> Search" where
  "SearchAfter values s = s\<lparr>ss_searchAfter := values\<rparr>"

definition Highlight :: "string list \<Rightarrow> Search \<Rightarrow> Search" where
  "Highlight fields' s = s\<lparr>ss_highlightFields := ss_highlightFields s @ fields'\<rparr>"

definition Agg :: "string \<Rightarrow> aggregation \<Rightarrow> Search \<Rightarrow> Search" where
  "Agg name agg s = s\<lparr>ss_aggs := AList.update name agg (ss_aggs s)\<rparr>"

definition Unscoped :: "Search \<Rightarrow> Search" where
  "Unscoped s = s\<lparr>ss_unscoped := True\<rparr>"

definition Select :: "string list \<Rightarrow> Search \<Rightarrow> Search" where
  "Select fields' s = s\<lparr>ss_includes := ss_includes s @ fields'\<rparr>"

definition Exclude :: "string list \<Rightarrow> Search \<Rightarrow> Search" where
  "Exclude fields' s = s\<lparr>ss_excludes := ss_excludes s @ fields'\<rparr>"

definition WithSingleflight :: "Search \<Rightarrow> Search" where
  "WithSingleflight s = s\<lparr>ss_useSingleflight := True\<rparr>"

definition buildQuery :: "Search \<Rightarrow> query" where
  "buildQuery s =
     BoolQuery (ss_must s) (ss_should s)
       (ss_mustNot s @ (if \<not> ss_unscoped s then [ExistsQuery ''deleted_at''] else []))
       (ss_filter s) (map_option show_int (ss_minShouldMatch s))"

definition buildRequest :: "Search \<Rightarrow> search_request" where
  "buildRequest s =
     \<lparr>rq_Query = buildQuery s, rq_From = ss_from s, rq_Size = ss_size s, rq_Sort = ss_sorts s,
      rq_SearchAfter = ss_searchAfter s,
      rq_Highlight = (if ss_highlightFields s \<noteq> [] then Some (remdups (ss_highlightFields s)) else None),
      rq_Aggregations = ss_aggs s,
      rq_Source = (if ss_includes s \<noteq> [] \<or> ss_excludes s \<noteq> []
                   then Some (ss_includes s, ss_excludes s) else None)\<rparr>"

section \<open>Results\<close>

fun parse_hits ::
  "(string \<Rightarrow> go_error + 'a) \<Rightarrow> search_hit list \<Rightarrow> 'a SearchResult \<Rightarrow> go_error + 'a SearchResult" where
  "parse_hits decode [] result = Inr result"
| "parse_hits decode (hit # hits) result =
     (let docID = (case hit_Id hit of Some i \<Rightarrow> i | None \<Rightarrow> ''<unknown>'')
      in case decode (hit_Source hit) of
           Inl err \<Rightarrow> Inl (Errorf (''searcher: unmarshal doc '' @ docID @ '': '') err [])
         | Inr item \<Rightarrow>
             let result = result\<lparr>res_Items := res_Items result @ [item]\<rparr>
             in parse_hits decode hits
                  (case hit_Id hit of
                     Some i \<Rightarrow>
                       if hit_Highlight hit \<noteq> []
                       then result\<lparr>res_Highlights := AList.update i (hit_Highlight hit) (res_Highlights result)\<rparr>
                       else result
                   | None \<Rightarrow> result))"

definition parseTypedSearchResult ::
  "(string \<Rightarrow> go_error + 'a) \<Rightarrow> search_response \<Rightarrow> go_error + 'a SearchResult" where
  "parseTypedSearchResult decode resp =
     parse_hits decode (sr_Hits resp)
       \<lparr>res_Total = (case sr_Total resp of Some v \<Rightarrow> v | None \<Rightarrow> 0), res_Items = [],
        res_MaxScore = sr_MaxScore resp,
        res_ScrollID = (case sr_ScrollId resp of Some i \<Rightarrow> i | None \<Rightarrow> []), res_Highlights = []\<rparr>"

section \<open>Execution\<close>

text \<open>
  \<open>sf_Do\<close> is \<open>Do\<close> of the package's \<open>singleflight.Group\<close>; the values it keeps carry the type parameter
  of their \<open>SearchResult\<close>.  \<open>type_text\<close> and \<open>result_type_text\<close>: the texts of a type and of
  \<open>SearchResult\<close> of it, which need not tell two types of the same name apart.
\<close>

type_synonym 'a flight_value = "nat \<times> 'a SearchResult"

record ('w, 'a) search_env =
  es_search :: "64 word \<Rightarrow> go_ctx \<Rightarrow> string \<Rightarrow> search_request \<Rightarrow> 'w \<Rightarrow> (go_error + search_response) \<times> 'w"
  es_count_query :: "64 word \<Rightarrow> go_ctx \<Rightarrow> string \<Rightarrow> query \<Rightarrow> 'w \<Rightarrow> (go_error + int) \<times> 'w"
  json_decode :: "nat \<Rightarrow> string \<Rightarrow> go_error + 'a"
  request_json :: "search_request \<Rightarrow> go_error + string"
  sha256_sum :: "string \<Rightarrow> 8 word list"
  type_text :: "nat \<Rightarrow> string"
  result_type_text :: "nat \<Rightarrow> string"
  sf_Do :: "string \<Rightarrow> ('w \<Rightarrow> (go_error + 'a flight_value) \<times> 'w) \<Rightarrow> 'w \<Rightarrow> (go_error + 'a flight_value) \<times> 'w"

text \<open>The verb \<open>%p\<close>.\<close>

fun show_hex :: "nat \<Rightarrow> string" where
  "show_hex n = (if n < 16 then [hex_digit n] else show_hex (n div 16) @ [hex_digit (n mod 16)])"

declare show_hex.simps [simp del]

definition show_ptr :: "64 word \<Rightarrow> string" where
  "show_ptr p = ''0x'' @ show_hex (unat p)"

definition cacheKey :: "('w, 'a, 'm) search_env_scheme \<Rightarrow> Search \<Rightarrow> string" where
  "cacheKey env s =
     show_ptr (ss_client s) @ '':'' @ type_text env (ss_type s) @ '':'' @ ss_index s @ '':'' @
     (case request_json env (buildRequest s) of
        Inl err \<Rightarrow> ''marshal-error''
      | Inr data \<Rightarrow> hex_encode (take 8 (sha256_sum env data)))"

definition doSearch ::
  "('w, 'a, 'm) search_env_scheme \<Rightarrow> go_ctx \<Rightarrow> Search \<Rightarrow> 'w \<Rightarrow> (go_error + 'a SearchResult) \<times> 'w" where
  "doSearch env ctx s w =
     (case es_search env (ss_client s) ctx (ss_index s) (buildRequest s) w of
        (Inl err, w) \<Rightarrow> (Inl (Errorf ''searcher: search: '' err []), w)
      | (Inr resp, w) \<Rightarrow> (parseTypedSearchResult (json_decode env (ss_type s)) resp, w))"

text \<open>The function that \<open>Do\<close> hands to the flight group.\<close>

definition flight_search ::
  "('w, 'a, 'm) search_env_scheme \<Rightarrow> go_ctx \<Rightarrow> Search \<Rightarrow> 'w \<Rightarrow> (go_error + 'a flight_value) \<times> 'w" where
  "flight_search env ctx s w =
     (case doSearch env ctx s w of
        (Inl err, w) \<Rightarrow> (Inl err, w)
      | (Inr result, w) \<Rightarrow> (Inr (ss_type s, result), w))"

definition Do ::
  "('w, 'a, 'm) search_env_scheme \<Rightarrow> go_ctx \<Rightarrow> Search \<Rightarrow> 'w \<Rightarrow> (go_error + 'a SearchResult) \<times> 'w" where
  "Do env ctx s w =
     (if ss_useSingleflight s
      then (case sf_Do env (cacheKey env s) (flight_search env ctx s) w of
              (Inl err, w) \<Rightarrow> (Inl (Errorf ''searcher: singleflight: '' err []), w)
            | (Inr (T, result), w) \<Rightarrow>
                if T = ss_type s then (Inr result, w)
                else (Inl (Err (''searcher: singleflight result type *'' @ result_type_text env T
                       @ '' does not match '' @ result_type_text env (ss_type s))), w))
      else doSearch env ctx s w)"

definition DoAgg ::
  "('w, 'a, 'm) search_env_scheme \<Rightarrow> go_ctx \<Rightarrow> Search \<Rightarrow> 'w \<Rightarrow> (go_error + AggResult) \<times> 'w" where
  "DoAgg env ctx s w =
     (case es_search env (ss_client s) ctx (ss_index s) ((buildRequest s)\<lparr>rq_Size := Some 0\<rparr>) w of
        (Inl err, w) \<Rightarrow> (Inl (Errorf ''searcher: agg: '' err []), w)
      | (Inr resp, w) \<Rightarrow> (Inr (sr_Aggregations resp), w))"

definition Count ::
  "('w, 'a, 'm) search_env_scheme \<Rightarrow> go_ctx \<Rightarrow> Search \<Rightarrow> 'w \<Rightarrow> (go_error + int) \<times> 'w" where
  "Count env ctx s w =
     (case es_count_query env (ss_client s) ctx (ss_index s) (buildQuery s) w of
        (Inl err, w) \<Rightarrow> (Inl (Errorf ''searcher: count: '' err []), w)
      | (Inr n, w) \<Rightarrow> (Inr n, w))"

section \<open>What a built query selects\<close>

text \<open>A use of a builder as the sequence of its calls.\<close>

datatype builder_call =
    CallMust "query list"
  | CallShould "query list"
  | CallMustNot "query list"
  | CallFilter "query list"
  | CallWhere "query list"
  | CallMinimumShouldMatch int
  | CallSort string bool
  | CallPage int int
  | CallOffset int int
  | CallSearchAfter "field_value list"
  | CallHighlight "string list"
  | CallAgg string aggregation
  | CallUnscoped
  | CallSelect "string list"
  | CallExclude "string list"
  | CallWithSingleflight

fun apply_call :: "builder_call \<Rightarrow> Search \<Rightarrow> Search" where
  "apply_call (CallMust qs) = Must qs"
| "apply_call (CallShould qs) = Should qs"
| "apply_call (CallMustNot qs) = MustNot qs"
| "apply_call (CallFilter qs) = Filter qs"
| "apply_call (CallWhere qs) = Where qs"
| "apply_call (CallMinimumShouldMatch n) = MinimumShouldMatch n"
| "apply_call (CallSort f a) = Sort f a"
| "apply_call (CallPage p n) = Page p n"
| "apply_call (CallOffset f n) = Offset f n"
| "apply_call (CallSearchAfter vs) = SearchAfter vs"
| "apply_call (CallHighlight fs) = Highlight fs"
| "apply_call (CallAgg n a) = Agg n a"
| "apply_call CallUnscoped = Unscoped"
| "apply_call (CallSelect fs) = Select fs"
| "apply_call (CallExclude fs) = Exclude fs"
| "apply_call CallWithSingleflight = WithSingleflight"

definition built :: "nat \<Rightarrow> 64 word \<Rightarrow> string \<Rightarrow> builder_call list \<Rightarrow> Search" where
  "built T client index' calls = fold apply_call calls (NewSearch T client index')"

text \<open>What the calls ask for.\<close>

definition asked :: "(builder_call \<Rightarrow> 'q list) \<Rightarrow> builder_call list \<Rightarrow> 'q list" where
  "asked sel calls = concat (map sel calls)"

definition asked_must :: "builder_call list \<Rightarrow> query list" where
  "asked_must = asked (\<lambda>c. case c of CallMust qs \<Rightarrow> qs | _ \<Rightarrow> [])"

definition asked_should :: "builder_call list \<Rightarrow> query list" where
  "asked_should = asked (\<lambda>c. case c of CallShould qs \<Rightarrow> qs | _ \<Rightarrow> [])"

definition asked_must_not :: "builder_call list \<Rightarrow> query list" where
  "asked_must_not = asked (\<lambda>c. case c of CallMustNot qs \<Rightarrow> qs | _ \<Rightarrow> [])"

definition asked_filter :: "builder_call list \<Rightarrow> query list" where
  "asked_filter = asked (\<lambda>c. case c of CallFilter qs \<Rightarrow> qs | CallWhere qs \<Rightarrow> qs | _ \<Rightarrow> [])"

definition asked_minimum :: "builder_call list \<Rightarrow> int list" where
  "asked_minimum = asked (\<lambda>c. case c of CallMinimumShouldMatch n \<Rightarrow> [n] | _ \<Rightarrow> [])"

lemmas asked_defs = asked_must_def asked_should_def asked_must_not_def asked_filter_def
  asked_minimum_def

lemma asked_simps [simp]:
  "asked sel [] = []" "asked sel (c # calls) = sel c @ asked sel calls"
  by (simp_all add: asked_def)

lemmas builder_defs = Must_def Should_def MustNot_def Filter_def Where_def MinimumShouldMatch_def
  Sort_def Page_def Offset_def SearchAfter_def Highlight_def Agg_def Unscoped_def Select_def
  Exclude_def WithSingleflight_def Let_def

lemma fold_calls:
  "ss_must (fold apply_call calls s) = ss_must s @ asked_must calls
   \<and> ss_should (fold apply_call calls s) = ss_should s @ asked_should calls
   \<and> ss_mustNot (fold apply_call calls s) = ss_mustNot s @ asked_must_not calls
   \<and> ss_filter (fold apply_call calls s) = ss_filter s @ asked_filter calls
   \<and> ss_unscoped (fold apply_call calls s) = (ss_unscoped s \<or> CallUnscoped \<in> set calls)
   \<and> ss_minShouldMatch (fold apply_call calls s) =
       (if asked_minimum calls = [] then ss_minShouldMatch s else Some (last (asked_minimum calls)))"
proof (induction calls arbitrary: s)
  case Nil
  then show ?case by (simp add: asked_defs)
next
  case (Cons c calls)
  show ?case
    using Cons.IH [of "apply_call c s"]
    by (cases c) (simp_all add: asked_defs builder_defs)
qed

text \<open>
  The documented meaning of a bool query: every \<open>must\<close> and \<open>filter\<close> clause matches, no \<open>must_not\<close>
  clause does, and of the \<open>should\<close> clauses as many as \<open>minimum_should_match\<close> asks for, without it
  one where there are no other positive clauses.
\<close>

definition should_needed ::
  "(string \<Rightarrow> nat \<Rightarrow> nat) \<Rightarrow> query list \<Rightarrow> query list \<Rightarrow> query list \<Rightarrow> string option \<Rightarrow> nat" where
  "should_needed minimum must should fil msm =
     (case msm of
        Some t \<Rightarrow> minimum t (length should)
      | None \<Rightarrow> if should \<noteq> [] \<and> must = [] \<and> fil = [] then 1 else 0)"

locale bool_search =
  fixes matches :: "query \<Rightarrow> 'd \<Rightarrow> bool"
    and has_field :: "'d \<Rightarrow> string \<Rightarrow> bool"
    and minimum :: "string \<Rightarrow> nat \<Rightarrow> nat"
  assumes exists_law: "matches (ExistsQuery f) d \<longleftrightarrow> has_field d f"
    and bool_law: "matches (BoolQuery must should must_not fil msm) d \<longleftrightarrow>
       (\<forall>q \<in> set must. matches q d) \<and> (\<forall>q \<in> set fil. matches q d) \<and> (\<forall>q \<in> set must_not. \<not> matches q d)
     \<and> should_needed minimum must should fil msm \<le> length (filter (\<lambda>q. matches q d) should)"
begin

lemma buildQuery_matches:
  "matches (buildQuery s) d \<longleftrightarrow>
     (\<forall>q \<in> set (ss_must s). matches q d) \<and> (\<forall>q \<in> set (ss_filter s). matches q d)
   \<and> (\<forall>q \<in> set (ss_mustNot s). \<not> matches q d)
   \<and> (ss_unscoped s \<or> \<not> has_field d ''deleted_at'')
   \<and> should_needed minimum (ss_must s) (ss_should s) (ss_filter s) (map_option show_int (ss_minShouldMatch s))
       \<le> length (filter (\<lambda>q. matches q d) (ss_should s))"
  by (auto simp: buildQuery_def bool_law exists_law)

lemma built_matches:
  "matches (buildQuery (built T client i calls)) d \<longleftrightarrow>
     (\<forall>q \<in> set (asked_must calls). matches q d) \<and> (\<forall>q \<in> set (asked_filter calls). matches q d)
   \<and> (\<forall>q \<in> set (asked_must_not calls). \<not> matches q d)
   \<and> (CallUnscoped \<in> set calls \<or> \<not> has_field d ''deleted_at'')
   \<and> should_needed minimum (asked_must calls) (asked_should calls) (asked_filter calls)
       (if asked_minimum calls = [] then None else Some (show_int (last (asked_minimum calls))))
       \<le> length (filter (\<lambda>q. matches q d) (asked_should calls))"
  unfolding buildQuery_matches built_def
  by (simp add: fold_calls NewSearch_def)

end

text \<open>A reference evaluation on flat documents.\<close>

type_synonym flat_doc = "(string \<times> field_value) list"

fun eval_query :: "query \<Rightarrow> flat_doc \<Rightarrow> bool" where
  "eval_query MatchAllQuery d = True"
| "eval_query (TermQuery f v) d = (map_of d f = Some v)"
| "eval_query (ExistsQuery f) d = (map_of d f \<noteq> None)"
| "eval_query (PrefixQuery f p) d =
     (case map_of d f of Some (StringValue v) \<Rightarrow> take (length p) v = p | _ \<Rightarrow> False)"
| "eval_query (BoolQuery must should must_not fil msm) d =
     (list_all (\<lambda>q. eval_query q d) must \<and> list_all (\<lambda>q. eval_query q d) fil
      \<and> list_all (\<lambda>q. \<not> eval_query q d) must_not
      \<and> should_needed (\<lambda>t n. case ParseInt id t of
            Inr k \<Rightarrow> nat (if k < 0 then int n + k else k) | Inl _ \<Rightarrow> 0) must should fil msm
          \<le> length (filter (\<lambda>q. eval_query q d) should))"
| "eval_query q d = False"

interpretation eval: bool_search eval_query "\<lambda>d f. map_of d f \<noteq> None"
  "\<lambda>t n. case ParseInt id t of Inr k \<Rightarrow> nat (if k < 0 then int n + k else k) | Inl _ \<Rightarrow> 0"
  by unfold_locales (simp_all add: list_all_iff)

section \<open>Pages\<close>

text \<open>The hits that a request asks for: ten from the first where it does not say.\<close>

definition window :: "int option \<Rightarrow> int option \<Rightarrow> 'h list \<Rightarrow> 'h list" where
  "window from' size' hits =
     take (nat (case size' of Some n \<Rightarrow> n | None \<Rightarrow> 10))
       (drop (nat (case from' of Some n \<Rightarrow> n | None \<Rightarrow> 0)) hits)"

lemma Page_fields:
  "ss_from (Page page pageSize s) = Some (wrap64 (((if page < 1 then 1 else page) - 1)
     * (if pageSize < 1 then 20 else pageSize)))"
  "ss_size (Page page pageSize s) = Some (if pageSize < 1 then 20 else pageSize)"
  by (simp_all add: Page_def Let_def)

lemma page_in_int64:
  assumes "1 \<le> n" "0 \<le> p" "p < m" "in_int64 (m * n)"
  shows "in_int64 (p * n)"
proof -
  have "0 \<le> p * n" "p * n \<le> m * n" using assms by (auto intro!: mult_right_mono)
  with assms(4) show ?thesis unfolding in_int64_def by linarith
qed

lemma Page_window:
  assumes "1 \<le> n" "i < m" "in_int64 (int m * int n)"
  shows "window (ss_from (Page (int i + 1) (int n) s)) (ss_size (Page (int i + 1) (int n) s)) hits
    = take n (drop (i * n) hits)"
proof -
  have "in_int64 (int i * int n)"
    by (rule page_in_int64 [of "int n" "int i" "int m"]) (use assms in simp_all)
  then have "nat (wrap64 (int i * int n)) = i * n"
    by (simp add: nat_mult_distrib)
  with assms(1) show ?thesis
    by (simp add: Page_fields window_def)
qed

lemma concat_windows: "concat (map (\<lambda>i. take n (drop (i * n) hits)) [0..<m]) = take (m * n) hits"
proof (induction m)
  case 0
  then show ?case by simp
next
  case (Suc m)
  then show ?case using take_add [of "m * n" n hits] by (simp add: add.commute)
qed

section \<open>Parsing\<close>

definition highlighted :: "search_hit list \<Rightarrow> (string \<times> HitHighlight) list" where
  "highlighted hits =
     concat (map (\<lambda>h. case hit_Id h of
        Some i \<Rightarrow> if hit_Highlight h \<noteq> [] then [(i, hit_Highlight h)] else [] | None \<Rightarrow> []) hits)"

lemma parse_hits_Inr:
  "\<forall>h \<in> set hits. \<not> isl (decode (hit_Source h)) \<Longrightarrow>
     \<exists>hl. parse_hits decode hits result =
       Inr (result\<lparr>res_Items := res_Items result @ map (\<lambda>h. projr (decode (hit_Source h))) hits,
                   res_Highlights := hl\<rparr>)
     \<and> map_of hl = map_of (rev (highlighted hits) @ res_Highlights result)"
proof (induction hits arbitrary: result)
  case Nil
  then show ?case by (auto intro!: exI [of _ "res_Highlights result"] simp: highlighted_def)
next
  case (Cons h hits)
  then obtain item where item: "decode (hit_Source h) = Inr item"
    by (cases "decode (hit_Source h)") auto
  define r1 where "r1 = result\<lparr>res_Items := res_Items result @ [item]\<rparr>"
  define hl1 where "hl1 = (case hit_Id h of
      Some i \<Rightarrow> if hit_Highlight h \<noteq> []
        then AList.update i (hit_Highlight h) (res_Highlights result) else res_Highlights result
    | None \<Rightarrow> res_Highlights result)"
  have step: "parse_hits decode (h # hits) result = parse_hits decode hits (r1\<lparr>res_Highlights := hl1\<rparr>)"
    by (simp add: item r1_def hl1_def Let_def split: option.split)
  from Cons obtain hl where hl: "parse_hits decode hits (r1\<lparr>res_Highlights := hl1\<rparr>) =
       Inr (r1\<lparr>res_Items := res_Items r1 @ map (\<lambda>h. projr (decode (hit_Source h))) hits, res_Highlights := hl\<rparr>)"
     "map_of hl = map_of (rev (highlighted hits) @ hl1)"
    using Cons.IH [of "r1\<lparr>res_Highlights := hl1\<rparr>"] by auto
  have "map_of hl1 = map_of (rev (highlighted [h]) @ res_Highlights result)"
    by (auto simp: hl1_def highlighted_def update_conv' split: option.split)
  then have "map_of (rev (highlighted hits) @ hl1) = map_of (rev (highlighted (h # hits)) @ res_Highlights result)"
    by (simp add: highlighted_def)
  with hl item show ?case
    unfolding step by (intro exI [of _ hl]) (simp add: r1_def)
qed

lemma parse_hits_Inl:
  "parse_hits decode (ok @ h # hits) result = Inl (Errorf (''searcher: unmarshal doc ''
       @ (case hit_Id h of Some i \<Rightarrow> i | None \<Rightarrow> ''<unknown>'') @ '': '') err [])"
  if "\<forall>x \<in> set ok. \<not> isl (decode (hit_Source x))" "decode (hit_Source h) = Inl err"
  using that
proof (induction ok arbitrary: result)
  case Nil
  then show ?case by (simp add: Let_def)
next
  case (Cons x ok)
  then obtain item where "decode (hit_Source x) = Inr item" by (cases "decode (hit_Source x)") auto
  with Cons show ?case by (simp add: Let_def)
qed

section \<open>The key of a flight\<close>

lemma split_first: "c \<notin> set p \<Longrightarrow> c \<notin> set p' \<Longrightarrow> p @ c # r = p' @ c # r' \<Longrightarrow> p = p' \<and> r = r'"
proof (induction p arbitrary: p')
  case Nil
  then show ?case by (cases p') auto
next
  case (Cons x p)
  then show ?case by (cases p') auto
qed

lemma split_last:
  assumes "c \<notin> set h" "c \<notin> set h'" "a @ c # h = a' @ c # h'"
  shows "a = a' \<and> h = h'"
proof -
  from assms(3) have "rev (a @ c # h) = rev (a' @ c # h')" by simp
  then have "rev h @ c # rev a = rev h' @ c # rev a'" by simp
  from split_first [OF _ _ this] assms show ?thesis by simp
qed

lemma hex_digit_inj: "n < 16 \<Longrightarrow> m < 16 \<Longrightarrow> hex_digit n = hex_digit m \<Longrightarrow> n = m"
  using nth_eq_iff_index_eq [of "''0123456789abcdef''" n m] by (simp add: hex_digit_def)

lemma hex_digit_no_colon: "n < 16 \<Longrightarrow> hex_digit n \<noteq> CHR '':''"
proof
  assume "n < 16" "hex_digit n = CHR '':''"
  then have "CHR '':'' \<in> set ''0123456789abcdef''"
    using nth_mem [of n "''0123456789abcdef''"] by (simp only: hex_digit_def) simp
  then show False by simp
qed

lemma hex_encode_no_colon: "CHR '':'' \<notin> set (hex_encode bs)"
proof (induction bs)
  case Nil
  then show ?case by simp
next
  case (Cons b bs)
  have "unat b < 2 ^ LENGTH(8)" by (rule unsigned_less)
  then have "unat b div 16 < 16" by simp
  with Cons show ?case
    using hex_digit_no_colon [of "unat b div 16"] hex_digit_no_colon [of "unat b mod 16"] by auto
qed

lemma hex_encode_inj: "hex_encode bs = hex_encode bs' \<Longrightarrow> bs = bs'"
proof (induction bs arbitrary: bs')
  case Nil
  then show ?case by (cases bs') auto
next
  case (Cons b bs)
  then obtain c cs where bs': "bs' = c # cs" by (cases bs') auto
  have "unat b < 2 ^ LENGTH(8)" "unat c < 2 ^ LENGTH(8)" by (rule unsigned_less)+
  then have "unat b div 16 < 16" "unat c div 16 < 16" by simp_all
  with Cons.prems bs' have "unat b div 16 = unat c div 16" "unat b mod 16 = unat c mod 16"
    by (auto intro: hex_digit_inj)
  then have "unat b = unat c" by (metis div_mod_decomp)
  with Cons bs' show ?case by (auto intro: unsigned_word_eqI)
qed

text \<open>An odd number of characters is not hexadecimal.\<close>

lemma hex_encode_not_marker: "hex_encode bs \<noteq> ''marshal-error''"
proof
  assume "hex_encode bs = ''marshal-error''"
  then have "length (hex_encode bs) = length ''marshal-error''" by simp
  then have "2 * length bs = 13" by simp
  then show False by presburger
qed

lemma show_hex_no_colon: "CHR '':'' \<notin> set (show_hex n)"
proof (induction n rule: show_hex.induct)
  case (1 n)
  then show ?case
    using hex_digit_no_colon [of n] hex_digit_no_colon [of "n mod 16"]
    by (subst show_hex.simps) auto
qed

lemma show_hex_nonempty: "show_hex n \<noteq> []"
  by (subst show_hex.simps) simp

lemma show_hex_inj: "show_hex n = show_hex m \<Longrightarrow> n = m"
proof (induction n arbitrary: m rule: show_hex.induct)
  case (1 n)
  show ?case
  proof (cases "n < 16")
    case True
    with 1(2) show ?thesis
      using show_hex_nonempty [of "m div 16"]
      by (subst (asm) (1 2) show_hex.simps) (auto split: if_splits intro: hex_digit_inj)
  next
    case False
    with 1(2) have "\<not> m < 16 \<and> show_hex (n div 16) = show_hex (m div 16) \<and> n mod 16 = m mod 16"
      using show_hex_nonempty [of "n div 16"]
      by (subst (asm) (1 2) show_hex.simps) (auto split: if_splits intro: hex_digit_inj)
    with 1(1) [OF False, of "m div 16"] show ?thesis
      by (metis div_mod_decomp)
  qed
qed

lemma show_ptr_facts: "CHR '':'' \<notin> set (show_ptr p)" "show_ptr p = show_ptr q \<Longrightarrow> p = q"
  using show_hex_no_colon [of "unat p"] by (auto simp: show_ptr_def dest!: show_hex_inj unsigned_word_eqI)

text \<open>What a search tells apart by its key: the request by the first bytes of its digest.\<close>

definition request_digest :: "('w, 'a, 'm) search_env_scheme \<Rightarrow> Search \<Rightarrow> 8 word list option" where
  "request_digest env s =
     (case request_json env (buildRequest s) of
        Inl _ \<Rightarrow> None | Inr data \<Rightarrow> Some (take 8 (sha256_sum env data)))"

definition plain_type_texts :: "('w, 'a, 'm) search_env_scheme \<Rightarrow> bool" where
  "plain_type_texts env \<longleftrightarrow> (\<forall>T. CHR '':'' \<notin> set (type_text env T))"

lemma cacheKey_parts:
  assumes "plain_type_texts env" "cacheKey env s = cacheKey env s'"
  shows "ss_client s = ss_client s' \<and> type_text env (ss_type s) = type_text env (ss_type s')
    \<and> ss_index s = ss_index s' \<and> request_digest env s = request_digest env s'"
proof -
  define tail where "tail x = (case request_json env (buildRequest x) of
      Inl err \<Rightarrow> ''marshal-error'' | Inr data \<Rightarrow> hex_encode (take 8 (sha256_sum env data)))" for x
  have tail_colon: "CHR '':'' \<notin> set (tail x)" for x
    by (auto simp: tail_def hex_encode_no_colon split: sum.split)
  have key: "cacheKey env x = show_ptr (ss_client x) @ CHR '':'' # (type_text env (ss_type x) @ CHR '':''
      # (ss_index x @ CHR '':'' # tail x))" for x
    by (simp add: cacheKey_def tail_def)
  from assms(2) show_ptr_facts(1)
  have 1: "show_ptr (ss_client s) = show_ptr (ss_client s')"
    "type_text env (ss_type s) @ CHR '':'' # (ss_index s @ CHR '':'' # tail s)
      = type_text env (ss_type s') @ CHR '':'' # (ss_index s' @ CHR '':'' # tail s')"
    unfolding key by (auto dest!: split_first [rotated 2])
  from split_first [OF _ _ 1(2)] assms(1)
  have 2: "type_text env (ss_type s) = type_text env (ss_type s')"
    "ss_index s @ CHR '':'' # tail s = ss_index s' @ CHR '':'' # tail s'"
    by (auto simp: plain_type_texts_def)
  from split_last [OF tail_colon tail_colon 2(2)] have 3: "ss_index s = ss_index s'" "tail s = tail s'"
    by auto
  have "request_digest env s = request_digest env s'"
    using 3(2) by (auto simp: tail_def request_digest_def hex_encode_not_marker hex_encode_not_marker [symmetric]
        dest: hex_encode_inj split: sum.splits)
  with 1 2 3 show_ptr_facts(2) show ?thesis by blast
qed

text \<open>
  The flight group: a call runs its own function or gets the outcome of a flight that is registered
  under its key, and the flights of the world were started by \<open>Do\<close>.
\<close>

definition started_by_Do ::
  "('w, 'a, 'm) search_env_scheme \<Rightarrow> ('w \<Rightarrow> (string \<times> (go_error + 'a flight_value)) list) \<Rightarrow> 'w \<Rightarrow> bool" where
  "started_by_Do env flights w \<longleftrightarrow> (\<forall>(key, out) \<in> set (flights w).
     \<exists>s' ctx' w'. key = cacheKey env s' \<and> out = fst (flight_search env ctx' s' w'))"

locale flight_group =
  fixes env :: "('w, 'a, 'm) search_env_scheme"
    and flights :: "'w \<Rightarrow> (string \<times> (go_error + 'a flight_value)) list"
  assumes do_law: "fst (sf_Do env key fn w) = fst (fn w)
    \<or> (key, fst (sf_Do env key fn w)) \<in> set (flights w)"
begin

lemma flight_search_Inr:
  "fst (flight_search env ctx s w) = Inr (T, r) \<longleftrightarrow> T = ss_type s \<and> fst (doSearch env ctx s w) = Inr r"
  by (auto simp: flight_search_def split: prod.splits sum.splits)

lemma Do_result:
  assumes "started_by_Do env flights w" "plain_type_texts env" "fst (Do env ctx s w) = Inr r"
  shows "\<exists>s' ctx' w'. fst (doSearch env ctx' s' w') = Inr r \<and> ss_client s' = ss_client s
    \<and> ss_type s' = ss_type s \<and> ss_index s' = ss_index s \<and> request_digest env s' = request_digest env s"
proof (cases "ss_useSingleflight s")
  case False
  with assms(3) show ?thesis by (auto simp: Do_def)
next
  case True
  with assms(3) have out: "fst (sf_Do env (cacheKey env s) (flight_search env ctx s) w) = Inr (ss_type s, r)"
    by (auto simp: Do_def split: prod.splits sum.splits if_splits)
  from do_law [of "cacheKey env s" "flight_search env ctx s" w] show ?thesis
  proof
    assume "fst (sf_Do env (cacheKey env s) (flight_search env ctx s) w) = fst (flight_search env ctx s w)"
    with out show ?thesis using flight_search_Inr by metis
  next
    assume "(cacheKey env s, fst (sf_Do env (cacheKey env s) (flight_search env ctx s) w)) \<in> set (flights w)"
    with out assms(1) obtain s' ctx' w' where
      "cacheKey env s = cacheKey env s'" "fst (flight_search env ctx' s' w') = Inr (ss_type s, r)"
      by (force simp: started_by_Do_def)
    with cacheKey_parts [OF assms(2), of s s'] show ?thesis
      by (auto simp: flight_search_Inr)
  qed
qed

end

section \<open>A reference client\<close>

type_synonym mem_flights = "(string \<times> (go_error + string flight_value)) list"

text \<open>The client answers every search with two hits, unless its context is cancelled.\<close>

definition sample_hits :: "search_hit list" where
  "sample_hits =
     [\<lparr>hit_Id = Some ''1'', hit_Source = ''x'', hit_Highlight = [(''title'', [''a''])]\<rparr>,
      \<lparr>hit_Id = Some ''2'', hit_Source = ''y'', hit_Highlight = []\<rparr>]"

definition mem_search :: "(mem_flights, string) search_env" where
  "mem_search =
     \<lparr>es_search = (\<lambda>client ctx i req w.
        if ctx = CallerCtx 0 then (Inl ErrCanceled, w)
        else (Inr \<lparr>sr_Total = Some 2, sr_MaxScore = None, sr_ScrollId = None, sr_Hits = sample_hits,
                   sr_Aggregations = []\<rparr>, w)),
      es_count_query = (\<lambda>client ctx i q w. (Inr 2, w)),
      json_decode = (\<lambda>T source. Inr source),
      request_json = (\<lambda>req. Inr (case rq_From req of Some n \<Rightarrow> show_int n | None \<Rightarrow> ''{}'')),
      sha256_sum = (\<lambda>s. map (\<lambda>c. of_nat (of_char c)) s),
      type_text = (\<lambda>T. ''doc.Article''), result_type_text = (\<lambda>T. ''searcher.SearchResult''),
      sf_Do = (\<lambda>key fn w. case map_of w key of Some out \<Rightarrow> (out, w) | None \<Rightarrow> fn w)\<rparr>"

interpretation mem_flight: flight_group mem_search "\<lambda>w. w"
  by unfold_locales (auto simp: mem_search_def dest: map_of_SomeD split: option.split)

definition shared_search :: Search where
  "shared_search = WithSingleflight (NewSearch 0 0xC000 ''articles'')"

definition flight_of :: "go_ctx \<Rightarrow> mem_flights" where
  "flight_of ctx = [(cacheKey mem_search shared_search, fst (flight_search mem_search ctx shared_search []))]"

lemma mem_sf_Do: "sf_Do mem_search key fn w = (case map_of w key of Some out \<Rightarrow> (out, w) | None \<Rightarrow> fn w)"
  by (simp add: mem_search_def)

lemma mem_es_search:
  "es_search mem_search client ctx i req w =
     (if ctx = CallerCtx 0 then (Inl ErrCanceled, w)
      else (Inr \<lparr>sr_Total = Some 2, sr_MaxScore = None, sr_ScrollId = None, sr_Hits = sample_hits,
                 sr_Aggregations = []\<rparr>, w))"
  "json_decode mem_search T source = Inr source"
  by (simp_all add: mem_search_def)

lemmas mem_search_runs = Do_def flight_search_def doSearch_def mem_sf_Do mem_es_search flight_of_def
  parseTypedSearchResult_def sample_hits_def Let_def shared_search_def WithSingleflight_def NewSearch_def

section \<open>Properties\<close>

text \<open>
  C23. A built search selects what its calls ask for: whatever the order of the calls, a document
  matches exactly when it matches every query given to Must, Filter and Where and none given to
  MustNot, enough of those given to Should by the last MinimumShouldMatch (or Elasticsearch's default),
  and has no deleted_at field, unless Unscoped was called.
\<close>

theorem search_selects:
  assumes "bool_search matches has_field minimum"
  shows "matches (buildQuery (built T client i calls)) d \<longleftrightarrow>
     (\<forall>q \<in> set (asked_must calls). matches q d) \<and> (\<forall>q \<in> set (asked_filter calls). matches q d)
   \<and> (\<forall>q \<in> set (asked_must_not calls). \<not> matches q d)
   \<and> (CallUnscoped \<in> set calls \<or> \<not> has_field d ''deleted_at'')
   \<and> should_needed minimum (asked_must calls) (asked_should calls) (asked_filter calls)
       (if asked_minimum calls = [] then None else Some (show_int (last (asked_minimum calls))))
       \<le> length (filter (\<lambda>q. matches q d) (asked_should calls))"
  by (rule bool_search.built_matches [OF assms])

theorem search_selects_witness:
  "\<not> eval_query (buildQuery (built 0 0 ''a'' [CallMust [Term ''t'' ''x''], CallShould [Exists ''u'']]))
       [(''t'', StringValue ''x''), (''deleted_at'', StringValue ''now'')]
   \<and> eval_query (buildQuery (built 0 0 ''a'' [CallMust [Term ''t'' ''x''], CallUnscoped]))
       [(''t'', StringValue ''x''), (''deleted_at'', StringValue ''now'')]"
  by (simp add: search_selects [OF eval.bool_search_axioms] asked_defs Term_def should_needed_def)

text \<open>
  C39. Pages partition the hits: the pages 1 to m of a size, one after the other, are the first m pages'
  worth of hits, without a gap or an overlap, as long as the last offset fits in 64 bits; beyond that
  the offset wraps around to a negative number.
\<close>

theorem Page_windows:
  assumes "1 \<le> n" "in_int64 (int m * int n)"
  shows "concat (map (\<lambda>i. window (ss_from (Page (int i + 1) (int n) s)) (ss_size (Page (int i + 1) (int n) s)) hits)
      [0..<m]) = take (m * n) hits
    \<and> (\<forall>i < m. \<exists>k \<ge> 0. ss_from (Page (int i + 1) (int n) s) = Some k)
    \<and> ss_from (Page (2 ^ 62 + 1) 2 s) = Some (- (2 ^ 63))"
proof -
  have "concat (map (\<lambda>i. window (ss_from (Page (int i + 1) (int n) s)) (ss_size (Page (int i + 1) (int n) s)) hits)
      [0..<m]) = concat (map (\<lambda>i. take n (drop (i * n) hits)) [0..<m])"
    by (intro arg_cong [where f = concat] map_cong refl Page_window assms) (use assms in auto)
  moreover have "\<exists>k \<ge> 0. ss_from (Page (int i + 1) (int n) s) = Some k" if "i < m" for i
  proof -
    have "in_int64 (int i * int n)"
      by (rule page_in_int64 [of "int n" "int i" "int m"]) (use assms that in simp_all)
    with assms(1) show ?thesis by (simp add: Page_fields)
  qed
  ultimately show ?thesis by (simp add: concat_windows Page_fields wrap64_def)
qed

theorem Page_windows_witness:
  "concat (map (\<lambda>i. window (ss_from (Page (int i + 1) 2 shared_search))
      (ss_size (Page (int i + 1) 2 shared_search)) [1, 2, 3, 4, 5 :: nat]) [0..<2]) = [1, 2, 3, 4]"
  using Page_windows [of 2 2 shared_search "[1, 2, 3, 4, 5 :: nat]"] by (simp add: in_int64_def)

text \<open>
  A response is parsed hit by hit: one item for each hit, in order, when every source decodes, with
  the highlights of the last highlighted hit of each id; otherwise the error of the first hit that does
  not decode, and no result.
\<close>

lemma parseTypedSearchResult_spec:
  "((\<forall>h \<in> set (sr_Hits resp). \<not> isl (decode (hit_Source h))) \<longrightarrow>
     (\<exists>r. parseTypedSearchResult decode resp = Inr r
      \<and> map Inr (res_Items r) = map (\<lambda>h. decode (hit_Source h)) (sr_Hits resp)
      \<and> map_of (res_Highlights r) = map_of (rev (highlighted (sr_Hits resp)))
      \<and> res_Total r = (case sr_Total resp of Some n \<Rightarrow> n | None \<Rightarrow> 0)))
   \<and> (sr_Hits resp = good @ h # rest \<longrightarrow> (\<forall>x \<in> set good. \<not> isl (decode (hit_Source x))) \<longrightarrow>
       decode (hit_Source h) = Inl err \<longrightarrow>
       parseTypedSearchResult decode resp = Inl (Errorf (''searcher: unmarshal doc ''
         @ (case hit_Id h of Some i \<Rightarrow> i | None \<Rightarrow> ''<unknown>'') @ '': '') err []))"
proof (intro conjI impI)
  assume ok: "\<forall>h \<in> set (sr_Hits resp). \<not> isl (decode (hit_Source h))"
  then have "map (\<lambda>h. Inr (projr (decode (hit_Source h)))) (sr_Hits resp)
      = map (\<lambda>h. decode (hit_Source h)) (sr_Hits resp)"
    by (simp add: sum.collapse(2))
  with parse_hits_Inr [OF ok] show "\<exists>r. parseTypedSearchResult decode resp = Inr r
      \<and> map Inr (res_Items r) = map (\<lambda>h. decode (hit_Source h)) (sr_Hits resp)
      \<and> map_of (res_Highlights r) = map_of (rev (highlighted (sr_Hits resp)))
      \<and> res_Total r = (case sr_Total resp of Some n \<Rightarrow> n | None \<Rightarrow> 0)"
    by (fastforce simp: parseTypedSearchResult_def comp_def)
qed (simp add: parseTypedSearchResult_def parse_hits_Inl)

lemma parseTypedSearchResult_spec_witness:
  "parseTypedSearchResult (\<lambda>s. if s = ''y'' then Inl (Err ''bad'') else Inr s)
     \<lparr>sr_Total = None, sr_MaxScore = None, sr_ScrollId = None, sr_Hits = sample_hits, sr_Aggregations = []\<rparr>
   = Inl (Errorf ''searcher: unmarshal doc 2: '' (Err ''bad'') [])"
  using parseTypedSearchResult_spec [of "\<lparr>sr_Total = None, sr_MaxScore = None, sr_ScrollId = None,
      sr_Hits = sample_hits, sr_Aggregations = []\<rparr>" "\<lambda>s. if s = ''y'' then Inl (Err ''bad'') else Inr s"
      "[hd sample_hits]" "last sample_hits" "[]" "Err ''bad''"]
  by (simp add: sample_hits_def)

text \<open>
  C24. Coalesced searches return results of the same search: what a search gets, from its own request or
  from a flight that it joined, is the result of some search with the same client, index and result
  type and the same digest of the request.
\<close>

theorem Do_coalesces_same_search:
  assumes "flight_group env flights" "started_by_Do env flights w"
    and "plain_type_texts env" "fst (Do env ctx s w) = Inr r"
  shows "\<exists>s' ctx' w'. fst (doSearch env ctx' s' w') = Inr r \<and> ss_client s' = ss_client s
    \<and> ss_type s' = ss_type s \<and> ss_index s' = ss_index s \<and> request_digest env s' = request_digest env s"
  by (rule flight_group.Do_result [OF assms(1,2,3,4)])

theorem Do_coalesces_same_search_witness:
  "\<exists>r s' ctx' w'. fst (Do mem_search Background shared_search (flight_of Background)) = Inr r
     \<and> fst (doSearch mem_search ctx' s' w') = Inr r \<and> ss_index s' = ''articles''"
proof -
  have started: "started_by_Do mem_search (\<lambda>w. w) (flight_of Background)"
    by (auto simp: started_by_Do_def flight_of_def)
  have texts: "plain_type_texts mem_search" by (simp add: plain_type_texts_def mem_search_def)
  have "\<not> isl (fst (Do mem_search Background shared_search (flight_of Background)))"
    by (simp add: mem_search_runs)
  then obtain r where r: "fst (Do mem_search Background shared_search (flight_of Background)) = Inr r"
    by (cases "fst (Do mem_search Background shared_search (flight_of Background))") auto
  from Do_coalesces_same_search [OF mem_flight.flight_group_axioms started texts r] r
  show ?thesis by (auto simp: shared_search_def WithSingleflight_def NewSearch_def)
qed

text \<open>A search that joins a flight shares its fate: the leader's cancelled context fails the follower.\<close>

lemma leader_cancels_follower:
  "(case fst (Do mem_search Background shared_search (flight_of (CallerCtx 0))) of
      Inl err \<Rightarrow> errors_is err ErrCanceled | Inr _ \<Rightarrow> False)
   \<and> \<not> isl (fst (doSearch mem_search Background shared_search []))"
  by (simp add: mem_search_runs)

end
