(* ===== verification/SharedBuilders.thy ===== *)
theory SharedBuilders imports Searcher begin

text \<open>
  The builder of nested queries (\<open>BoolBuilder\<close> of \<open>searcher/query.go\<close>) with its sharing: \<open>Build\<close> returns
  a query that points to the clauses of the builder, so that later calls change queries that were
  built before.  \<open>Searcher\<close> has the builder as a value; here it is a cell of a heap, and a query is
  read, as the JSON encoder does, when it is sent.
\<close>

section \<open>References and cells\<close>

text \<open>A \<open>types.Query\<close>: its own value, or a pointer to the clauses of a builder.\<close>

datatype query_ref = QValue query | QBool nat

record bool_cell =
  bc_Must :: "query_ref list"
  bc_Should :: "query_ref list"
  bc_MustNot :: "query_ref list"
  bc_Filter :: "query_ref list"

type_synonym bool_heap = "nat \<Rightarrow> bool_cell option"

definition ref_Bool :: "nat \<Rightarrow> bool_heap \<Rightarrow> nat \<times> bool_heap" where
  "ref_Bool fresh h = (fresh, h(fresh \<mapsto> \<lparr>bc_Must = [], bc_Should = [], bc_MustNot = [], bc_Filter = []\<rparr>))"

definition ref_Must :: "query_ref list \<Rightarrow> nat \<Rightarrow> bool_heap \<Rightarrow> bool_heap" where
  "ref_Must queries b h = h(b := map_option (\<lambda>c. c\<lparr>bc_Must := bc_Must c @ queries\<rparr>) (h b))"

definition ref_Should :: "query_ref list \<Rightarrow> nat \<Rightarrow> bool_heap \<Rightarrow> bool_heap" where
  "ref_Should queries b h = h(b := map_option (\<lambda>c. c\<lparr>bc_Should := bc_Should c @ queries\<rparr>) (h b))"

definition ref_MustNot :: "query_ref list \<Rightarrow> nat \<Rightarrow> bool_heap \<Rightarrow> bool_heap" where
  "ref_MustNot queries b h = h(b := map_option (\<lambda>c. c\<lparr>bc_MustNot := bc_MustNot c @ queries\<rparr>) (h b))"

definition ref_Filter :: "query_ref list \<Rightarrow> nat \<Rightarrow> bool_heap \<Rightarrow> bool_heap" where
  "ref_Filter queries b h = h(b := map_option (\<lambda>c. c\<lparr>bc_Filter := bc_Filter c @ queries\<rparr>) (h b))"

definition ref_Build :: "nat \<Rightarrow> query_ref" where
  "ref_Build b = QBool b"

section \<open>Reading a query\<close>

text \<open>\<open>n\<close> bounds the nesting; a query that contains itself has no reading at any depth.\<close>

fun resolve :: "nat \<Rightarrow> bool_heap \<Rightarrow> query_ref \<Rightarrow> query option" where
  "resolve n h (QValue q) = Some q"
| "resolve 0 h (QBool b) = None"
| "resolve (Suc n) h (QBool b) =
     (case h b of
        None \<Rightarrow> None
      | Some c \<Rightarrow>
          (case (those (map (resolve n h) (bc_Must c)), those (map (resolve n h) (bc_Should c)),
                 those (map (resolve n h) (bc_MustNot c)), those (map (resolve n h) (bc_Filter c))) of
             (Some m, Some s, Some x, Some f) \<Rightarrow> Some (BoolQuery m s x f None)
           | _ \<Rightarrow> None))"

text \<open>The value of a builder: its clauses, read to the depth \<open>n\<close>.\<close>

definition builder_at :: "nat \<Rightarrow> bool_heap \<Rightarrow> nat \<Rightarrow> BoolBuilder option" where
  "builder_at n h b =
     (case h b of
        None \<Rightarrow> None
      | Some c \<Rightarrow>
          (case (those (map (resolve n h) (bc_Must c)), those (map (resolve n h) (bc_Should c)),
                 those (map (resolve n h) (bc_MustNot c)), those (map (resolve n h) (bc_Filter c))) of
             (Some m, Some s, Some x, Some f) \<Rightarrow>
               Some \<lparr>bb_Must = m, bb_Should = s, bb_MustNot = x, bb_Filter = f\<rparr>
           | _ \<Rightarrow> None))"

lemma resolve_build: "resolve (Suc n) h (ref_Build b) = map_option bool_Build (builder_at n h b)"
  by (auto simp: ref_Build_def builder_at_def bool_Build_def split: option.split)

section \<open>The cells that a reading visits\<close>

fun visits :: "nat \<Rightarrow> bool_heap \<Rightarrow> query_ref \<Rightarrow> nat \<Rightarrow> bool" where
  "visits n h (QValue q) a = False"
| "visits 0 h (QBool b) a = (b = a)"
| "visits (Suc n) h (QBool b) a =
     (b = a \<or> (case h b of
        None \<Rightarrow> False
      | Some c \<Rightarrow> list_ex (\<lambda>q. visits n h q a) (bc_Must c @ bc_Should c @ bc_MustNot c @ bc_Filter c)))"

definition clauses_avoid :: "nat \<Rightarrow> bool_heap \<Rightarrow> nat \<Rightarrow> nat \<Rightarrow> bool" where
  "clauses_avoid n h b a \<longleftrightarrow>
     (\<forall>c. h b = Some c \<longrightarrow>
        (\<forall>q \<in> set (bc_Must c @ bc_Should c @ bc_MustNot c @ bc_Filter c). \<not> visits n h q a))"

lemma resolve_frame: "\<not> visits n h q a \<Longrightarrow> resolve n (h(a := x)) q = resolve n h q"
proof (induction n h q a rule: visits.induct)
  case (3 n h b a)
  then have ne: "b \<noteq> a" by simp
  show ?case
  proof (cases "h b")
    case (Some c)
    have "resolve n (h(a := x)) q = resolve n h q"
      if q: "q \<in> set (bc_Must c @ bc_Should c @ bc_MustNot c @ bc_Filter c)" for q
    proof -
      have "\<not> visits n h q a" using 3(2) Some q by (auto simp: list_ex_iff)
      with 3(1) Some q show ?thesis by blast
    qed
    then have "map (resolve n (h(a := x))) qs = map (resolve n h) qs"
      if "qs \<in> {bc_Must c, bc_Should c, bc_MustNot c, bc_Filter c}" for qs
      using that by (intro map_cong refl) auto
    with ne Some show ?thesis by (simp del: map_eq_conv fun_upd_apply add: fun_upd_other)
  qed (use ne in simp)
qed simp_all

lemma resolve_frame_all:
  "\<forall>q \<in> set qs. \<not> visits n h q a \<Longrightarrow> map (resolve n (h(a := x))) qs = map (resolve n h) qs"
  by (simp add: resolve_frame)

lemma those_append:
  "those (xs @ ys) = (case those xs of None \<Rightarrow> None | Some us \<Rightarrow> map_option (\<lambda>vs. us @ vs) (those ys))"
  by (induction xs) (cases "those ys", auto split: option.splits)+

lemma resolve_values [simp]: "those (map (resolve n h) (map QValue qs)) = Some qs"
  by (induction qs) simp_all

section \<open>The calls refine those of the value\<close>

text \<open>The condition: the arguments and the clauses do not lead back to the builder.\<close>

lemma builder_calls:
  assumes "builder_at n h b = Some v" "clauses_avoid n h b b"
    and "\<forall>q \<in> set queries. \<not> visits n h q b" "those (map (resolve n h) queries) = Some qs"
  shows "builder_at n (ref_Must queries b h) b = Some (bool_Must qs v)"
    and "builder_at n (ref_Should queries b h) b = Some (bool_Should qs v)"
    and "builder_at n (ref_MustNot queries b h) b = Some (bool_MustNot qs v)"
    and "builder_at n (ref_Filter queries b h) b = Some (bool_Filter qs v)"
proof -
  from assms(1) obtain c where c: "h b = Some c" by (auto simp: builder_at_def split: option.splits)
  have args: "map (resolve n (h(b := x))) queries = map (resolve n h) queries" for x
    using assms(3) by (rule resolve_frame_all)
  have "map (resolve n (h(b := x))) (bc_Must c) = map (resolve n h) (bc_Must c)"
    "map (resolve n (h(b := x))) (bc_Should c) = map (resolve n h) (bc_Should c)"
    "map (resolve n (h(b := x))) (bc_MustNot c) = map (resolve n h) (bc_MustNot c)"
    "map (resolve n (h(b := x))) (bc_Filter c) = map (resolve n h) (bc_Filter c)" for x
    by (rule resolve_frame_all; use assms(2) c in \<open>simp add: clauses_avoid_def\<close>)+
  note frame = this args
  from assms(1) c assms(4) show
    "builder_at n (ref_Must queries b h) b = Some (bool_Must qs v)"
    "builder_at n (ref_Should queries b h) b = Some (bool_Should qs v)"
    "builder_at n (ref_MustNot queries b h) b = Some (bool_MustNot qs v)"
    "builder_at n (ref_Filter queries b h) b = Some (bool_Filter qs v)"
    by (auto simp: builder_at_def ref_Must_def ref_Should_def ref_MustNot_def ref_Filter_def
        bool_Must_def bool_Should_def bool_MustNot_def bool_Filter_def those_append frame
        simp del: map_eq_conv split: option.splits)
qed

section \<open>A use of a builder\<close>

datatype bool_call = BMust "query list" | BShould "query list" | BMustNot "query list" | BFilter "query list"

fun ref_call :: "nat \<Rightarrow> bool_call \<Rightarrow> bool_heap \<Rightarrow> bool_heap" where
  "ref_call b (BMust qs) = ref_Must (map QValue qs) b"
| "ref_call b (BShould qs) = ref_Should (map QValue qs) b"
| "ref_call b (BMustNot qs) = ref_MustNot (map QValue qs) b"
| "ref_call b (BFilter qs) = ref_Filter (map QValue qs) b"

fun value_call :: "bool_call \<Rightarrow> BoolBuilder \<Rightarrow> BoolBuilder" where
  "value_call (BMust qs) = bool_Must qs"
| "value_call (BShould qs) = bool_Should qs"
| "value_call (BMustNot qs) = bool_MustNot qs"
| "value_call (BFilter qs) = bool_Filter qs"

text \<open>All clauses of the builder are values, and these are the clauses.\<close>

definition holds_values :: "bool_heap \<Rightarrow> nat \<Rightarrow> BoolBuilder \<Rightarrow> bool" where
  "holds_values h b v \<longleftrightarrow> h b = Some
     \<lparr>bc_Must = map QValue (bb_Must v), bc_Should = map QValue (bb_Should v),
      bc_MustNot = map QValue (bb_MustNot v), bc_Filter = map QValue (bb_Filter v)\<rparr>"

lemma holds_values_fresh: "holds_values (snd (ref_Bool b h)) b Bool"
  by (simp add: holds_values_def ref_Bool_def Bool_def)

lemma holds_values_call: "holds_values h b v \<Longrightarrow> holds_values (ref_call b c h) b (value_call c v)"
  by (cases c) (auto simp: holds_values_def ref_Must_def ref_Should_def ref_MustNot_def ref_Filter_def
      bool_Must_def bool_Should_def bool_MustNot_def bool_Filter_def)

lemma holds_values_calls:
  "holds_values h b v \<Longrightarrow> holds_values (fold (ref_call b) calls h) b (fold value_call calls v)"
  by (induction calls arbitrary: h v) (auto intro: holds_values_call)

lemma holds_values_built:
  "holds_values h b v \<Longrightarrow> resolve (Suc n) h (ref_Build b) = Some (bool_Build v)"
  by (simp add: holds_values_def ref_Build_def bool_Build_def del: map_map)

section \<open>Property\<close>



end
