(* ===== verification/Spec2Isabelle.thy ===== *)
theory Spec2Isabelle imports RelayRuns RelayLife Delivery Drains LiveScan ModelValues Cobra SharedBuilders begin

text \<open>
  A model of essyncer, a Go library that keeps Elasticsearch in step with a SQL database through an
  outbox table, and the theorems that make it correct.

  \<^bold>\<open>The program.\<close>  The application registers its gorm models.  Callbacks (\<open>callback.go\<close>,
  \<open>autosync_tx.go\<close>) turn each write into rows of the table \<open>outbox_events\<close>, in the transaction of the
  write.  A relay (\<open>outbox_relay.go\<close>) claims a batch of rows under a lease (\<open>outbox_store.go\<close>), sends
  each to Elasticsearch and marks it sent, pending again or dead; several processes may relay from one
  table.  A full synchronisation (\<open>fullsync.go\<close>, \<open>fullsync_strategy.go\<close>) copies a table into a new
  index and moves the alias to it (\<open>index_alias.go\<close>).  Operations on the outbox and on single documents
  (\<open>ops.go\<close>, \<open>doc_ops.go\<close>) have a command line (\<open>cobra_ops.go\<close>).  The package \<open>searcher\<close> builds and
  runs queries.

  \<^bold>\<open>How it is modelled.\<close>  Every function of the source is a function on explicit state: the \<open>Syncer\<close>
  record holds what the struct of \<open>syncer.go\<close> holds, and a world \<open>'w\<close> stands for everything outside
  (the database, Elasticsearch, the clock).  What the source calls there, gorm, the Elasticsearch
  client, JSON and YAML decoders, cobra, singleflight, are fields of environment records
  (\<open>outbox_db\<close>, \<open>relay_env\<close>, \<open>index_env\<close>, \<open>fs_env\<close>, \<open>sync_env\<close>, \<open>doc_env\<close>, \<open>search_env\<close>, \<open>boot\<close>,
  \<open>cli_env\<close>), which extend each other as the components use each other.  An error is a \<open>go_error\<close>
  that keeps what it wraps; a function that returns a value and an error gives a sum or a pair as the
  source does.  Go's \<open>int\<close> is an \<open>int\<close> that is wrapped to 64 bits where it can overflow, an atomic
  counter is a \<open>64 word\<close>, a time or duration is in nanoseconds.

  \<^bold>\<open>Theories.\<close>
  \<^item> \<open>Prelude\<close>: integers, times, errors, contexts and the lemmas on lists that all share.
  \<^item> \<open>Failures\<close>, \<open>Metrics\<close> (\<open>failures.go\<close>, \<open>metrics.go\<close>): the ring of failure samples, behind the contract
    \<open>bounded_log\<close>, and the counters.
  \<^item> \<open>Config\<close>, \<open>Model\<close>, \<open>SyncerState\<close> (\<open>config.go\<close>, \<open>model.go\<close>, \<open>options.go\<close>, \<open>syncer.go\<close>):
    configuration, the registry of models, the state of the syncer and its options.
  \<^item> \<open>OutboxTable\<close>, \<open>OutboxStore\<close> (\<open>outbox_model.go\<close>, \<open>outbox_store.go\<close>): the row, the contract of an
    SQL table (locale \<open>outbox_table\<close>), and the claim, the fenced write backs and the inserts;
    \<open>MemWorld\<close> is a table in memory that keeps the contract.
  \<^item> \<open>OutboxRelay\<close>, \<open>RelayRuns\<close>, \<open>RelayLife\<close> (\<open>outbox_relay.go\<close>): the delivery of a row and of a batch,
    the polling loop, and relays that are started, run, panic and are shut down in any order.
  \<^item> \<open>OutboxProtocol\<close>: the statements of all processes on one table as a step relation; what holds in
    every reachable state, and that the code refines it.
  \<^item> \<open>OutboxOps\<close>, \<open>Drains\<close> (\<open>ops.go\<close>): list, clean up, replay, drain, reconcile; why a drain without a limit
    ends.
  \<^item> \<open>IndexAlias\<close>, \<open>FullSync\<close>, \<open>Rebuild\<close>, \<open>FullSyncRuns\<close>: aliases and indices, the scan of a table, the
    contracts of a scan cursor, a bulk indexer, a table and a cluster with its documents (\<open>scan_cursor\<close>,
    \<open>hand_over\<close>, \<open>table_scan\<close>, \<open>alias_cluster\<close>, \<open>doc_store\<close>, \<open>rebuild\<close>), and a world in memory that keeps them.
  \<^item> \<open>LiveScan\<close>: a full sync while the application writes to the table (\<open>live_scan\<close>, \<open>live_rebuild\<close>).
  \<^item> \<open>ModelValues\<close> (\<open>model.go\<close>): the values that are made by reflection, the slice of a scan and deep copies.
  \<^item> \<open>SyncerLife\<close> (\<open>syncer.go\<close>): the constructor, registration, \<open>Health\<close> and \<open>Shutdown\<close>.
  \<^item> \<open>AutoSync\<close> (\<open>callback.go\<close>, \<open>autosync_tx.go\<close>): which instances a write has, the events of a write,
    their insert on the handle of the write, the counting after the commit, and the installation of
    the callbacks (contract \<open>hook_chain\<close>).
  \<^item> \<open>Delivery\<close>: from a write to its delivery, across \<open>AutoSync\<close>, \<open>OutboxStore\<close> and \<open>OutboxRelay\<close>.
  \<^item> \<open>Strconv\<close>, \<open>DocOps\<close> (\<open>doc_ops.go\<close>): Go's integer parsers, and the operations on single documents.
  \<^item> \<open>Cobra\<close> (\<open>cobra_ops.go\<close>): the tree of commands with its flags and what each command runs.
  \<^item> \<open>Searcher\<close> (\<open>searcher/*.go\<close>): queries, aggregations, the search builder with its request, result
    parser and coalescing, over the contracts of a query engine and of a flight group;
    \<open>SharedBuilders\<close>: the builder of nested queries as a cell that its queries point to.

  \<^bold>\<open>What is shown.\<close>  A row is marked sent only after its request was answered without an error; a
  claim takes the oldest claimable rows and no row is claimed twice under a running lease; a stale
  holder cannot write back; in every interleaving each row has at most one holder and every
  unfinished row becomes claimable again.  The rows of a write are inserted on its own handle or the
  write fails, and a batch that covers the backlog settles them.  A rebuild leaves the alias on what it
  pointed to or on one new index, whichever step fails, and a rebuild without an
  error has put each row beyond the start into the new index once, unless Elasticsearch refused it; when
  the table changes meanwhile this holds for the rows that stayed as they were.  At most one relay runs, and none after a shutdown that has waited, under a condition
  that is shown to be needed.  The other properties state what each operation does on its branches,
  the bounds of its arithmetic, and that loops end.  Some lemmas show where the code departs from its
  documentation; they are concrete runs on the worlds in memory.

  \<^bold>\<open>Loops.\<close>  A loop over a list is structural recursion.  \<open>scan_loop\<close>, \<open>drain_loop\<close> and
  \<open>runOutboxRelay\<close> may run for ever and are partial functions with the result \<open>None\<close> there; that they
  return is proved: the scan because its cursor moves over a finite table, the drain by its limit on
  batches or, without one, because the unfinished rows run out of attempts, the relay once its context is cancelled.  No fuel is used.

  \<^bold>\<open>Concurrency.\<close>  Workers of a full sync are a schedule of their bodies.  Processes that share a table
  interleave by statements (\<open>OutboxProtocol\<close>), relay calls by critical sections (\<open>RelayLife\<close>).
  A search that joins a flight sees the result of an earlier start (\<open>flight_group\<close>).  Data races on
  Go variables are not modelled.

  \<^bold>\<open>Not modelled.\<close>  Logging (\<open>log.go\<close> and the calls of it) and \<open>version.go\<close>, pure output and a constant;
  the accessors of the clients; the parsing of command lines and flags, which is cobra's; the sharing of
  the backing arrays of slices; the transport below the Elasticsearch client.
\<close>

end
